theory Spec2Isabelle
  imports Complex_Main "HOL-Library.AList" "HOL-Library.Multiset"
begin

section \<open>Values shared by the services\<close>

text \<open>
  A thrown JavaScript \<open>Error\<close>: the optional HTTP \<open>status\<close> that the
  Gemini SDK attaches and the \<open>message\<close>.  \<open>new Error(msg)\<close> is \<open>Error msg\<close>.
\<close>

record js_error =
  status :: "nat option"
  message :: string

definition Error :: "string \<Rightarrow> js_error" where
  "Error msg = \<lparr>status = None, message = msg\<rparr>"

text \<open>
  A JavaScript \<open>number\<close> is an IEEE 754 double.  A finite double is carried as the
  real number it denotes; the two infinities and \<open>NaN\<close> are values of their own.
  Every operation below rounds its exact result, so from doubles it produces doubles.
  The two zeros are one value here, \<open>Fin 0\<close>: this program never divides by a
  negative zero (its divisors are products of square roots), and a comparison does not
  tell the zeros apart.
\<close>

datatype number = Fin real | PosInfinity | NegInfinity | NaN

definition isFinite :: "number \<Rightarrow> bool" where
  "isFinite n = (case n of Fin x \<Rightarrow> True | _ \<Rightarrow> False)"

definition finiteValue :: "number \<Rightarrow> real" where
  "finiteValue n = (case n of Fin x \<Rightarrow> x | _ \<Rightarrow> 0)"

definition infinity :: "bool \<Rightarrow> number" where
  "infinity positive = (if positive then PosInfinity else NegInfinity)"

text \<open>
  Rounding a real to the nearest double, ties to even, as every arithmetic operation
  of the language does with its exact result.  \<open>exponent x\<close> is the binary exponent of
  \<open>x\<close> within the range of the format: the \<open>e\<close> with \<open>2^e \<le> |x| < 2^(e+1)\<close>, found by
  halving or doubling, but at least -1022 (the subnormal range) and at most 1023.  The
  doubles next to \<open>x\<close> are the multiples of \<open>pow2 (exponent x - 52)\<close>.  A magnitude of
  \<open>2^1024 - 2^970\<close> or more, which is half-way between the largest double and
  \<open>2^1024\<close>, rounds to an infinity.
\<close>

definition pow2 :: "int \<Rightarrow> real" where
  "pow2 k = (if 0 \<le> k then 2 ^ nat k else 1 / 2 ^ nat (- k))"

fun expUp :: "nat \<Rightarrow> real \<Rightarrow> int" where
  "expUp 0 x = 0"
| "expUp (Suc fuel) x = (if 2 \<le> x then expUp fuel (x / 2) + 1 else 0)"

fun expDown :: "nat \<Rightarrow> real \<Rightarrow> int" where
  "expDown 0 x = 0"
| "expDown (Suc fuel) x = (if x < 1 then expDown fuel (2 * x) - 1 else 0)"

definition exponent :: "real \<Rightarrow> int" where
  "exponent x = (if 1 \<le> \<bar>x\<bar> then expUp 1023 \<bar>x\<bar> else expDown 1022 \<bar>x\<bar>)"

definition roundTiesToEven :: "real \<Rightarrow> int" where
  "roundTiesToEven r =
     (let f = \<lfloor>r\<rfloor>; d = r - of_int f
      in if d < 1 / 2 then f else if 1 / 2 < d then f + 1 else if even f then f else f + 1)"

definition roundToDouble :: "real \<Rightarrow> number" where
  "roundToDouble x =
     (if x = 0 then Fin 0
      else if 2 ^ 1024 - 2 ^ 970 \<le> \<bar>x\<bar> then infinity (0 < x)
      else (let q = pow2 (exponent x - 52)
            in Fin (of_int (roundTiesToEven (x / q)) * q)))"

text \<open>
  The operators \<open>+\<close>, \<open>*\<close>, \<open>/\<close>, unary and binary \<open>-\<close> and \<open>Math.sqrt\<close>: the exact
  result rounded, and the IEEE rules for the non-finite operands (\<open>Infinity - Infinity\<close>,
  \<open>0 * Infinity\<close>, \<open>0 / 0\<close> and \<open>Infinity / Infinity\<close> are \<open>NaN\<close>, and so is every
  operation on \<open>NaN\<close>).
\<close>

fun js_add :: "number \<Rightarrow> number \<Rightarrow> number" where
  "js_add (Fin x) (Fin y) = roundToDouble (x + y)"
| "js_add NaN b = NaN"
| "js_add a NaN = NaN"
| "js_add PosInfinity NegInfinity = NaN"
| "js_add NegInfinity PosInfinity = NaN"
| "js_add PosInfinity b = PosInfinity"
| "js_add a PosInfinity = PosInfinity"
| "js_add NegInfinity b = NegInfinity"
| "js_add a NegInfinity = NegInfinity"

fun js_neg :: "number \<Rightarrow> number" where
  "js_neg (Fin x) = Fin (- x)"
| "js_neg PosInfinity = NegInfinity"
| "js_neg NegInfinity = PosInfinity"
| "js_neg NaN = NaN"

definition js_sub :: "number \<Rightarrow> number \<Rightarrow> number" where
  "js_sub a b = js_add a (js_neg b)"

fun js_mul :: "number \<Rightarrow> number \<Rightarrow> number" where
  "js_mul (Fin x) (Fin y) = roundToDouble (x * y)"
| "js_mul NaN b = NaN"
| "js_mul a NaN = NaN"
| "js_mul (Fin x) PosInfinity = (if x = 0 then NaN else infinity (0 < x))"
| "js_mul (Fin x) NegInfinity = (if x = 0 then NaN else infinity (x < 0))"
| "js_mul PosInfinity (Fin y) = (if y = 0 then NaN else infinity (0 < y))"
| "js_mul NegInfinity (Fin y) = (if y = 0 then NaN else infinity (y < 0))"
| "js_mul PosInfinity PosInfinity = PosInfinity"
| "js_mul NegInfinity NegInfinity = PosInfinity"
| "js_mul PosInfinity NegInfinity = NegInfinity"
| "js_mul NegInfinity PosInfinity = NegInfinity"

fun js_div :: "number \<Rightarrow> number \<Rightarrow> number" where
  "js_div (Fin x) (Fin y) =
     (if y = 0 then (if x = 0 then NaN else infinity (0 < x)) else roundToDouble (x / y))"
| "js_div NaN b = NaN"
| "js_div a NaN = NaN"
| "js_div (Fin x) b = Fin 0"
| "js_div PosInfinity (Fin y) = infinity (0 \<le> y)"
| "js_div NegInfinity (Fin y) = infinity (y < 0)"
| "js_div a b = NaN"

fun js_sqrt :: "number \<Rightarrow> number" where
  "js_sqrt (Fin x) = (if x < 0 then NaN else roundToDouble (sqrt x))"
| "js_sqrt PosInfinity = PosInfinity"
| "js_sqrt a = NaN"

text \<open>The comparisons \<open>===\<close>, \<open><\<close> and \<open>>=\<close>; each is false when an operand is \<open>NaN\<close>.\<close>

definition js_strictEquals :: "number \<Rightarrow> number \<Rightarrow> bool" where
  "js_strictEquals a b = (a \<noteq> NaN \<and> a = b)"

fun js_lt :: "number \<Rightarrow> number \<Rightarrow> bool" where
  "js_lt (Fin x) (Fin y) = (x < y)"
| "js_lt NaN b = False"
| "js_lt a NaN = False"
| "js_lt a NegInfinity = False"
| "js_lt PosInfinity b = False"
| "js_lt a b = True"

fun js_ge :: "number \<Rightarrow> number \<Rightarrow> bool" where
  "js_ge (Fin x) (Fin y) = (y \<le> x)"
| "js_ge NaN b = False"
| "js_ge a NaN = False"
| "js_ge a NegInfinity = True"
| "js_ge PosInfinity b = True"
| "js_ge a b = False"

section \<open>Cosine similarity (VectorStore.ts, EmbeddingService.ts)\<close>

text \<open>
  The accumulation loop that both implementations share, character for character:
  \<^verbatim>\<open>for (let i = 0; i < a.length; i++) { dotProduct += a[i] * b[i]; normA += a[i] * a[i]; normB += b[i] * b[i]; }\<close>
  Both callers establish \<open>length a = length b\<close> before the loop (by truncation or by
  the dimension check), so \<open>b ! i\<close> is read in range.
\<close>

function sumLoop ::
  "number list \<Rightarrow> number list \<Rightarrow> nat \<Rightarrow> number \<times> number \<times> number \<Rightarrow>
   number \<times> number \<times> number" where
  "sumLoop a b i (dotProduct, normA, normB) =
     (if i < length a
      then sumLoop a b (i + 1)
             (js_add dotProduct (js_mul (a ! i) (b ! i)),
              js_add normA (js_mul (a ! i) (a ! i)),
              js_add normB (js_mul (b ! i) (b ! i)))
      else (dotProduct, normA, normB))"
  by pat_completeness auto
termination
  by (relation "measure (\<lambda>(a, b, i, acc). length a - i)") auto

declare sumLoop.simps [simp del]

text \<open>\<open>VectorStore.cosineSimilarity\<close>: truncate on a length mismatch, guard the division.\<close>

definition VectorStore_cosineSimilarity :: "number list \<Rightarrow> number list \<Rightarrow> number" where
  "VectorStore_cosineSimilarity a0 b0 =
     (let (a, b) =
            (if length a0 \<noteq> length b0
             then (let minLen = min (length a0) (length b0)
                   in (take minLen a0, take minLen b0))
             else (a0, b0));
          (dotProduct, normA, normB) = sumLoop a b 0 (Fin 0, Fin 0, Fin 0);
          denominator = js_mul (js_sqrt normA) (js_sqrt normB)
      in if js_strictEquals denominator (Fin 0) then Fin 0 else js_div dotProduct denominator)"

text \<open>\<open>EmbeddingService.cosineSimilarity\<close>: throw on a length mismatch, divide unguarded.\<close>

definition EmbeddingService_cosineSimilarity ::
  "number list \<Rightarrow> number list \<Rightarrow> js_error + number" where
  "EmbeddingService_cosineSimilarity a b =
     (if length a \<noteq> length b
      then Inl (Error ''Embeddings must have the same dimensions'')
      else (let (dotProduct, normA, normB) = sumLoop a b 0 (Fin 0, Fin 0, Fin 0)
            in Inr (js_div dotProduct (js_mul (js_sqrt normA) (js_sqrt normB)))))"

text \<open>
  The specification's vocabulary, written from its words.  The L2 norm of a vector of
  reals; a vector of numbers has zero L2 norm when its components are finite and the
  norm of their values is 0.  The dot product and the sum of squares as they are
  computed: accumulated from the left, every product and every sum rounded.
\<close>

definition l2norm :: "real list \<Rightarrow> real" where
  "l2norm a = sqrt (sum_list (map (\<lambda>x. x * x) a))"

definition zeroNorm :: "number list \<Rightarrow> bool" where
  "zeroNorm v = (list_all isFinite v \<and> l2norm (map finiteValue v) = 0)"

definition dotSum :: "number list \<Rightarrow> number list \<Rightarrow> number" where
  "dotSum a b = foldl (\<lambda>s (x, y). js_add s (js_mul x y)) (Fin 0) (zip a b)"

definition sumSquares :: "number list \<Rightarrow> number" where
  "sumSquares v = foldl (\<lambda>s x. js_add s (js_mul x x)) (Fin 0) v"

text \<open>
  Two sets of numbers that the proofs follow through the loop: what a sum of squares
  can be (a double between 0 and \<open>2^1024\<close>, \<open>Infinity\<close> or \<open>NaN\<close>), and what a sum of
  products with zeros can be (0 or \<open>NaN\<close>).
\<close>

definition nonnegResult :: "number \<Rightarrow> bool" where
  "nonnegResult n = (case n of Fin y \<Rightarrow> 0 \<le> y \<and> y \<le> 2 ^ 1024 | PosInfinity \<Rightarrow> True
                      | NaN \<Rightarrow> True | NegInfinity \<Rightarrow> False)"

definition zeroOrNaN :: "number \<Rightarrow> bool" where
  "zeroOrNaN n = (n = Fin 0 \<or> n = NaN)"

section \<open>Strings\<close>

text \<open>
  Strings are modelled as lists of 8-bit characters; the messages and tool names of
  this program are ASCII.  \<open>startsWith\<close> and \<open>str_includes\<close> are the JavaScript string
  methods \<open>startsWith\<close> and \<open>includes\<close>, \<open>toLowerCase\<close> is restricted to the ASCII letters.
\<close>

definition startsWith :: "string \<Rightarrow> string \<Rightarrow> bool" where
  "startsWith s p = (take (length p) s = p)"

fun str_includes :: "string \<Rightarrow> string \<Rightarrow> bool" where
  "str_includes [] sub = (sub = [])"
| "str_includes (c # cs) sub = (startsWith (c # cs) sub \<or> str_includes cs sub)"

definition toLowerChar :: "char \<Rightarrow> char" where
  "toLowerChar c =
     (case map_of (zip ''ABCDEFGHIJKLMNOPQRSTUVWXYZ'' ''abcdefghijklmnopqrstuvwxyz'') c of
        Some l \<Rightarrow> l
      | None \<Rightarrow> c)"

definition toLowerCase :: "string \<Rightarrow> string" where
  "toLowerCase s = map toLowerChar s"

definition isDigit :: "char \<Rightarrow> bool" where
  "isDigit c = (c \<in> set ''0123456789'')"

text \<open>The ASCII members of the regular expression class \<open>\s\<close>.\<close>

definition isSpace :: "char \<Rightarrow> bool" where
  "isSpace c = (c \<in> set [CHR '' '', CHR 0x09, CHR 0x0A, CHR 0x0B, CHR 0x0C, CHR 0x0D])"

definition digitValue :: "char \<Rightarrow> nat" where
  "digitValue c = (case map_of (zip ''0123456789'' [0, 1, 2, 3, 4, 5, 6, 7, 8, 9]) c of
                     Some d \<Rightarrow> d | None \<Rightarrow> 0)"

definition digitsValue :: "string \<Rightarrow> nat" where
  "digitsValue ds = foldl (\<lambda>acc c. 10 * acc + digitValue c) 0 ds"

fun showDigits :: "nat \<Rightarrow> nat \<Rightarrow> string" where
  "showDigits 0 n = []"
| "showDigits (Suc fuel) n =
     (if n < 10 then [''0123456789'' ! n]
      else showDigits fuel (n div 10) @ [''0123456789'' ! (n mod 10)])"

text \<open>Decimal rendering of a natural number, as template literals render an integer.\<close>

definition showNat :: "nat \<Rightarrow> string" where
  "showNat n = showDigits (Suc n) n"

section \<open>Retry policy of the Gemini provider (gemini-provider.ts, withRetry)\<close>

definition MAX_RETRIES :: nat where
  "MAX_RETRIES = 3"

definition INITIAL_RETRY_DELAY_MS :: int where
  "INITIAL_RETRY_DELAY_MS = 1000"

text \<open>
  \<^verbatim>\<open>error?.status === 429 || error?.message?.includes('429') ||
  error?.message?.includes('Too Many Requests') || error?.message?.includes('quota')\<close>
\<close>

definition isRateLimited :: "js_error \<Rightarrow> bool" where
  "isRateLimited error =
     (status error = Some 429 \<or> str_includes (message error) ''429'' \<or>
      str_includes (message error) ''Too Many Requests'' \<or> str_includes (message error) ''quota'')"

text \<open>
  The regular expression
  \<^verbatim>\<open>/retry in (\d+(?:\.\d+)?)\s*(ms|s|m|h|seconds?|minutes?|hours?)?/i\<close>.
  Every part after the first digit is optional or greedy with nothing after it, so a
  match attempt at a position never backtracks: the literal (case-insensitive), the
  digits, an optional fraction, the white space, and the first unit alternative, in the
  order of the alternation, that the rest of the text starts with.
\<close>

definition ciStartsWith :: "string \<Rightarrow> string \<Rightarrow> bool" where
  "ciStartsWith s p = (toLowerCase (take (length p) s) = toLowerCase p)"

definition matchNumber :: "string \<Rightarrow> (string \<times> string) option" where
  "matchNumber s =
     (let ip = takeWhile isDigit s; r = dropWhile isDigit s
      in if ip = [] then None
         else (case r of
                 c # r' \<Rightarrow>
                   (if c = CHR ''.'' \<and> takeWhile isDigit r' \<noteq> []
                    then Some (ip @ [c] @ takeWhile isDigit r', dropWhile isDigit r')
                    else Some (ip, r))
               | [] \<Rightarrow> Some (ip, r)))"

definition unitAlternatives :: "string list" where
  "unitAlternatives =
     [''ms'', ''s'', ''m'', ''h'', ''seconds'', ''second'', ''minutes'', ''minute'',
      ''hours'', ''hour'']"

definition matchUnit :: "string \<Rightarrow> string option" where
  "matchUnit s =
     (case find (ciStartsWith s) unitAlternatives of
        None \<Rightarrow> None
      | Some u \<Rightarrow> Some (take (length u) s))"

text \<open>A match attempt anchored at the start of \<open>s\<close>: the two capture groups.\<close>

definition matchHere :: "string \<Rightarrow> (string \<times> string option) option" where
  "matchHere s =
     (if ciStartsWith s ''retry in ''
      then (case matchNumber (drop 9 s) of
              None \<Rightarrow> None
            | Some (num, r) \<Rightarrow> Some (num, matchUnit (dropWhile isSpace r)))
      else None)"

text \<open>\<open>message.match(...)\<close>: the leftmost position at which an attempt succeeds.\<close>

fun retryMatch :: "string \<Rightarrow> (string \<times> string option) option" where
  "retryMatch [] = matchHere []"
| "retryMatch (c # cs) =
     (case matchHere (c # cs) of Some m \<Rightarrow> Some m | None \<Rightarrow> retryMatch cs)"

text \<open>
  \<open>parseFloat\<close> on the text of the first capture group (digits with an optional
  fraction): its exact decimal value.  (The code goes on with the double nearest to
  that value; the two agree on the integers and on the fractions that are multiples of
  a power of 1/2.)
\<close>

definition parseFloat :: "string \<Rightarrow> real" where
  "parseFloat s =
     (let ip = takeWhile isDigit s; r = dropWhile isDigit s
      in case r of
           [] \<Rightarrow> real (digitsValue ip)
         | c # fp \<Rightarrow> real (digitsValue ip) + real (digitsValue fp) / 10 ^ length fp)"

definition unitStartsWith :: "string option \<Rightarrow> string \<Rightarrow> bool" where
  "unitStartsWith unit p = (case unit of None \<Rightarrow> False | Some u \<Rightarrow> startsWith u p)"

text \<open>
  The delay computed in the \<open>catch\<close> block: exponential backoff, overridden by a delay
  found in the error message, to which one second is added.
\<close>

definition retryDelay :: "nat \<Rightarrow> js_error \<Rightarrow> int" where
  "retryDelay attempt error =
     (let backoff = INITIAL_RETRY_DELAY_MS * 2 ^ attempt
      in case retryMatch (message error) of
           None \<Rightarrow> backoff
         | Some (num, unit0) \<Rightarrow>
             (let value = parseFloat num;
                  unit = map_option toLowerCase unit0
              in (if unitStartsWith unit ''h'' then \<lceil>value * 60 * 60 * 1000\<rceil>
                  else if unitStartsWith unit ''m'' \<and> \<not> unitStartsWith unit ''ms''
                    then \<lceil>value * 60 * 1000\<rceil>
                  else if unit = Some ''ms'' then \<lceil>value\<rceil>
                  else \<lceil>value * 1000\<rceil>) + 1000))"

text \<open>What the \<open>catch\<close> block decides: sleep and try again, or rethrow.\<close>

datatype retry_step = Retry int | Rethrow js_error

definition onError :: "nat \<Rightarrow> js_error \<Rightarrow> retry_step" where
  "onError attempt error =
     (if isRateLimited error \<and> attempt < MAX_RETRIES - 1
      then Retry (retryDelay attempt error)
      else Rethrow error)"

text \<open>
  \<open>withRetry\<close>.  The operation is effectful: \<open>operation attempt s\<close> is the call made
  in iteration \<open>attempt\<close> on the state \<open>s\<close> of what the operation writes to (for
  \<open>chatStream\<close>, the chunks that \<open>onChunk\<close> has received so far); it returns the state
  it leaves and its outcome, which may differ from one attempt to the next.  What a
  failed attempt wrote stays written when the operation is tried again.  The result
  carries the list of delays slept.  The final \<open>throw lastError\<close> is unreachable as
  long as \<open>MAX_RETRIES\<close> is positive.
\<close>

function withRetry_loop ::
  "(nat \<Rightarrow> 's \<Rightarrow> 's \<times> (js_error + 'a)) \<Rightarrow> nat \<Rightarrow> js_error option \<Rightarrow> int list \<Rightarrow> 's \<Rightarrow>
   int list \<times> 's \<times> (js_error + 'a)" where
  "withRetry_loop operation attempt lastError slept s =
     (if attempt < MAX_RETRIES
      then (case operation attempt s of
              (s1, Inr v) \<Rightarrow> (slept, s1, Inr v)
            | (s1, Inl error) \<Rightarrow>
                (case onError attempt error of
                   Retry ms \<Rightarrow>
                     withRetry_loop operation (attempt + 1) (Some error) (slept @ [ms]) s1
                 | Rethrow e \<Rightarrow> (slept, s1, Inl e)))
      else (slept, s, Inl (case lastError of Some e \<Rightarrow> e | None \<Rightarrow> Error ''null'')))"
  by pat_completeness auto
termination
  by (relation "measure (\<lambda>(operation, attempt, lastError, slept, s). MAX_RETRIES - attempt)")
     (auto simp: MAX_RETRIES_def)

declare withRetry_loop.simps [simp del]

definition withRetry ::
  "(nat \<Rightarrow> 's \<Rightarrow> 's \<times> (js_error + 'a)) \<Rightarrow> 's \<Rightarrow> int list \<times> 's \<times> (js_error + 'a)" where
  "withRetry operation s = withRetry_loop operation 0 None [] s"

section \<open>Messages, tool calls and stream chunks (llm/types.ts)\<close>

text \<open>
  A JSON value that the orchestration only passes along (tool arguments, chart
  descriptors, parameter schemas) is kept as its serialised text.
\<close>

type_synonym json = string

type_synonym args = "(string \<times> json) list"

type_synonym chart = json

datatype msg_role = System | User | Assistant | Tool

record tool_call =
  tc_id :: string
  tc_name :: string
  tc_arguments :: args

record message =
  role :: msg_role
  content :: string
  toolCallId :: "string option"
  toolCalls :: "tool_call list option"

datatype stream_chunk =
    TextChunk string
  | ToolCallChunk tool_call
  | ToolResultChunk tool_call string
  | ChartChunk chart
  | DoneChunk
  | ErrorChunk string

datatype user_role = Customer | Admin

record chat_context =
  userId :: nat
  userRole :: user_role
  userName :: string

text \<open>A tool descriptor, identified by its name (description and schema are not modelled).\<close>

type_synonym tool = string

text \<open>\<open>response.toolCalls && response.toolCalls.length > 0\<close> is \<open>requested response \<noteq> []\<close>.\<close>

definition requested :: "message \<Rightarrow> tool_call list" where
  "requested response = (case toolCalls response of None \<Rightarrow> [] | Some tcs \<Rightarrow> tcs)"

section \<open>JSON error payloads\<close>

text \<open>\<open>JSON.stringify\<close> of a string: the quotes and the escapes of RFC 8259.\<close>

definition dq :: char where
  "dq = CHR 0x22"

definition hexDigit :: "nat \<Rightarrow> char" where
  "hexDigit n = ''0123456789abcdef'' ! (n mod 16)"

definition jsonEscape :: "char \<Rightarrow> string" where
  "jsonEscape c =
     (if c = dq then [CHR 0x5C, dq]
      else if c = CHR 0x5C then [CHR 0x5C, CHR 0x5C]
      else if c = CHR 0x08 then [CHR 0x5C, CHR ''b'']
      else if c = CHR 0x0C then [CHR 0x5C, CHR ''f'']
      else if c = CHR 0x0A then [CHR 0x5C, CHR ''n'']
      else if c = CHR 0x0D then [CHR 0x5C, CHR ''r'']
      else if c = CHR 0x09 then [CHR 0x5C, CHR ''t'']
      else if (of_char c :: nat) < 32
        then [CHR 0x5C, CHR ''u'', CHR ''0'', CHR ''0'',
              hexDigit (of_char c div 16), hexDigit (of_char c)]
      else [c])"

definition jsonQuote :: "string \<Rightarrow> string" where
  "jsonQuote s = [dq] @ concat (map jsonEscape s) @ [dq]"

text \<open>\<open>JSON.stringify({ error: msg })\<close>\<close>

definition jsonError :: "string \<Rightarrow> string" where
  "jsonError msg = ''{'' @ jsonQuote ''error'' @ '':'' @ jsonQuote msg @ ''}''"

section \<open>The local tool registry (tools.ts)\<close>

definition customerTools :: "tool list" where
  "customerTools =
     [''semantic_search_products'', ''search_products'', ''get_product_details'',
      ''get_my_orders'', ''get_order_details'', ''get_my_cart'', ''get_my_spending'']"

definition adminTools :: "tool list" where
  "adminTools =
     customerTools @
     [''get_sales_dashboard'', ''get_sales_analytics'', ''get_top_products'',
      ''get_inventory_status'', ''get_revenue_by_category'']"

definition getToolsForRole :: "user_role \<Rightarrow> tool list" where
  "getToolsForRole r = (if r = Admin then adminTools else customerTools)"

text \<open>
  What a handler returns, as far as \<open>executeTool\<close> looks at it: its rendering by
  \<open>JSON.stringify(result, null, 2)\<close> and its \<open>chart\<close> property, if it has one.
\<close>

record tool_value =
  rendered :: string
  chartField :: "chart option"

text \<open>
  The handlers are queries against the database and the retrieval engine; they are
  parameters of the model.  Each may throw.  An argument read as \<open>args.productId\<close>
  is the lookup \<open>map_of args ''productId''\<close>.
\<close>

record handlers =
  semanticSearchProducts :: "args \<Rightarrow> js_error + tool_value"
  searchProducts :: "args \<Rightarrow> js_error + tool_value"
  getProductDetails :: "json option \<Rightarrow> js_error + tool_value"
  getMyOrders :: "nat \<Rightarrow> args \<Rightarrow> js_error + tool_value"
  getOrderDetails :: "nat \<Rightarrow> json option \<Rightarrow> js_error + tool_value"
  getMyCart :: "nat \<Rightarrow> js_error + tool_value"
  getMySpending :: "nat \<Rightarrow> json option \<Rightarrow> js_error + tool_value"
  getSalesDashboard :: "js_error + tool_value"
  getSalesAnalytics :: "json option \<Rightarrow> json option \<Rightarrow> js_error + tool_value"
  getTopProducts :: "json option \<Rightarrow> json option \<Rightarrow> js_error + tool_value"
  getInventoryStatus :: "json option \<Rightarrow> js_error + tool_value"
  getRevenueByCategory :: "json option \<Rightarrow> js_error + tool_value"

definition executeToolInternal ::
  "handlers \<Rightarrow> string \<Rightarrow> args \<Rightarrow> chat_context \<Rightarrow> js_error + tool_value" where
  "executeToolInternal h toolName args context =
     (if toolName = ''semantic_search_products'' then semanticSearchProducts h args
      else if toolName = ''search_products'' then searchProducts h args
      else if toolName = ''get_product_details''
        then getProductDetails h (map_of args ''productId'')
      else if toolName = ''get_my_orders'' then getMyOrders h (userId context) args
      else if toolName = ''get_order_details''
        then getOrderDetails h (userId context) (map_of args ''orderId'')
      else if toolName = ''get_my_cart'' then getMyCart h (userId context)
      else if toolName = ''get_my_spending''
        then getMySpending h (userId context) (map_of args ''days'')
      else if toolName = ''get_sales_dashboard''
        then (if userRole context \<noteq> Admin then Inl (Error ''Admin only'')
              else getSalesDashboard h)
      else if toolName = ''get_sales_analytics''
        then (if userRole context \<noteq> Admin then Inl (Error ''Admin only'')
              else getSalesAnalytics h (map_of args ''days'') (map_of args ''includeChart''))
      else if toolName = ''get_top_products''
        then (if userRole context \<noteq> Admin then Inl (Error ''Admin only'')
              else getTopProducts h (map_of args ''limit'') (map_of args ''includeChart''))
      else if toolName = ''get_inventory_status''
        then (if userRole context \<noteq> Admin then Inl (Error ''Admin only'')
              else getInventoryStatus h (map_of args ''lowStockThreshold''))
      else if toolName = ''get_revenue_by_category''
        then (if userRole context \<noteq> Admin then Inl (Error ''Admin only'')
              else getRevenueByCategory h (map_of args ''includeChart''))
      else Inl (Error (''Unknown tool: '' @ toolName)))"

text \<open>\<open>ExtendedToolResult\<close>\<close>

record tool_result =
  tr_toolCallId :: string
  tr_content :: string
  tr_chart :: "chart option"

text \<open>
  \<open>executeTool\<close>: the \<open>try\<close>/\<open>catch\<close> around \<open>executeToolInternal\<close>.  \<open>now\<close> is the
  reading of \<open>Date.now()\<close>.
\<close>

definition executeTool ::
  "handlers \<Rightarrow> nat \<Rightarrow> string \<Rightarrow> args \<Rightarrow> chat_context \<Rightarrow> tool_result" where
  "executeTool h now toolName args context =
     (let toolCallId = ''tool_'' @ showNat now
      in case executeToolInternal h toolName args context of
           Inr result \<Rightarrow>
             \<lparr>tr_toolCallId = toolCallId, tr_content = rendered result,
              tr_chart = chartField result\<rparr>
         | Inl error \<Rightarrow>
             \<lparr>tr_toolCallId = toolCallId, tr_content = jsonError (message error),
              tr_chart = None\<rparr>)"

text \<open>The tools whose \<open>case\<close> re-checks the caller's role.\<close>

definition adminGated :: "string list" where
  "adminGated =
     [''get_sales_dashboard'', ''get_sales_analytics'', ''get_top_products'',
      ''get_inventory_status'', ''get_revenue_by_category'']"

section \<open>One orchestration turn as a state\<close>

text \<open>
  The working transcript \<open>messages\<close> of a turn, and a log of what the turn did, in
  order: a call of the Language-Model Provider, a chunk yielded by the generator, a
  message appended to the transcript.
\<close>

datatype event = LLMCall | Yield stream_chunk | Push message

record turn =
  messages :: "message list"
  trace :: "event list"

definition called :: "turn \<Rightarrow> turn" where
  "called st = st\<lparr>trace := trace st @ [LLMCall]\<rparr>"

definition yield :: "stream_chunk \<Rightarrow> turn \<Rightarrow> turn" where
  "yield c st = st\<lparr>trace := trace st @ [Yield c]\<rparr>"

definition push :: "message \<Rightarrow> turn \<Rightarrow> turn" where
  "push m st = st\<lparr>messages := messages st @ [m], trace := trace st @ [Push m]\<rparr>"

fun yieldAll :: "stream_chunk list \<Rightarrow> turn \<Rightarrow> turn" where
  "yieldAll [] st = st"
| "yieldAll (c # cs) st = yieldAll cs (yield c st)"

fun llmCallsIn :: "event list \<Rightarrow> nat" where
  "llmCallsIn [] = 0"
| "llmCallsIn (LLMCall # es) = Suc (llmCallsIn es)"
| "llmCallsIn (e # es) = llmCallsIn es"

fun chunksOf :: "event list \<Rightarrow> stream_chunk list" where
  "chunksOf [] = []"
| "chunksOf (Yield c # es) = c # chunksOf es"
| "chunksOf (e # es) = chunksOf es"

fun pushedIn :: "event list \<Rightarrow> message list" where
  "pushedIn [] = []"
| "pushedIn (Push m # es) = m # pushedIn es"
| "pushedIn (e # es) = pushedIn es"

definition llmCalls :: "turn \<Rightarrow> nat" where
  "llmCalls st = llmCallsIn (trace st)"

definition chunks :: "turn \<Rightarrow> stream_chunk list" where
  "chunks st = chunksOf (trace st)"

text \<open>
  The Language-Model Provider.  Its first argument is the number of provider calls
  the turn has made before this one, so that the outcome may differ from call to call
  even on equal transcripts.  \<open>chatStream\<close> returns the final message together with
  the chunks that \<open>onChunk\<close> received while the call ran, in order.
\<close>

type_synonym chat_fn = "nat \<Rightarrow> message list \<Rightarrow> tool list \<Rightarrow> js_error + message"

type_synonym chatStream_fn =
  "nat \<Rightarrow> message list \<Rightarrow> tool list \<Rightarrow> js_error + (stream_chunk list \<times> message)"

definition systemMessage :: "string \<Rightarrow> message" where
  "systemMessage text = \<lparr>role = System, content = text, toolCallId = None, toolCalls = None\<rparr>"

definition userMessage :: "string \<Rightarrow> message" where
  "userMessage text = \<lparr>role = User, content = text, toolCallId = None, toolCalls = None\<rparr>"

definition toolMessage :: "string \<Rightarrow> string \<Rightarrow> message" where
  "toolMessage text callId =
     \<lparr>role = Tool, content = text, toolCallId = Some callId, toolCalls = None\<rparr>"

text \<open>
  The transcript a turn starts from.  \<open>prompt\<close> is the text of \<open>getSystemPrompt(context)\<close>,
  which reads the clock.
\<close>

definition startTurn :: "string \<Rightarrow> message list \<Rightarrow> string \<Rightarrow> turn" where
  "startTurn prompt conversationHistory text =
     \<lparr>messages = [systemMessage prompt] @ conversationHistory @ [userMessage text],
      trace = []\<rparr>"

section \<open>ChatService (ChatService.ts)\<close>

definition MAX_TOOL_ITERATIONS :: nat where
  "MAX_TOOL_ITERATIONS = 5"

type_synonym exec_fn = "string \<Rightarrow> args \<Rightarrow> chat_context \<Rightarrow> tool_result"

text \<open>The \<open>for (const toolCall of response.toolCalls)\<close> loop of \<open>chat\<close>.\<close>

fun dispatchTools :: "exec_fn \<Rightarrow> chat_context \<Rightarrow> tool_call list \<Rightarrow> turn \<Rightarrow> turn" where
  "dispatchTools exec context [] st = st"
| "dispatchTools exec context (toolCall # rest) st =
     (let result = exec (tc_name toolCall) (tc_arguments toolCall) context
      in dispatchTools exec context rest
           (push (toolMessage (tr_content result) (tc_id toolCall)) st))"

text \<open>The \<open>while\<close> loop of \<open>chat\<close>, entered with the first response.\<close>

function chat_loop ::
  "chat_fn \<Rightarrow> exec_fn \<Rightarrow> tool list \<Rightarrow> chat_context \<Rightarrow> message \<Rightarrow> nat \<Rightarrow> turn \<Rightarrow>
   (js_error + message) \<times> turn" where
  "chat_loop llm exec tools context response iterations st =
     (if requested response \<noteq> [] \<and> iterations < MAX_TOOL_ITERATIONS
      then (let st1 = dispatchTools exec context (requested response) (push response st)
            in case llm (llmCalls st1) (messages st1) tools of
                 Inl e \<Rightarrow> (Inl e, called st1)
               | Inr response' \<Rightarrow>
                   chat_loop llm exec tools context response' (iterations + 1) (called st1))
      else (Inr response, st))"
  by pat_completeness auto
termination
  by (relation "measure (\<lambda>(llm, exec, tools, context, response, iterations, st).
                  MAX_TOOL_ITERATIONS - iterations)") auto

declare chat_loop.simps [simp del]

definition ChatService_chat ::
  "chat_fn \<Rightarrow> exec_fn \<Rightarrow> string \<Rightarrow> string \<Rightarrow> chat_context \<Rightarrow> message list \<Rightarrow>
   (js_error + message) \<times> turn" where
  "ChatService_chat llm exec prompt text context conversationHistory =
     (let st = startTurn prompt conversationHistory text;
          tools = getToolsForRole (userRole context)
      in case llm (llmCalls st) (messages st) tools of
           Inl e \<Rightarrow> (Inl e, called st)
         | Inr response \<Rightarrow> chat_loop llm exec tools context response 0 (called st))"

text \<open>The \<open>for (const toolCall of response.toolCalls)\<close> loop of \<open>chatStream\<close>.\<close>

fun dispatchToolsStream ::
  "exec_fn \<Rightarrow> chat_context \<Rightarrow> tool_call list \<Rightarrow> turn \<Rightarrow> turn" where
  "dispatchToolsStream exec context [] st = st"
| "dispatchToolsStream exec context (toolCall # rest) st =
     (let st1 = yield (ToolCallChunk toolCall) st;
          result = exec (tc_name toolCall) (tc_arguments toolCall) context;
          st2 = (case tr_chart result of
                   Some c \<Rightarrow> yield (ChartChunk c) st1
                 | None \<Rightarrow> st1)
      in dispatchToolsStream exec context rest
           (push (toolMessage (tr_content result) (tc_id toolCall)) st2))"

definition isText :: "stream_chunk \<Rightarrow> bool" where
  "isText c = (case c of TextChunk t \<Rightarrow> True | _ \<Rightarrow> False)"

text \<open>
  The \<open>while (hasToolCalls && iterations < MAX_TOOL_ITERATIONS)\<close> loop of \<open>chatStream\<close>
  and the \<open>yield { type: 'done' }\<close> after it.  A provider call that throws ends the
  generator with that error: nothing catches it here.
\<close>

function chatStream_loop ::
  "chatStream_fn \<Rightarrow> exec_fn \<Rightarrow> tool list \<Rightarrow> chat_context \<Rightarrow> bool \<Rightarrow> nat \<Rightarrow> turn \<Rightarrow>
   (js_error + unit) \<times> turn" where
  "chatStream_loop llm exec tools context hasToolCalls iterations st =
     (if hasToolCalls \<and> iterations < MAX_TOOL_ITERATIONS
      then (case llm (llmCalls st) (messages st) tools of
              Inl e \<Rightarrow> (Inl e, called st)
            | Inr (cs, response) \<Rightarrow>
                (let st1 = yieldAll (filter isText cs) (called st)
                 in if requested response \<noteq> []
                    then chatStream_loop llm exec tools context True (iterations + 1)
                           (dispatchToolsStream exec context (requested response)
                              (push response st1))
                    else chatStream_loop llm exec tools context False (iterations + 1) st1))
      else (Inr (), yield DoneChunk st))"
  by pat_completeness auto
termination
  by (relation "measure (\<lambda>(llm, exec, tools, context, hasToolCalls, iterations, st).
                  MAX_TOOL_ITERATIONS - iterations)") auto

declare chatStream_loop.simps [simp del]

definition ChatService_chatStream ::
  "chatStream_fn \<Rightarrow> exec_fn \<Rightarrow> string \<Rightarrow> string \<Rightarrow> chat_context \<Rightarrow> message list \<Rightarrow>
   (js_error + unit) \<times> turn" where
  "ChatService_chatStream llm exec prompt text context conversationHistory =
     chatStream_loop llm exec (getToolsForRole (userRole context)) context True 0
       (startTurn prompt conversationHistory text)"

section \<open>The remote tool gateway (MCPClient.ts)\<close>

record mcp_server_config =
  cfg_name :: string
  cfg_command :: string
  cfg_args :: "string list"
  cfg_adminOnly :: bool

text \<open>A content block of a \<open>callTool\<close> response, and the response with its serialisation.\<close>

record content_block =
  block_type :: string
  block_text :: "string option"

record call_result =
  result_content :: "content_block list option"
  result_json :: string

text \<open>
  A provider process as the protocol client sees it: what \<open>listTools\<close>, \<open>callTool\<close>
  and \<open>close\<close> answer.  Each may throw.
\<close>

record mcp_client =
  listTools :: "js_error + tool list"
  remoteCall :: "string \<Rightarrow> args \<Rightarrow> js_error + call_result"
  closeSession :: "js_error + unit"

record mcp_connection =
  client :: mcp_client
  config :: mcp_server_config

text \<open>
  The two \<open>Map\<close>s of \<open>MCPManager\<close>, as association lists in insertion order;
  \<open>Map.set\<close> is \<open>AList.update\<close> and \<open>Map.get\<close> is \<open>map_of\<close>.
\<close>

record mcp_manager =
  connections :: "(string \<times> mcp_connection) list"
  toolToServer :: "(string \<times> string) list"

definition newManager :: mcp_manager where
  "newManager = \<lparr>connections = [], toolToServer = []\<rparr>"

text \<open>
  \<open>connect\<close>.  \<open>spawned\<close> is the outcome of spawning the process and of
  \<open>client.connect(transport)\<close>.
\<close>

definition connect ::
  "(js_error + mcp_client) \<Rightarrow> mcp_server_config \<Rightarrow> mcp_manager \<Rightarrow>
   (js_error + mcp_connection) \<times> mcp_manager" where
  "connect spawned cfg m =
     (case spawned of
        Inl e \<Rightarrow> (Inl e, m)
      | Inr c \<Rightarrow>
          (let connection = \<lparr>client = c, config = cfg\<rparr>;
               m1 = m\<lparr>connections := AList.update (cfg_name cfg) connection (connections m)\<rparr>
           in case listTools c of
                Inl e \<Rightarrow> (Inl e, m1)
              | Inr tools \<Rightarrow>
                  (Inr connection,
                   m1\<lparr>toolToServer :=
                        fold (\<lambda>t. AList.update t (cfg_name cfg)) tools (toolToServer m1)\<rparr>)))"

fun collectTools :: "bool \<Rightarrow> (string \<times> mcp_connection) list \<Rightarrow> tool list \<Rightarrow> js_error + tool list" where
  "collectTools isAdmin [] allTools = Inr allTools"
| "collectTools isAdmin ((serverName, connection) # rest) allTools =
     (if cfg_adminOnly (config connection) \<and> \<not> isAdmin
      then collectTools isAdmin rest allTools
      else (case listTools (client connection) of
              Inl e \<Rightarrow> Inl e
            | Inr tools \<Rightarrow> collectTools isAdmin rest (allTools @ tools)))"

definition getAllTools :: "mcp_manager \<Rightarrow> bool \<Rightarrow> js_error + tool list" where
  "getAllTools m isAdmin = collectTools isAdmin (connections m) []"

text \<open>
  The text of a response: the first block of type \<open>text\<close> if it has a \<open>text\<close>
  property, the serialised response otherwise.
\<close>

definition extractText :: "call_result \<Rightarrow> string" where
  "extractText r =
     (case result_content r of
        None \<Rightarrow> result_json r
      | Some blocks \<Rightarrow>
          (case find (\<lambda>c. block_type c = ''text'') blocks of
             None \<Rightarrow> result_json r
           | Some textContent \<Rightarrow>
               (case block_text textContent of
                  Some t \<Rightarrow> t
                | None \<Rightarrow> result_json r)))"

text \<open>
  \<open>callTool\<close>.  \<open>if (!serverName)\<close> also rejects a server whose name is the empty
  string.
\<close>

definition callTool :: "mcp_manager \<Rightarrow> string \<Rightarrow> args \<Rightarrow> js_error + string" where
  "callTool m toolName args =
     (case map_of (toolToServer m) toolName of
        None \<Rightarrow> Inl (Error (''Unknown tool: '' @ toolName))
      | Some serverName \<Rightarrow>
          (if serverName = [] then Inl (Error (''Unknown tool: '' @ toolName))
           else (case map_of (connections m) serverName of
                   None \<Rightarrow> Inl (Error (''Server not connected: '' @ serverName))
                 | Some connection \<Rightarrow>
                     (case remoteCall (client connection) toolName args of
                        Inl e \<Rightarrow> Inl e
                      | Inr r \<Rightarrow> Inr (extractText r)))))"

definition executeToolCall :: "mcp_manager \<Rightarrow> tool_call \<Rightarrow> string" where
  "executeToolCall m toolCall =
     (case callTool m (tc_name toolCall) (tc_arguments toolCall) of
        Inr text \<Rightarrow> text
      | Inl error \<Rightarrow> jsonError (message error))"

text \<open>
  \<open>disconnectAll\<close>: every session is closed and its process killed, a failure is
  logged and swallowed; then both maps are cleared.  The result lists the servers whose
  disconnect was logged as a success, and the manager afterwards.
\<close>

definition disconnectAll :: "mcp_manager \<Rightarrow> string list \<times> mcp_manager" where
  "disconnectAll m =
     (map fst (filter (\<lambda>(serverName, connection). \<not> isl (closeSession (client connection)))
                 (connections m)),
      m\<lparr>connections := [], toolToServer := []\<rparr>)"

text \<open>The failure that the specification expects of a call after a disconnect.\<close>

definition serverNotConnected :: "js_error + string \<Rightarrow> bool" where
  "serverNotConnected r =
     (case r of Inl e \<Rightarrow> startsWith (message e) ''Server not connected'' | Inr t \<Rightarrow> False)"

section \<open>MCPChatService (MCPChatService.ts)\<close>

definition apology :: message where
  "apology =
     \<lparr>role = Assistant,
      content = ''I apologize, but I encountered an issue processing your request. Please try again with a simpler question.'',
      toolCallId = None, toolCalls = None\<rparr>"

type_synonym mcp_exec_fn = "tool_call \<Rightarrow> string"

fun mcpDispatch :: "mcp_exec_fn \<Rightarrow> tool_call list \<Rightarrow> turn \<Rightarrow> turn" where
  "mcpDispatch exec [] st = st"
| "mcpDispatch exec (toolCall # rest) st =
     (let result = exec toolCall
      in mcpDispatch exec rest (push (toolMessage result (tc_id toolCall)) st))"

function mcp_chat_loop ::
  "chat_fn \<Rightarrow> mcp_exec_fn \<Rightarrow> tool list \<Rightarrow> nat \<Rightarrow> turn \<Rightarrow> (js_error + message) \<times> turn" where
  "mcp_chat_loop llm exec tools iterations st =
     (if iterations < MAX_TOOL_ITERATIONS
      then (case llm (llmCalls st) (messages st) tools of
              Inl e \<Rightarrow> (Inl e, called st)
            | Inr response \<Rightarrow>
                (if requested response = [] then (Inr response, called st)
                 else mcp_chat_loop llm exec tools (iterations + 1)
                        (mcpDispatch exec (requested response) (push response (called st)))))
      else (Inr apology, st))"
  by pat_completeness auto
termination
  by (relation "measure (\<lambda>(llm, exec, tools, iterations, st). MAX_TOOL_ITERATIONS - iterations)")
     auto

declare mcp_chat_loop.simps [simp del]

fun mcpDispatchStream :: "mcp_exec_fn \<Rightarrow> tool_call list \<Rightarrow> turn \<Rightarrow> turn" where
  "mcpDispatchStream exec [] st = st"
| "mcpDispatchStream exec (toolCall # rest) st =
     (let result = exec toolCall;
          st1 = yield (ToolResultChunk toolCall result) st
      in mcpDispatchStream exec rest (push (toolMessage result (tc_id toolCall)) st1))"

function mcp_chatStream_loop ::
  "chatStream_fn \<Rightarrow> mcp_exec_fn \<Rightarrow> tool list \<Rightarrow> nat \<Rightarrow> turn \<Rightarrow> (js_error + unit) \<times> turn" where
  "mcp_chatStream_loop llm exec tools iterations st =
     (if iterations < MAX_TOOL_ITERATIONS
      then (case llm (llmCalls st) (messages st) tools of
              Inl e \<Rightarrow> (Inl e, called st)
            | Inr (cs, response) \<Rightarrow>
                (let st1 = yieldAll cs (called st)
                 in if requested response = [] then (Inr (), yield DoneChunk st1)
                    else mcp_chatStream_loop llm exec tools (iterations + 1)
                           (mcpDispatchStream exec (requested response) (push response st1))))
      else (Inr (), yield DoneChunk st))"
  by pat_completeness auto
termination
  by (relation "measure (\<lambda>(llm, exec, tools, iterations, st). MAX_TOOL_ITERATIONS - iterations)")
     auto

declare mcp_chatStream_loop.simps [simp del]

text \<open>
  \<open>mcp\<close> is the outcome of \<open>ensureMCPConnected()\<close>; it and \<open>getAllTools\<close> may throw
  before the transcript is built.
\<close>

definition noTurn :: turn where
  "noTurn = \<lparr>messages = [], trace = []\<rparr>"

definition MCPChatService_chat ::
  "chat_fn \<Rightarrow> (js_error + mcp_manager) \<Rightarrow> string \<Rightarrow> string \<Rightarrow> chat_context \<Rightarrow> message list \<Rightarrow>
   (js_error + message) \<times> turn" where
  "MCPChatService_chat llm mcp prompt text context conversationHistory =
     (case mcp of
        Inl e \<Rightarrow> (Inl e, noTurn)
      | Inr m \<Rightarrow>
          (case getAllTools m (userRole context = Admin) of
             Inl e \<Rightarrow> (Inl e, noTurn)
           | Inr tools \<Rightarrow>
               mcp_chat_loop llm (executeToolCall m) tools 0
                 (startTurn prompt conversationHistory text)))"

definition MCPChatService_chatStream ::
  "chatStream_fn \<Rightarrow> (js_error + mcp_manager) \<Rightarrow> string \<Rightarrow> string \<Rightarrow> chat_context \<Rightarrow>
   message list \<Rightarrow> (js_error + unit) \<times> turn" where
  "MCPChatService_chatStream llm mcp prompt text context conversationHistory =
     (case mcp of
        Inl e \<Rightarrow> (Inl e, noTurn)
      | Inr m \<Rightarrow>
          (case getAllTools m (userRole context = Admin) of
             Inl e \<Rightarrow> (Inl e, noTurn)
           | Inr tools \<Rightarrow>
               mcp_chatStream_loop llm (executeToolCall m) tools 0
                 (startTurn prompt conversationHistory text)))"

section \<open>The vector store and the retrieval engine (VectorStore.ts, RAGQueryEngine.ts)\<close>

type_synonym metadata = "(string \<times> json) list"

record vector_document =
  doc_id :: string
  doc_content :: string
  doc_embedding :: "number list"
  doc_metadata :: metadata

record search_result =
  sr_id :: string
  sr_content :: string
  sr_metadata :: metadata
  sr_score :: number

text \<open>
  The \<open>WHERE\<close> clause built from the filter: every pair of it must be a pair of the
  row's metadata.
\<close>

definition matchesFilter :: "metadata \<Rightarrow> vector_document \<Rightarrow> bool" where
  "matchesFilter flt row = list_all (\<lambda>(k, v). map_of (doc_metadata row) k = Some v) flt"

text \<open>
  \<open>Array.prototype.sort\<close> with a comparison function.  The sort is stable, and an
  element \<open>x\<close> goes behind \<open>y\<close> exactly when \<open>cmp x y > 0\<close>, so for a comparison
  function that orders the elements consistently the result is that of a stable
  insertion sort.  (Where it does not, as with a \<open>NaN\<close> difference, the language
  leaves the order to the implementation.)
\<close>

fun insertSorted :: "('a \<Rightarrow> 'a \<Rightarrow> number) \<Rightarrow> 'a \<Rightarrow> 'a list \<Rightarrow> 'a list" where
  "insertSorted cmp x [] = [x]"
| "insertSorted cmp x (y # ys) =
     (if js_lt (Fin 0) (cmp x y) then y # insertSorted cmp x ys else x # y # ys)"

definition Array_sort :: "('a \<Rightarrow> 'a \<Rightarrow> number) \<Rightarrow> 'a list \<Rightarrow> 'a list" where
  "Array_sort cmp xs = foldr (insertSorted cmp) xs []"

text \<open>
  \<open>VectorStore.search\<close> over the rows of the table: an optional filter, the score of
  every row, the sort with \<open>(a, b) => b.score - a.score\<close>, the first \<open>topK\<close>.
\<close>

definition VectorStore_search ::
  "vector_document list \<Rightarrow> number list \<Rightarrow> nat \<Rightarrow> metadata option \<Rightarrow> search_result list" where
  "VectorStore_search table queryEmbedding topK flt =
     (let rows = (case flt of
                    None \<Rightarrow> table
                  | Some f \<Rightarrow> if f \<noteq> [] then filter (matchesFilter f) table else table);
          results = map (\<lambda>row. \<lparr>sr_id = doc_id row, sr_content = doc_content row,
                                 sr_metadata = doc_metadata row,
                                 sr_score = VectorStore_cosineSimilarity
                                              queryEmbedding (doc_embedding row)\<rparr>) rows
      in take topK (Array_sort (\<lambda>a b. js_sub (sr_score b) (sr_score a)) results))"

record rag_result =
  rag_query :: string
  rag_results :: "search_result list"
  rag_context :: string

fun joinWith :: "string \<Rightarrow> string list \<Rightarrow> string" where
  "joinWith sep [] = []"
| "joinWith sep [x] = x"
| "joinWith sep (x # y # ys) = x @ sep @ joinWith sep (y # ys)"

text \<open>
  \<open>buildContext\<close>.  \<open>entry i r\<close> is the text of the \<open>i\<close>-th product of the list (name,
  category, price, description and relevance, formatted with \<open>toFixed\<close>).
\<close>

definition buildContext ::
  "(nat \<Rightarrow> search_result \<Rightarrow> string) \<Rightarrow> string \<Rightarrow> search_result list \<Rightarrow> string" where
  "buildContext entry query results =
     (if length results = 0
      then ''No relevant products found for: '' @ [dq] @ query @ [dq]
      else ''Found '' @ showNat (length results) @ '' relevant products for '' @ [dq] @ query
           @ [dq] @ '':'' @ [CHR 0x0A, CHR 0x0A]
           @ joinWith [CHR 0x0A, CHR 0x0A] (map (\<lambda>(i, r). entry (i + 1) r)
                                                (zip [0..<length results] results)))"

text \<open>
  \<open>RAGQueryEngine.search\<close>.  \<open>embedQuery\<close> is the embedding service's call, which may
  throw; \<open>minScore\<close> is the field set by the constructor; the filter is
  \<open>r.score >= this.minScore\<close>.
\<close>

definition RAGQueryEngine_search ::
  "(string \<Rightarrow> js_error + number list) \<Rightarrow> (nat \<Rightarrow> search_result \<Rightarrow> string) \<Rightarrow>
   vector_document list \<Rightarrow> number \<Rightarrow> string \<Rightarrow> nat \<Rightarrow> metadata option \<Rightarrow> js_error + rag_result" where
  "RAGQueryEngine_search embedQuery entry table minScore query topK flt =
     (case embedQuery query of
        Inl e \<Rightarrow> Inl e
      | Inr queryEmbedding \<Rightarrow>
          (let results = VectorStore_search table queryEmbedding topK flt;
               filteredResults = filter (\<lambda>r. js_ge (sr_score r) minScore) results;
               context = buildContext entry query filteredResults
           in Inr \<lparr>rag_query = query, rag_results = filteredResults, rag_context = context\<rparr>))"

definition defaultMinScore :: number where
  "defaultMinScore = Fin 0.5"


section \<open>The events of the dispatch loops\<close>

text \<open>What each dispatch loop appends to the log of the turn, as a list.\<close>

fun dispatchEvents :: "exec_fn \<Rightarrow> chat_context \<Rightarrow> tool_call list \<Rightarrow> event list" where
  "dispatchEvents exec context [] = []"
| "dispatchEvents exec context (toolCall # rest) =
     Push (toolMessage (tr_content (exec (tc_name toolCall) (tc_arguments toolCall) context))
             (tc_id toolCall))
     # dispatchEvents exec context rest"

fun dispatchStreamEvents :: "exec_fn \<Rightarrow> chat_context \<Rightarrow> tool_call list \<Rightarrow> event list" where
  "dispatchStreamEvents exec context [] = []"
| "dispatchStreamEvents exec context (toolCall # rest) =
     (let result = exec (tc_name toolCall) (tc_arguments toolCall) context
      in [Yield (ToolCallChunk toolCall)] @
         (case tr_chart result of Some c \<Rightarrow> [Yield (ChartChunk c)] | None \<Rightarrow> []) @
         [Push (toolMessage (tr_content result) (tc_id toolCall))] @
         dispatchStreamEvents exec context rest)"

fun mcpDispatchEvents :: "mcp_exec_fn \<Rightarrow> tool_call list \<Rightarrow> event list" where
  "mcpDispatchEvents exec [] = []"
| "mcpDispatchEvents exec (toolCall # rest) =
     Push (toolMessage (exec toolCall) (tc_id toolCall)) # mcpDispatchEvents exec rest"

fun mcpDispatchStreamEvents :: "mcp_exec_fn \<Rightarrow> tool_call list \<Rightarrow> event list" where
  "mcpDispatchStreamEvents exec [] = []"
| "mcpDispatchStreamEvents exec (toolCall # rest) =
     [Yield (ToolResultChunk toolCall (exec toolCall)),
      Push (toolMessage (exec toolCall) (tc_id toolCall))] @
     mcpDispatchStreamEvents exec rest"

section \<open>Properties of a chunk sequence and of a log\<close>

text \<open>A terminal chunk is \<open>done\<close> or \<open>error\<close>.\<close>

definition isTerminal :: "stream_chunk \<Rightarrow> bool" where
  "isTerminal c = (case c of DoneChunk \<Rightarrow> True | ErrorChunk e \<Rightarrow> True | _ \<Rightarrow> False)"

text \<open>
  The specification's streaming contract: the sequence holds exactly one terminal
  chunk, and that chunk is its last element.
\<close>

definition oneTerminalLast :: "stream_chunk list \<Rightarrow> bool" where
  "oneTerminalLast cs =
     (cs \<noteq> [] \<and> isTerminal (last cs) \<and> length (filter isTerminal cs) = 1)"

fun toolCallChunks :: "stream_chunk list \<Rightarrow> tool_call list" where
  "toolCallChunks [] = []"
| "toolCallChunks (ToolCallChunk tc # cs) = tc # toolCallChunks cs"
| "toolCallChunks (c # cs) = toolCallChunks cs"

text \<open>
  The tool-call discipline of a log, checked from left to right with the multiset of
  tool-call ids that were announced by a \<open>tool_call\<close> chunk and are not answered yet:
  a \<open>tool_call\<close> chunk adds its id; a tool-role message appended to the transcript must
  carry an id that is pending, and answers one announcement of it; a provider call may
  only be issued when nothing is pending.  The result is the multiset pending at the
  end, or \<open>None\<close> when the discipline is broken.
\<close>

fun pendingAfter :: "string multiset \<Rightarrow> event list \<Rightarrow> string multiset option" where
  "pendingAfter p [] = Some p"
| "pendingAfter p (LLMCall # es) = (if p = {#} then pendingAfter p es else None)"
| "pendingAfter p (Yield c # es) =
     (case c of
        ToolCallChunk tc \<Rightarrow> pendingAfter (add_mset (tc_id tc) p) es
      | _ \<Rightarrow> pendingAfter p es)"
| "pendingAfter p (Push m # es) =
     (if role m = Tool
      then (case toolCallId m of
              Some i \<Rightarrow> (if i \<in># p then pendingAfter (p - {#i#}) es else None)
            | None \<Rightarrow> None)
      else pendingAfter p es)"

text \<open>
  The ids announced by the \<open>tool_call\<close> chunks of a log, and the ids carried by the
  tool-role messages it appends.
\<close>

fun announcedIds :: "event list \<Rightarrow> string list" where
  "announcedIds [] = []"
| "announcedIds (Yield (ToolCallChunk tc) # es) = tc_id tc # announcedIds es"
| "announcedIds (e # es) = announcedIds es"

fun answeredIds :: "event list \<Rightarrow> string list" where
  "answeredIds [] = []"
| "answeredIds (Push m # es) =
     (if role m = Tool
      then (case toolCallId m of Some i \<Rightarrow> i # answeredIds es | None \<Rightarrow> answeredIds es)
      else answeredIds es)"
| "answeredIds (e # es) = answeredIds es"

text \<open>
  What the orchestrators take for granted about a provider's \<open>chatStream\<close>: the
  message returned has the role \<open>assistant\<close>, and the \<open>tool_call\<close> chunks that
  \<open>onChunk\<close> received are the tool calls of the message returned, in order.
\<close>

definition assistantReplies :: "chatStream_fn \<Rightarrow> bool" where
  "assistantReplies llm =
     (\<forall>n ms ts cs r. llm n ms ts = Inr (cs, r) \<longrightarrow> role r = Assistant)"

definition announcesCalls :: "chatStream_fn \<Rightarrow> bool" where
  "announcesCalls llm =
     (\<forall>n ms ts cs r. llm n ms ts = Inr (cs, r) \<longrightarrow> toolCallChunks cs = requested r)"

section \<open>The Gemini adapter's streaming call (gemini-provider.ts, chatStream)\<close>

text \<open>
  A chunk of the backend's stream: \<open>chunk.text()\<close> and \<open>chunk.functionCalls()\<close>.
\<close>

record gemini_chunk =
  chunk_text :: string
  chunk_functionCalls :: "(string \<times> args) list option"

text \<open>
  The inner \<open>for (const fc of functionCalls)\<close> loop.  \<open>now k\<close> is the reading of
  \<open>Date.now()\<close> when the tool call with index \<open>k\<close> is built.
\<close>

fun addCalls ::
  "(nat \<Rightarrow> nat) \<Rightarrow> (string \<times> args) list \<Rightarrow> tool_call list \<times> stream_chunk list \<Rightarrow>
   tool_call list \<times> stream_chunk list" where
  "addCalls now [] acc = acc"
| "addCalls now ((fc_name, fc_args) # fcs) (calls, emitted) =
     (let toolCall =
            \<lparr>tc_id = ''gemini_'' @ showNat (now (length calls)) @ ''_'' @ showNat (length calls),
             tc_name = fc_name, tc_arguments = fc_args\<rparr>
      in addCalls now fcs (calls @ [toolCall], emitted @ [ToolCallChunk toolCall]))"

text \<open>The \<open>for await (const chunk of result.stream)\<close> loop.\<close>

fun consume ::
  "(nat \<Rightarrow> nat) \<Rightarrow> gemini_chunk list \<Rightarrow> string \<times> tool_call list \<times> stream_chunk list \<Rightarrow>
   string \<times> tool_call list \<times> stream_chunk list" where
  "consume now [] acc = acc"
| "consume now (chunk # rest) (fullContent, calls, emitted) =
     (let text = chunk_text chunk;
          (fullContent1, emitted1) =
            (if text \<noteq> [] then (fullContent @ text, emitted @ [TextChunk text])
             else (fullContent, emitted));
          (calls2, emitted2) =
            (case chunk_functionCalls chunk of
               None \<Rightarrow> (calls, emitted1)
             | Some fcs \<Rightarrow> addCalls now fcs (calls, emitted1))
      in consume now rest (fullContent1, calls2, emitted2))"

text \<open>
  What \<open>sendMessageStream\<close> delivers in one attempt: the chunks that the iteration
  over \<open>result.stream\<close> yields and, when the stream breaks off after them, the error
  that the iteration throws.
\<close>

record gemini_stream =
  delivered :: "gemini_chunk list"
  failure :: "js_error option"

text \<open>
  One attempt of the operation.  \<open>outcome\<close> is what \<open>sendMessageStream\<close> does in this
  attempt: it fails, or it delivers a stream.  \<open>sink\<close> holds the chunks that the
  caller's \<open>onChunk\<close> has received before the attempt; the attempt adds to them as it
  goes, so the chunks of a stream that breaks off have been handed over when the
  error is thrown.  \<open>fullContent\<close> and \<open>toolCalls\<close> are local to the attempt.
\<close>

definition streamOnce ::
  "(nat \<Rightarrow> nat) \<Rightarrow> (js_error + gemini_stream) \<Rightarrow> stream_chunk list \<Rightarrow>
   stream_chunk list \<times> (js_error + message)" where
  "streamOnce now outcome sink =
     (case outcome of
        Inl e \<Rightarrow> (sink, Inl e)
      | Inr stream \<Rightarrow>
          (let (fullContent, calls, emitted) = consume now (delivered stream) ([], [], sink)
           in case failure stream of
                Some e \<Rightarrow> (emitted, Inl e)
              | None \<Rightarrow>
                  (emitted @ [DoneChunk],
                   Inr \<lparr>role = Assistant, content = fullContent, toolCallId = None,
                        toolCalls = (if calls \<noteq> [] then Some calls else None)\<rparr>)))"

text \<open>
  \<open>GeminiProvider.chatStream\<close>: the operation under \<open>withRetry\<close>.  \<open>backend attempt\<close>
  is what \<open>sendMessageStream\<close> does in that attempt and \<open>now attempt k\<close> the reading of
  the clock when that attempt builds its tool call number \<open>k\<close>.  The result carries
  the chunks that \<open>onChunk\<close> has received in the end.
\<close>

definition GeminiProvider_chatStream ::
  "(nat \<Rightarrow> nat \<Rightarrow> nat) \<Rightarrow> (nat \<Rightarrow> js_error + gemini_stream) \<Rightarrow> stream_chunk list \<Rightarrow>
   int list \<times> stream_chunk list \<times> (js_error + message)" where
  "GeminiProvider_chatStream now backend sink =
     withRetry (\<lambda>attempt. streamOnce (now attempt) (backend attempt)) sink"

text \<open>
  The adapter as the orchestrators call it, over a backend that sees every call: the
  callback pushes to an array that is empty when the call starts and that is read
  when the call has returned.
\<close>

definition geminiStream ::
  "(nat \<Rightarrow> nat \<Rightarrow> nat) \<Rightarrow>
   (nat \<Rightarrow> message list \<Rightarrow> tool list \<Rightarrow> nat \<Rightarrow> js_error + gemini_stream) \<Rightarrow> chatStream_fn" where
  "geminiStream now backend n ms ts =
     (case GeminiProvider_chatStream now (backend n ms ts) [] of
        (slept, received, outcome) \<Rightarrow>
          (case outcome of Inl e \<Rightarrow> Inl e | Inr response \<Rightarrow> Inr (received, response)))"


section \<open>The OpenAI adapter's streaming call (openai-provider.ts, chatStream)\<close>

text \<open>
  A tool-call fragment of a streamed delta and a chunk of the stream.  The code tests
  each optional string for truthiness, which an absent property and the empty string
  fail alike, so an absent string is modelled as the empty one; an absent
  \<open>tool_calls\<close> array is the empty list.
\<close>

record tool_call_delta =
  delta_index :: nat
  delta_id :: string
  delta_name :: string
  delta_arguments :: string

record openai_chunk =
  delta_content :: string
  delta_tool_calls :: "tool_call_delta list"

record call_buffer =
  buf_id :: string
  buf_name :: string
  buf_arguments :: string

definition emptyBuffer :: call_buffer where
  "emptyBuffer = \<lparr>buf_id = [], buf_name = [], buf_arguments = []\<rparr>"

text \<open>The body of \<open>for (const tc of delta.tool_calls)\<close> on the \<open>Map\<close> of buffers.\<close>

definition applyDelta ::
  "tool_call_delta \<Rightarrow> (nat \<times> call_buffer) list \<Rightarrow> (nat \<times> call_buffer) list" where
  "applyDelta tc buffers =
     (let buffers1 = (if map_of buffers (delta_index tc) = None
                      then AList.update (delta_index tc) emptyBuffer buffers
                      else buffers);
          buffer = (case map_of buffers1 (delta_index tc) of
                      Some b \<Rightarrow> b
                    | None \<Rightarrow> emptyBuffer);
          buffer1 = (if delta_id tc \<noteq> [] then buffer\<lparr>buf_id := delta_id tc\<rparr> else buffer);
          buffer2 = (if delta_name tc \<noteq> [] then buffer1\<lparr>buf_name := delta_name tc\<rparr>
                     else buffer1);
          buffer3 = (if delta_arguments tc \<noteq> []
                     then buffer2\<lparr>buf_arguments := buf_arguments buffer2 @ delta_arguments tc\<rparr>
                     else buffer2)
      in AList.update (delta_index tc) buffer3 buffers1)"

text \<open>The \<open>for await (const chunk of stream)\<close> loop.\<close>

fun consumeDeltas ::
  "openai_chunk list \<Rightarrow> string \<times> stream_chunk list \<times> (nat \<times> call_buffer) list \<Rightarrow>
   string \<times> stream_chunk list \<times> (nat \<times> call_buffer) list" where
  "consumeDeltas [] acc = acc"
| "consumeDeltas (chunk # rest) (fullContent, emitted, buffers) =
     (let (fullContent1, emitted1) =
            (if delta_content chunk \<noteq> []
             then (fullContent @ delta_content chunk,
                   emitted @ [TextChunk (delta_content chunk)])
             else (fullContent, emitted));
          buffers1 = fold applyDelta (delta_tool_calls chunk) buffers
      in consumeDeltas rest (fullContent1, emitted1, buffers1))"

text \<open>
  The loop over the completed buffers.  \<open>parseArgs\<close> is \<open>JSON.parse\<close>, which
  throws on text that is not JSON.
\<close>

fun finishCalls ::
  "(string \<Rightarrow> js_error + args) \<Rightarrow> call_buffer list \<Rightarrow> tool_call list \<times> stream_chunk list \<Rightarrow>
   js_error + (tool_call list \<times> stream_chunk list)" where
  "finishCalls parseArgs [] acc = Inr acc"
| "finishCalls parseArgs (buffer # rest) (calls, emitted) =
     (if buf_id buffer \<noteq> [] \<and> buf_name buffer \<noteq> []
      then (case (if buf_arguments buffer \<noteq> [] then parseArgs (buf_arguments buffer)
                  else Inr []) of
              Inl e \<Rightarrow> Inl e
            | Inr a \<Rightarrow>
                (let toolCall = \<lparr>tc_id = buf_id buffer, tc_name = buf_name buffer,
                                 tc_arguments = a\<rparr>
                 in finishCalls parseArgs rest
                      (calls @ [toolCall], emitted @ [ToolCallChunk toolCall])))
      else finishCalls parseArgs rest (calls, emitted))"

text \<open>
  \<open>OpenAIProvider.chatStream\<close>.  \<open>request\<close> is what
  \<open>chat.completions.create\<close> does: it fails, or it delivers a stream.
\<close>

definition OpenAIProvider_chatStream ::
  "(string \<Rightarrow> js_error + args) \<Rightarrow> (js_error + openai_chunk list) \<Rightarrow>
   js_error + (stream_chunk list \<times> message)" where
  "OpenAIProvider_chatStream parseArgs request =
     (case request of
        Inl e \<Rightarrow> Inl e
      | Inr stream \<Rightarrow>
          (let (fullContent, emitted, buffers) = consumeDeltas stream ([], [], [])
           in case finishCalls parseArgs (map snd buffers) ([], emitted) of
                Inl e \<Rightarrow> Inl e
              | Inr (calls, emitted1) \<Rightarrow>
                  Inr (emitted1 @ [DoneChunk],
                       \<lparr>role = Assistant, content = fullContent, toolCallId = None,
                        toolCalls = (if calls \<noteq> [] then Some calls else None)\<rparr>)))"

definition openaiStream ::
  "(string \<Rightarrow> js_error + args) \<Rightarrow>
   (nat \<Rightarrow> message list \<Rightarrow> tool list \<Rightarrow> js_error + openai_chunk list) \<Rightarrow> chatStream_fn" where
  "openaiStream parseArgs backend n ms ts = OpenAIProvider_chatStream parseArgs (backend n ms ts)"

section \<open>Concrete instances: a registry, a gateway and providers\<close>

definition stubHandlers :: handlers where
  "stubHandlers =
     \<lparr>semanticSearchProducts = (\<lambda>a. Inr \<lparr>rendered = ''[]'', chartField = None\<rparr>),
      searchProducts = (\<lambda>a. Inr \<lparr>rendered = ''[]'', chartField = None\<rparr>),
      getProductDetails = (\<lambda>p. Inl (Error ''Product not found'')),
      getMyOrders = (\<lambda>u a. Inr \<lparr>rendered = ''[]'', chartField = None\<rparr>),
      getOrderDetails = (\<lambda>u p. Inl (Error ''Order not found'')),
      getMyCart = (\<lambda>u. Inr \<lparr>rendered = ''[]'', chartField = None\<rparr>),
      getMySpending = (\<lambda>u d. Inr \<lparr>rendered = ''{}'', chartField = Some ''pie''\<rparr>),
      getSalesDashboard = Inr \<lparr>rendered = ''{}'', chartField = None\<rparr>,
      getSalesAnalytics = (\<lambda>d c. Inr \<lparr>rendered = ''{}'', chartField = Some ''line''\<rparr>),
      getTopProducts = (\<lambda>l c. Inr \<lparr>rendered = ''{}'', chartField = Some ''bar''\<rparr>),
      getInventoryStatus = (\<lambda>t. Inr \<lparr>rendered = ''[]'', chartField = None\<rparr>),
      getRevenueByCategory = (\<lambda>c. Inr \<lparr>rendered = ''{}'', chartField = Some ''pie''\<rparr>)\<rparr>"

text \<open>A caller, a provider process serving two tools, and the gateway connected to it.\<close>

definition customer :: chat_context where
  "customer = \<lparr>userId = 7, userRole = Customer, userName = ''User''\<rparr>"

definition productsConfig :: mcp_server_config where
  "productsConfig =
     \<lparr>cfg_name = ''products'', cfg_command = ''bun'',
      cfg_args = [''./mcp-servers/products/src/index.ts''], cfg_adminOnly = False\<rparr>"

definition productsClient :: mcp_client where
  "productsClient =
     \<lparr>listTools = Inr [''search_products'', ''get_product_details''],
      remoteCall = (\<lambda>toolName args.
         Inr \<lparr>result_content = Some [\<lparr>block_type = ''text'', block_text = Some ''[]''\<rparr>],
              result_json = ''{}''\<rparr>),
      closeSession = Inr ()\<rparr>"

definition connectedManager :: mcp_manager where
  "connectedManager = snd (connect (Inr productsClient) productsConfig newManager)"

text \<open>
  A model that asks for one more tool call in every response, as a non-streaming and
  as a streaming provider (the latter announces the call and ends with \<open>done\<close>, as both
  adapters do); a model that answers at once; and a backend that is down.
\<close>

definition greedyCall :: "nat \<Rightarrow> tool_call" where
  "greedyCall n = \<lparr>tc_id = ''call_'' @ showNat n, tc_name = ''search_products'', tc_arguments = []\<rparr>"

definition greedyReply :: "nat \<Rightarrow> message" where
  "greedyReply n =
     \<lparr>role = Assistant, content = [], toolCallId = None, toolCalls = Some [greedyCall n]\<rparr>"

definition greedyChat :: chat_fn where
  "greedyChat n ms ts = Inr (greedyReply n)"

definition greedyStream :: chatStream_fn where
  "greedyStream n ms ts = Inr ([ToolCallChunk (greedyCall n), DoneChunk], greedyReply n)"

definition directStream :: chatStream_fn where
  "directStream n ms ts =
     Inr ([TextChunk ''Hello'', DoneChunk],
          \<lparr>role = Assistant, content = ''Hello'', toolCallId = None, toolCalls = None\<rparr>)"

definition downStream :: chatStream_fn where
  "downStream n ms ts = Inl (Error ''fetch failed'')"

text \<open>
  A Gemini backend whose first stream announces a function call and then breaks off
  with a rate-limit error, delivers the same call in full when the adapter tries again,
  and answers in text at the next call of the turn; a clock that has advanced by the
  second attempt; the tool calls that the two attempts build; and the streamed turn of
  \<open>MCPChatService\<close> over this backend.
\<close>

definition rateLimited :: js_error where
  "rateLimited = \<lparr>status = Some 429, message = ''Too Many Requests''\<rparr>"

definition searchChunk :: gemini_chunk where
  "searchChunk = \<lparr>chunk_text = [], chunk_functionCalls = Some [(''search_products'', [])]\<rparr>"

definition answerChunk :: gemini_chunk where
  "answerChunk = \<lparr>chunk_text = ''Nothing found'', chunk_functionCalls = None\<rparr>"

definition retriedBackend ::
  "nat \<Rightarrow> message list \<Rightarrow> tool list \<Rightarrow> nat \<Rightarrow> js_error + gemini_stream" where
  "retriedBackend n ms ts attempt =
     (if n = 0
      then Inr \<lparr>delivered = [searchChunk],
                failure = (if attempt = 0 then Some rateLimited else None)\<rparr>
      else Inr \<lparr>delivered = [answerChunk], failure = None\<rparr>)"

definition risingClock :: "nat \<Rightarrow> nat \<Rightarrow> nat" where
  "risingClock attempt k = 1000 + 1500 * attempt"

definition staleCall :: tool_call where
  "staleCall = \<lparr>tc_id = ''gemini_1000_0'', tc_name = ''search_products'', tc_arguments = []\<rparr>"

definition freshCall :: tool_call where
  "freshCall = \<lparr>tc_id = ''gemini_2500_0'', tc_name = ''search_products'', tc_arguments = []\<rparr>"

definition retriedTurn :: turn where
  "retriedTurn =
     snd (MCPChatService_chatStream (geminiStream risingClock retriedBackend)
            (Inr connectedManager) ''prompt'' ''find me a lamp'' customer [])"

text \<open>A table of two products, a query embedding and a plain entry text.\<close>

definition smallTable :: "vector_document list" where
  "smallTable =
     [\<lparr>doc_id = ''product-1'', doc_content = ''Name: Desk lamp'', doc_embedding = [Fin 0, Fin 1],
       doc_metadata = [(''category'', ''Home'')]\<rparr>,
      \<lparr>doc_id = ''product-2'', doc_content = ''Name: Garden hose'', doc_embedding = [Fin 5, Fin 12],
       doc_metadata = [(''category'', ''Garden'')]\<rparr>]"

definition laptopEmbedding :: "string \<Rightarrow> js_error + number list" where
  "laptopEmbedding q = Inr [Fin 1, Fin 0]"

definition plainEntry :: "nat \<Rightarrow> search_result \<Rightarrow> string" where
  "plainEntry i r = showNat i @ ''. '' @ sr_id r"




section \<open>Doubles: what rounding keeps\<close>

lemma roundToDouble_0 [simp]: "roundToDouble 0 = Fin 0"
  by (simp add: roundToDouble_def)

lemma js_strictEquals_0 [simp]: "js_strictEquals d (Fin 0) \<longleftrightarrow> d = Fin 0"
  by (auto simp: js_strictEquals_def)

lemma isFinite_iff: "isFinite n \<longleftrightarrow> (\<exists>z. n = Fin z)"
  by (cases n) (simp_all add: isFinite_def)

lemma pow2_pos: "0 < pow2 k"
  by (simp add: pow2_def)

lemma pow2_mono: "j \<le> k \<Longrightarrow> pow2 j \<le> pow2 k"
proof -
  assume jk: "j \<le> k"
  have p: "pow2 m = 2 powr (real_of_int m)" for m
    by (simp add: pow2_def powr_realpow[symmetric] powr_minus divide_inverse)
  show ?thesis using jk by (simp add: p)
qed

lemma roundTiesToEven_nonneg: "0 \<le> r \<Longrightarrow> 0 \<le> roundTiesToEven r"
  by (auto simp: roundTiesToEven_def Let_def)

lemma roundTiesToEven_le: "of_int (roundTiesToEven r) \<le> r + 1 / 2"
  unfolding roundTiesToEven_def Let_def by (auto; linarith)

lemma expUp_le: "expUp n x \<le> int n"
  by (induction n arbitrary: x) auto

lemma expDown_le: "expDown n x \<le> 0"
proof (induction n arbitrary: x)
  case 0
  show ?case by simp
next
  case (Suc n)
  show ?case using Suc[of "2 * x"] by simp
qed

lemma exponent_le: "exponent x \<le> 1023"
  using expUp_le[of 1023 "\<bar>x\<bar>"] expDown_le[of 1022 "\<bar>x\<bar>"] by (simp add: exponent_def)

lemma quantum_le: "pow2 (exponent x - 52) \<le> 2 ^ 971"
proof -
  have "pow2 (exponent x - 52) \<le> pow2 971"
    by (rule pow2_mono) (use exponent_le[of x] in simp)
  then show ?thesis by (simp add: pow2_def)
qed

lemma roundToDouble_finite: "\<bar>x\<bar> < 2 ^ 1024 - 2 ^ 970 \<Longrightarrow> isFinite (roundToDouble x)"
  by (simp add: roundToDouble_def Let_def isFinite_def)

lemma roundToDouble_overflow: "2 ^ 1024 - 2 ^ 970 \<le> x \<Longrightarrow> roundToDouble x = PosInfinity"
  by (simp add: roundToDouble_def infinity_def)

lemma nonnegResult_Fin: "nonnegResult (Fin y) \<longleftrightarrow> 0 \<le> y \<and> y \<le> 2 ^ 1024"
  by (simp add: nonnegResult_def)

text \<open>A non-negative real rounds to a non-negative double or to \<open>Infinity\<close>.\<close>

lemma roundToDouble_nonneg:
  assumes "0 \<le> x"
  shows "nonnegResult (roundToDouble x)"
proof (cases "x = 0")
  case True
  then show ?thesis by (simp add: nonnegResult_def)
next
  case nz: False
  show ?thesis
  proof (cases "2 ^ 1024 - 2 ^ 970 \<le> \<bar>x\<bar>")
    case True
    with nz assms show ?thesis
      by (simp add: roundToDouble_def nonnegResult_def infinity_def)
  next
    case False
    define q where "q = pow2 (exponent x - 52)"
    define n where "n = roundTiesToEven (x / q)"
    have q: "0 < q" "q \<le> 2 ^ 971"
      unfolding q_def by (rule pow2_pos, rule quantum_le)
    have r: "roundToDouble x = Fin (of_int n * q)"
      using nz False by (simp add: roundToDouble_def q_def n_def Let_def)
    have "0 \<le> x / q" using assms q by simp
    then have n0: "0 \<le> n" unfolding n_def by (rule roundTiesToEven_nonneg)
    have "of_int n \<le> x / q + 1 / 2" unfolding n_def by (rule roundTiesToEven_le)
    then have "of_int n * q \<le> (x / q + 1 / 2) * q"
      using q by (simp add: mult_right_mono)
    also have "\<dots> = x + q / 2" using q by (simp add: field_simps)
    also have "\<dots> \<le> 2 ^ 1024" using False q assms by simp
    finally have "of_int n * q \<le> 2 ^ 1024" .
    moreover have "0 \<le> of_int n * q" using n0 q by simp
    ultimately show ?thesis by (simp add: r nonnegResult_def)
  qed
qed

lemma nonnegResult_add: "nonnegResult a \<Longrightarrow> nonnegResult b \<Longrightarrow> nonnegResult (js_add a b)"
proof (cases a; cases b)
  fix x y
  assume "nonnegResult a" "nonnegResult b" "a = Fin x" "b = Fin y"
  then show "nonnegResult (js_add a b)"
    using roundToDouble_nonneg[of "x + y"] by (simp add: nonnegResult_Fin)
qed (simp_all add: nonnegResult_def)

lemma nonnegResult_square: "nonnegResult (js_mul x x)"
proof (cases x)
  case (Fin r)
  then show ?thesis using roundToDouble_nonneg[of "r * r"] by simp
qed (simp_all add: nonnegResult_def)

text \<open>Below half of the least subnormal, a real rounds to zero.\<close>

lemma expDown_small: "x * 2 ^ n < 1 \<Longrightarrow> expDown n x = - int n"
proof (induction n arbitrary: x)
  case 0
  show ?case by simp
next
  case (Suc n)
  from Suc.prems have a: "(2 * x) * 2 ^ n < 1" by (simp add: mult.assoc mult.left_commute)
  have "x < 1"
  proof (rule ccontr)
    assume "\<not> x < 1"
    then have "1 \<le> x" by simp
    moreover have "(1::real) \<le> 2 ^ Suc n" by (rule one_le_power) simp
    ultimately have "1 * 1 \<le> x * 2 ^ Suc n" by (intro mult_mono) simp_all
    with Suc.prems show False by simp
  qed
  then show ?case using Suc.IH[OF a] by simp
qed

lemma roundToDouble_underflow:
  assumes "\<bar>x\<bar> < 1 / 2 ^ 1075"
  shows "roundToDouble x = Fin 0"
proof (cases "x = 0")
  case True
  then show ?thesis by simp
next
  case False
  have small: "\<bar>x\<bar> * 2 ^ 1075 < 1"
    using assms by (simp add: field_simps)
  have "\<bar>x\<bar> * 2 ^ 1022 \<le> \<bar>x\<bar> * 2 ^ 1075"
    by (intro mult_left_mono power_increasing) simp_all
  with small have s2: "\<bar>x\<bar> * 2 ^ 1022 < 1" by linarith
  then have lt1: "\<bar>x\<bar> < 1"
  proof -
    have "\<bar>x\<bar> * 1 \<le> \<bar>x\<bar> * 2 ^ 1022" by (intro mult_left_mono one_le_power) simp_all
    with s2 show ?thesis by simp
  qed
  have e: "exponent x = - 1022"
    using expDown_small[OF s2] lt1 by (simp add: exponent_def)
  define r where "r = x * 2 ^ 1074"
  have rabs: "\<bar>r\<bar> * 2 < 1"
  proof -
    have "\<bar>r\<bar> * 2 = \<bar>x\<bar> * 2 ^ 1075" by (simp add: r_def abs_mult)
    with small show ?thesis by simp
  qed
  have q: "x / pow2 (exponent x - 52) = r"
    by (simp add: e pow2_def r_def)
  have "roundTiesToEven r = 0"
  proof (cases "0 \<le> r")
    case True
    with rabs have "\<lfloor>r\<rfloor> = 0" by (intro floor_unique) simp_all
    with rabs True show ?thesis by (simp add: roundTiesToEven_def)
  next
    case False
    with rabs have "\<lfloor>r\<rfloor> = - 1" by (intro floor_unique) simp_all
    with rabs False show ?thesis by (simp add: roundTiesToEven_def)
  qed
  moreover have "\<not> 2 ^ 1024 - 2 ^ 970 \<le> \<bar>x\<bar>"
    using lt1 by simp
  ultimately show ?thesis
    using False by (simp add: roundToDouble_def q Let_def del: power_numeral)
qed

text \<open>Evaluating the rounding of a given real by rewriting.\<close>

lemma expUp_unfold:
  "expUp n x = (if n = 0 then 0 else if 2 \<le> x then expUp (n - 1) (x / 2) + 1 else 0)"
  by (cases n) simp_all

lemma expDown_unfold:
  "expDown n x = (if n = 0 then 0 else if x < 1 then expDown (n - 1) (2 * x) - 1 else 0)"
  by (cases n) simp_all

lemmas double_eval = roundToDouble_def exponent_def expUp_unfold expDown_unfold pow2_def
  roundTiesToEven_def infinity_def Let_def

section \<open>Cosine similarity: the loop computes the dot product and the sums of squares\<close>

lemma sumLoop_folds:
  "length a = length b \<Longrightarrow>
   sumLoop a b i (d, na, nb) =
     (foldl (\<lambda>s (x, y). js_add s (js_mul x y)) d (zip (drop i a) (drop i b)),
      foldl (\<lambda>s x. js_add s (js_mul x x)) na (drop i a),
      foldl (\<lambda>s x. js_add s (js_mul x x)) nb (drop i b))"
proof (induction a b i "(d, na, nb)" arbitrary: d na nb rule: sumLoop.induct)
  case (1 a b i d na nb)
  show ?case
  proof (cases "i < length a")
    case True
    then have da: "drop i a = a ! i # drop (Suc i) a" and db: "drop i b = b ! i # drop (Suc i) b"
      using "1.prems" by (simp_all add: Cons_nth_drop_Suc)
    show ?thesis
      using "1.hyps"[OF True "1.prems"] True
      by (subst sumLoop.simps) (simp add: da db)
  next
    case False
    then show ?thesis using "1.prems" by (subst sumLoop.simps) simp
  qed
qed

lemma sumLoop_sums:
  "length a = length b \<Longrightarrow>
   sumLoop a b 0 (Fin 0, Fin 0, Fin 0) = (dotSum a b, sumSquares a, sumSquares b)"
  by (simp add: sumLoop_folds dotSum_def sumSquares_def)

lemma zeroNorm_iff: "zeroNorm v \<longleftrightarrow> (\<forall>x \<in> set v. x = Fin 0)"
proof
  assume z: "zeroNorm v"
  then have fin: "\<forall>x \<in> set v. isFinite x" and n: "l2norm (map finiteValue v) = 0"
    by (simp_all add: zeroNorm_def list_all_iff)
  from n have "sum_list (map (\<lambda>x. x * x) (map finiteValue v)) = 0"
    by (simp add: l2norm_def)
  moreover have "\<forall>y \<in> set (map (\<lambda>x. x * x) (map finiteValue v)). 0 \<le> y" by auto
  ultimately have "\<forall>y \<in> set (map (\<lambda>x. x * x) (map finiteValue v)). y = 0"
    using sum_list_nonneg_eq_0_iff[of "map (\<lambda>x. x * x) (map finiteValue v)"] by blast
  then have "\<forall>x \<in> set v. finiteValue x = 0" by auto
  with fin show "\<forall>x \<in> set v. x = Fin 0"
    by (fastforce simp: isFinite_iff finiteValue_def)
next
  assume a: "\<forall>x \<in> set v. x = Fin 0"
  then have "sum_list (map (\<lambda>x. x * x) (map finiteValue v)) = 0"
    by (induction v) (simp_all add: finiteValue_def)
  then have "l2norm (map finiteValue v) = 0"
    by (simp only: l2norm_def real_sqrt_zero)
  moreover have "list_all isFinite v"
    using a by (auto simp: list_all_iff isFinite_def)
  ultimately show "zeroNorm v" by (simp add: zeroNorm_def)
qed

lemma sumSquares_zero_from:
  "\<forall>x \<in> set v. x = Fin 0 \<Longrightarrow> foldl (\<lambda>s x. js_add s (js_mul x x)) (Fin 0) v = Fin 0"
  by (induction v) simp_all

lemma sumSquares_zeroNorm: "zeroNorm v \<Longrightarrow> sumSquares v = Fin 0"
  by (simp add: zeroNorm_iff sumSquares_def sumSquares_zero_from)

lemma nonnegResult_sumSquares_from:
  "nonnegResult s \<Longrightarrow> nonnegResult (foldl (\<lambda>s x. js_add s (js_mul x x)) s v)"
  by (induction v arbitrary: s) (simp_all add: nonnegResult_add nonnegResult_square)

lemma nonnegResult_sumSquares: "nonnegResult (sumSquares v)"
  unfolding sumSquares_def by (rule nonnegResult_sumSquares_from) (simp add: nonnegResult_def)

text \<open>The square root of a finite sum of squares is finite.\<close>

lemma sqrt_sumSquares_finite:
  assumes "isFinite (sumSquares v)"
  shows "isFinite (js_sqrt (sumSquares v))"
proof -
  from assms obtain y where y: "sumSquares v = Fin y"
    by (auto simp: isFinite_iff)
  with nonnegResult_sumSquares[of v] have b: "0 \<le> y" "y \<le> 2 ^ 1024"
    by (simp_all add: nonnegResult_Fin)
  have s: "sqrt y \<le> 2 ^ 512"
    by (rule real_le_lsqrt) (use b in simp_all)
  have s0: "0 \<le> sqrt y" using b by simp
  have "(2::real) ^ 512 < 2 ^ 1024 - 2 ^ 970" by simp
  with s s0 have "\<bar>sqrt y\<bar> < 2 ^ 1024 - 2 ^ 970"
    by linarith
  then have "isFinite (roundToDouble (sqrt y))"
    by (rule roundToDouble_finite)
  moreover have "js_sqrt (Fin y) = roundToDouble (sqrt y)"
    using b by simp
  ultimately show ?thesis by (simp add: y)
qed

lemma js_mul_zero_finite: "isFinite s \<Longrightarrow> js_mul (Fin 0) s = Fin 0 \<and> js_mul s (Fin 0) = Fin 0"
  by (auto simp: isFinite_iff)

text \<open>A zero vector against a vector with a finite sum of squares: the denominator is 0.\<close>

lemma denominator_zero:
  assumes "zeroNorm a \<and> isFinite (sumSquares b) \<or> zeroNorm b \<and> isFinite (sumSquares a)"
  shows "js_mul (js_sqrt (sumSquares a)) (js_sqrt (sumSquares b)) = Fin 0"
  using assms sqrt_sumSquares_finite js_mul_zero_finite
  by (auto simp: sumSquares_zeroNorm)

lemma guarded_division:
  assumes "length a = length b"
  shows "(let (dotProduct, normA, normB) = sumLoop a b 0 (Fin 0, Fin 0, Fin 0);
              denominator = js_mul (js_sqrt normA) (js_sqrt normB)
          in if js_strictEquals denominator (Fin 0) then Fin 0
             else js_div dotProduct denominator) =
         (if js_mul (js_sqrt (sumSquares a)) (js_sqrt (sumSquares b)) = Fin 0 then Fin 0
          else js_div (dotSum a b) (js_mul (js_sqrt (sumSquares a)) (js_sqrt (sumSquares b))))"
  by (simp add: sumLoop_sums[OF assms])

lemma VectorStore_cosineSimilarity_folds:
  "VectorStore_cosineSimilarity a b =
     (let n = min (length a) (length b); a' = take n a; b' = take n b;
          denominator = js_mul (js_sqrt (sumSquares a')) (js_sqrt (sumSquares b'))
      in if denominator = Fin 0 then Fin 0 else js_div (dotSum a' b') denominator)"
proof (cases "length a = length b")
  case True
  then show ?thesis
    using guarded_division[OF True]
    by (simp add: VectorStore_cosineSimilarity_def)
next
  case False
  have len: "length (take (min (length a) (length b)) a) =
             length (take (min (length a) (length b)) b)"
    by simp
  show ?thesis
    using False guarded_division[OF len]
    by (simp add: VectorStore_cosineSimilarity_def Let_def)
qed

lemma sqrt_25: "sqrt 25 = 5"
  by (simp add: real_sqrt_unique)

lemma sumSquares_1_2: "sumSquares [Fin 1, Fin 2] = Fin 5"
  by (simp add: sumSquares_def double_eval)

lemma sumSquares_3_4: "sumSquares [Fin 3, Fin 4] = Fin 25"
  by (simp add: sumSquares_def double_eval)

lemma dotSum_3_4: "dotSum [Fin 3, Fin 4] [Fin 3, Fin 4] = Fin 25"
  by (simp add: dotSum_def double_eval)

text \<open>
  Claim C9, as the code has it.  \<open>VectorStore.cosineSimilarity\<close> is total (it is a
  terminating function with no error result), and vectors of unequal length are both
  truncated to the shorter length.  Its result is exactly 0 whenever the computed
  denominator \<open>sqrt(normA) * sqrt(normB)\<close> is 0, and otherwise the computed dot
  product divided by that denominator, all in double arithmetic.  The denominator is 0,
  and so the result, whenever one truncated vector has zero L2 norm and the sum of
  squares computed for the other one is finite.
\<close>

theorem VectorStore_cosineSimilarity_total:
  "(let n = min (length a) (length b); a' = take n a; b' = take n b;
        denominator = js_mul (js_sqrt (sumSquares a')) (js_sqrt (sumSquares b'))
    in VectorStore_cosineSimilarity a b =
         (if denominator = Fin 0 then Fin 0 else js_div (dotSum a' b') denominator) \<and>
       (zeroNorm a' \<and> isFinite (sumSquares b') \<or> zeroNorm b' \<and> isFinite (sumSquares a') \<longrightarrow>
          VectorStore_cosineSimilarity a b = Fin 0))"
  using VectorStore_cosineSimilarity_folds[of a b]
        denominator_zero[of "take (min (length a) (length b)) a"
                            "take (min (length a) (length b)) b"]
  by (simp add: Let_def)

theorem VectorStore_cosineSimilarity_total_witness:
  "zeroNorm [Fin 0, Fin 0] \<and> isFinite (sumSquares [Fin 1, Fin 2]) \<and>
   VectorStore_cosineSimilarity [Fin 0, Fin 0] [Fin 1, Fin 2, Fin 3] = Fin 0 \<and>
   VectorStore_cosineSimilarity [Fin 3, Fin 4] [Fin 3, Fin 4, Fin 7] = Fin 1"
proof -
  have z: "zeroNorm [Fin 0, Fin 0]"
    by (simp add: zeroNorm_iff)
  have f: "isFinite (sumSquares [Fin 1, Fin 2])"
    by (simp add: sumSquares_1_2 isFinite_def)
  have zero: "VectorStore_cosineSimilarity [Fin 0, Fin 0] [Fin 1, Fin 2, Fin 3] = Fin 0"
    using z f
      VectorStore_cosineSimilarity_total[of "[Fin 0, Fin 0]" "[Fin 1, Fin 2, Fin 3]",
        unfolded Let_def, THEN conjunct2]
    by simp
  have one: "VectorStore_cosineSimilarity [Fin 3, Fin 4] [Fin 3, Fin 4, Fin 7] = Fin 1"
    using VectorStore_cosineSimilarity_total[of "[Fin 3, Fin 4]" "[Fin 3, Fin 4, Fin 7]",
        unfolded Let_def, THEN conjunct1]
    by (simp add: sumSquares_3_4 dotSum_3_4 sqrt_25 double_eval)
  from z f zero one show ?thesis by simp
qed

text \<open>
  The claim as it is stated fails.  The vector \<open>[0]\<close> has zero L2 norm, but against
  \<open>[2^600]\<close>, whose square overflows, the result is not 0: the two square roots are 0
  and \<open>Infinity\<close>, their product is \<open>NaN\<close>, the guard \<open>denominator === 0\<close> lets it
  pass, and \<open>0 / NaN\<close> is \<open>NaN\<close>.  The vector \<open>[2^600]\<close> against itself gives
  \<open>Infinity / Infinity\<close>, again \<open>NaN\<close>, where the dot product divided by the product
  of the norms is 1.
\<close>

theorem zero_norm_NaN_counterexample:
  "zeroNorm [Fin 0] \<and>
   VectorStore_cosineSimilarity [Fin 0] [Fin (2 ^ 600)] = NaN \<and>
   VectorStore_cosineSimilarity [Fin (2 ^ 600)] [Fin (2 ^ 600)] = NaN"
proof -
  have z: "zeroNorm [Fin 0]"
    by (simp add: zeroNorm_iff)
  have a: "VectorStore_cosineSimilarity [Fin 0] [Fin (2 ^ 600)] = NaN"
    by (simp add: VectorStore_cosineSimilarity_def sumLoop.simps roundToDouble_overflow)
  have b: "VectorStore_cosineSimilarity [Fin (2 ^ 600)] [Fin (2 ^ 600)] = NaN"
    by (simp add: VectorStore_cosineSimilarity_def sumLoop.simps roundToDouble_overflow)
  from z a b show ?thesis by simp
qed

text \<open>
  Squares that underflow: the vector \<open>[2^-600]\<close> has a norm other than zero, and its
  similarity to itself is computed as 0.
\<close>

lemma underflow_gives_zero:
  "VectorStore_cosineSimilarity [Fin (1 / 2 ^ 600)] [Fin (1 / 2 ^ 600)] = Fin 0"
  by (simp add: VectorStore_cosineSimilarity_def sumLoop.simps roundToDouble_underflow)

section \<open>The embedding service's cosine similarity is partial\<close>

lemma zeroOrNaN_add: "zeroOrNaN a \<Longrightarrow> zeroOrNaN b \<Longrightarrow> zeroOrNaN (js_add a b)"
  by (auto simp: zeroOrNaN_def)

lemma zeroOrNaN_mul_left: "zeroOrNaN (js_mul (Fin 0) y)"
  by (cases y) (simp_all add: zeroOrNaN_def)

lemma zeroOrNaN_mul_right: "zeroOrNaN (js_mul y (Fin 0))"
  by (cases y) (simp_all add: zeroOrNaN_def)

lemma zeroOrNaN_div: "zeroOrNaN a \<Longrightarrow> zeroOrNaN b \<Longrightarrow> js_div a b = NaN"
  by (auto simp: zeroOrNaN_def)

lemma dotSum_zero_left_from:
  "\<forall>x \<in> set a. x = Fin 0 \<Longrightarrow> zeroOrNaN s \<Longrightarrow>
   zeroOrNaN (foldl (\<lambda>s (x, y). js_add s (js_mul x y)) s (zip a b))"
proof (induction a arbitrary: b s)
  case Nil
  then show ?case by simp
next
  case (Cons x a)
  show ?case
  proof (cases b)
    case Nil
    with Cons.prems show ?thesis by simp
  next
    case (Cons y b')
    have "zeroOrNaN (js_add s (js_mul (Fin 0) y))"
      by (rule zeroOrNaN_add[OF Cons.prems(2) zeroOrNaN_mul_left])
    then show ?thesis
      using Cons.IH[of "js_add s (js_mul (Fin 0) y)" b'] Cons.prems(1) Cons by simp
  qed
qed

lemma dotSum_zero_right_from:
  "\<forall>y \<in> set b. y = Fin 0 \<Longrightarrow> zeroOrNaN s \<Longrightarrow>
   zeroOrNaN (foldl (\<lambda>s (x, y). js_add s (js_mul x y)) s (zip a b))"
proof (induction b arbitrary: a s)
  case Nil
  then show ?case by simp
next
  case (Cons y b)
  show ?case
  proof (cases a)
    case Nil
    with Cons.prems show ?thesis by simp
  next
    case (Cons x a')
    have "zeroOrNaN (js_add s (js_mul x (Fin 0)))"
      by (rule zeroOrNaN_add[OF Cons.prems(2) zeroOrNaN_mul_right])
    then show ?thesis
      using Cons.IH[of "js_add s (js_mul x (Fin 0))" a'] Cons.prems(1) Cons by simp
  qed
qed

lemma dotSum_zeroNorm: "zeroNorm a \<or> zeroNorm b \<Longrightarrow> zeroOrNaN (dotSum a b)"
  unfolding dotSum_def zeroNorm_iff
  using dotSum_zero_left_from[of a "Fin 0" b] dotSum_zero_right_from[of b "Fin 0" a]
  by (auto simp: zeroOrNaN_def)

lemma denominator_zeroNorm:
  "zeroNorm a \<or> zeroNorm b \<Longrightarrow>
   zeroOrNaN (js_mul (js_sqrt (sumSquares a)) (js_sqrt (sumSquares b)))"
  using zeroOrNaN_mul_left zeroOrNaN_mul_right
  by (auto simp: sumSquares_zeroNorm)

text \<open>
  Claim C10.  \<open>EmbeddingService.cosineSimilarity\<close> is not total the way the vector
  store's is: on vectors of unequal length it throws
  \<open>Embeddings must have the same dimensions\<close> instead of truncating, and on vectors
  of equal length of which one has zero L2 norm its unguarded division (\<open>0 / 0\<close>, or
  a division in which \<open>NaN\<close> takes part) yields \<open>NaN\<close>, not the defined value 0, which
  the vector store returns there as long as both computed sums of squares are finite.
\<close>

theorem EmbeddingService_cosineSimilarity_partial:
  "(length a \<noteq> length b \<longrightarrow>
      EmbeddingService_cosineSimilarity a b =
        Inl (Error ''Embeddings must have the same dimensions'')) \<and>
   (length a = length b \<and> (zeroNorm a \<or> zeroNorm b) \<longrightarrow>
      EmbeddingService_cosineSimilarity a b = Inr NaN \<and>
      EmbeddingService_cosineSimilarity a b \<noteq> Inr (Fin 0) \<and>
      (isFinite (sumSquares a) \<and> isFinite (sumSquares b) \<longrightarrow>
         VectorStore_cosineSimilarity a b = Fin 0))"
proof (intro conjI impI)
  assume "length a \<noteq> length b"
  then show "EmbeddingService_cosineSimilarity a b =
        Inl (Error ''Embeddings must have the same dimensions'')"
    by (simp add: EmbeddingService_cosineSimilarity_def)
next
  assume h: "length a = length b \<and> (zeroNorm a \<or> zeroNorm b)"
  then have len: "length a = length b" and z: "zeroNorm a \<or> zeroNorm b" by simp_all
  have "js_div (dotSum a b) (js_mul (js_sqrt (sumSquares a)) (js_sqrt (sumSquares b))) = NaN"
    by (rule zeroOrNaN_div[OF dotSum_zeroNorm[OF z] denominator_zeroNorm[OF z]])
  then show nan: "EmbeddingService_cosineSimilarity a b = Inr NaN"
    using len by (simp add: EmbeddingService_cosineSimilarity_def sumLoop_sums[OF len])
  then show "EmbeddingService_cosineSimilarity a b \<noteq> Inr (Fin 0)" by simp
  assume f: "isFinite (sumSquares a) \<and> isFinite (sumSquares b)"
  have "js_mul (js_sqrt (sumSquares a)) (js_sqrt (sumSquares b)) = Fin 0"
    by (rule denominator_zero) (use z f in blast)
  then show "VectorStore_cosineSimilarity a b = Fin 0"
    using len guarded_division[OF len] by (simp add: VectorStore_cosineSimilarity_def)
qed

theorem EmbeddingService_cosineSimilarity_partial_witness:
  "EmbeddingService_cosineSimilarity [Fin 1, Fin 2] [Fin 1] =
     Inl (Error ''Embeddings must have the same dimensions'') \<and>
   zeroNorm [Fin 0, Fin 0] \<and> isFinite (sumSquares [Fin 1, Fin 2]) \<and>
   EmbeddingService_cosineSimilarity [Fin 0, Fin 0] [Fin 1, Fin 2] = Inr NaN \<and>
   VectorStore_cosineSimilarity [Fin 0, Fin 0] [Fin 1, Fin 2] = Fin 0"
proof -
  have z: "zeroNorm [Fin 0, Fin 0]"
    by (simp add: zeroNorm_iff)
  have z0: "isFinite (sumSquares [Fin 0, Fin 0])"
    by (simp add: sumSquares_def isFinite_def)
  have f: "isFinite (sumSquares [Fin 1, Fin 2])"
    by (simp add: sumSquares_1_2 isFinite_def)
  from z z0 f
       EmbeddingService_cosineSimilarity_partial[of "[Fin 1, Fin 2]" "[Fin 1]"]
       EmbeddingService_cosineSimilarity_partial[of "[Fin 0, Fin 0]" "[Fin 1, Fin 2]"]
  show ?thesis by simp
qed

section \<open>Retry policy: the computed delay\<close>

lemma matchNumber_None: "matchNumber t = None \<longleftrightarrow> (t = [] \<or> \<not> isDigit (hd t))"
  by (cases t) (auto simp: matchNumber_def Let_def split: list.splits)

lemma matchHere_None:
  "matchHere s = None \<longleftrightarrow> \<not> (ciStartsWith s ''retry in '' \<and> 9 < length s \<and> isDigit (s ! 9))"
proof (cases "9 < length s")
  case True
  then have "hd (drop 9 s) = s ! 9" "drop 9 s \<noteq> []"
    by (simp_all add: hd_drop_conv_nth)
  then have "matchNumber (drop 9 s) = None \<longleftrightarrow> \<not> isDigit (s ! 9)"
    by (simp add: matchNumber_None)
  with True show ?thesis
    by (auto simp: matchHere_def split: option.splits)
next
  case False
  then have "matchNumber (drop 9 s) = None"
    by (simp add: matchNumber_None)
  with False show ?thesis
    by (simp add: matchHere_def)
qed

lemma matchHere_straddle:
  assumes "matchHere p = None" "p \<noteq> []" "9 \<le> length R" "\<forall>i<9. \<not> isDigit (R ! i)"
  shows "matchHere (p @ R) = None"
proof (cases "9 < length p")
  case True
  then have tk: "take (length ''retry in '') (p @ R) = take (length ''retry in '') p"
    and nth: "(p @ R) ! 9 = p ! 9"
    by (simp_all add: nth_append)
  have "ciStartsWith (p @ R) ''retry in '' = ciStartsWith p ''retry in ''"
    unfolding ciStartsWith_def by (simp only: tk)
  with assms(1) True nth show ?thesis
    by (simp add: matchHere_None)
next
  case False
  with assms(2) have "9 - length p < 9" "\<not> 9 < length p"
    by (cases p, simp_all)
  then have "(p @ R) ! 9 = R ! (9 - length p)" "\<not> isDigit (R ! (9 - length p))"
    using assms(4) by (simp_all add: nth_append)
  then show ?thesis
    by (simp add: matchHere_None)
qed

lemma retryMatch_None_Cons:
  "retryMatch (c # cs) = None \<Longrightarrow> matchHere (c # cs) = None \<and> retryMatch cs = None"
  by (simp split: option.splits)

lemma retryMatch_prefix:
  assumes "retryMatch pre = None" "9 \<le> length R" "\<forall>i<9. \<not> isDigit (R ! i)"
  shows "retryMatch (pre @ R) = retryMatch R"
  using assms(1)
proof (induction pre)
  case Nil
  then show ?case by simp
next
  case (Cons c cs)
  then have h: "matchHere (c # cs) = None" and t: "retryMatch cs = None"
    using retryMatch_None_Cons by blast+
  have "matchHere ((c # cs) @ R) = None"
    by (rule matchHere_straddle[OF h _ assms(2,3)]) simp
  then show ?case
    using Cons.IH[OF t] by simp
qed

lemma matchHere_2_minutes:
  "matchHere (''retry in 2 minutes'' @ post) = Some (''2'', Some ''m'')"
  by (simp add: matchHere_def ciStartsWith_def toLowerCase_def toLowerChar_def matchNumber_def
        isDigit_def isSpace_def matchUnit_def unitAlternatives_def)

lemma matchHere_500ms:
  "matchHere (''retry in 500ms'' @ post) = Some (''500'', Some ''ms'')"
  by (simp add: matchHere_def ciStartsWith_def toLowerCase_def toLowerChar_def matchNumber_def
        isDigit_def isSpace_def matchUnit_def unitAlternatives_def)

lemma retryMatch_here: "matchHere s = Some m \<Longrightarrow> retryMatch s = Some m"
  by (cases s) simp_all

lemma no_digit_retry_in: "\<forall>i<9. \<not> isDigit ((''retry in '' @ rest) ! i)"
proof (intro allI impI)
  fix i :: nat assume "i < 9"
  then have "i \<in> {0, 1, 2, 3, 4, 5, 6, 7, 8}" by auto
  then show "\<not> isDigit ((''retry in '' @ rest) ! i)"
    by (auto simp: isDigit_def)
qed

lemma retryMatch_2_minutes:
  assumes "retryMatch pre = None"
  shows "retryMatch (pre @ ''retry in 2 minutes'' @ post) = Some (''2'', Some ''m'')"
proof -
  have "retryMatch (pre @ (''retry in '' @ (''2 minutes'' @ post))) =
        retryMatch (''retry in '' @ (''2 minutes'' @ post))"
    by (rule retryMatch_prefix[OF assms _ no_digit_retry_in]) simp
  moreover have "retryMatch (''retry in 2 minutes'' @ post) = Some (''2'', Some ''m'')"
    by (rule retryMatch_here[OF matchHere_2_minutes])
  ultimately show ?thesis by simp
qed

lemma retryMatch_500ms:
  assumes "retryMatch pre = None"
  shows "retryMatch (pre @ ''retry in 500ms'' @ post) = Some (''500'', Some ''ms'')"
proof -
  have "retryMatch (pre @ (''retry in '' @ (''500ms'' @ post))) =
        retryMatch (''retry in '' @ (''500ms'' @ post))"
    by (rule retryMatch_prefix[OF assms _ no_digit_retry_in]) simp
  moreover have "retryMatch (''retry in 500ms'' @ post) = Some (''500'', Some ''ms'')"
    by (rule retryMatch_here[OF matchHere_500ms])
  ultimately show ?thesis by simp
qed

lemma delay_2_minutes:
  "retryMatch (message e) = Some (''2'', Some ''m'') \<Longrightarrow> retryDelay attempt e = 121000"
  by (simp add: retryDelay_def parseFloat_def digitsValue_def digitValue_def isDigit_def
        unitStartsWith_def startsWith_def toLowerCase_def toLowerChar_def)

lemma delay_500ms:
  "retryMatch (message e) = Some (''500'', Some ''ms'') \<Longrightarrow> retryDelay attempt e = 1500"
  by (simp add: retryDelay_def parseFloat_def digitsValue_def digitValue_def isDigit_def
        unitStartsWith_def startsWith_def toLowerCase_def toLowerChar_def)

lemma delay_fallback:
  "retryMatch (message e) = None \<Longrightarrow> retryDelay attempt e = 1000 * 2 ^ attempt"
  by (simp add: retryDelay_def INITIAL_RETRY_DELAY_MS_def)

text \<open>On the third attempt, and for an error that is not a rate limit, nothing is slept.\<close>

lemma onError_rethrows:
  "\<not> (isRateLimited e \<and> attempt < MAX_RETRIES - 1) \<Longrightarrow> onError attempt e = Rethrow e"
  by (simp add: onError_def)

text \<open>
  Claim C4, as the code has it.  For a rate-limited error on an attempt that may be
  retried (attempts 0 and 1 of the 3), the \<open>catch\<close> block sleeps: 121000 ms when the
  first delay phrase of the message is \<open>retry in 2 minutes\<close>; 1500 ms (500 plus the
  one-second buffer, not 501) when it is \<open>retry in 500ms\<close>; and the exponential
  fallback \<open>1000 * 2 ^ attempt\<close> when the message holds no delay phrase.
\<close>

theorem retry_delay_computation:
  "isRateLimited e \<and> attempt < MAX_RETRIES - 1 \<longrightarrow>
     (retryMatch pre = None \<and> message e = pre @ ''retry in 2 minutes'' @ post \<longrightarrow>
        onError attempt e = Retry 121000) \<and>
     (retryMatch pre = None \<and> message e = pre @ ''retry in 500ms'' @ post \<longrightarrow>
        onError attempt e = Retry 1500) \<and>
     (retryMatch (message e) = None \<longrightarrow>
        onError attempt e = Retry (1000 * 2 ^ attempt))"
proof (intro impI conjI)
  assume h: "isRateLimited e \<and> attempt < MAX_RETRIES - 1"
  then have step: "onError attempt e = Retry (retryDelay attempt e)"
    by (simp add: onError_def)
  {
    assume "retryMatch pre = None \<and> message e = pre @ ''retry in 2 minutes'' @ post"
    then have "retryMatch (message e) = Some (''2'', Some ''m'')"
      using retryMatch_2_minutes[of pre post] by simp
    then show "onError attempt e = Retry 121000"
      by (simp only: step delay_2_minutes)
  }
  {
    assume "retryMatch pre = None \<and> message e = pre @ ''retry in 500ms'' @ post"
    then have "retryMatch (message e) = Some (''500'', Some ''ms'')"
      using retryMatch_500ms[of pre post] by simp
    then show "onError attempt e = Retry 1500"
      by (simp only: step delay_500ms)
  }
  {
    assume "retryMatch (message e) = None"
    then show "onError attempt e = Retry (1000 * 2 ^ attempt)"
      by (simp only: step delay_fallback)
  }
qed

lemmas scan_defs = matchHere_def ciStartsWith_def toLowerCase_def toLowerChar_def

theorem retry_delay_computation_witness:
  "onError 0 \<lparr>status = Some 429, message = ''Please retry in 2 minutes.''\<rparr> = Retry 121000 \<and>
   onError 1 (Error ''quota: retry in 500ms'') = Retry 1500 \<and>
   onError 1 (Error ''over quota'') = Retry 2000"
proof -
  have a: "retryMatch ''Please '' = None"
    by (simp add: scan_defs)
  have b: "retryMatch ''quota: '' = None"
    by (simp add: scan_defs)
  have c: "retryMatch ''over quota'' = None"
    by (simp add: scan_defs)
  have r1: "isRateLimited \<lparr>status = Some 429, message = ''Please retry in 2 minutes.''\<rparr>"
    by (simp add: isRateLimited_def)
  have r2: "isRateLimited (Error ''quota: retry in 500ms'')"
    by (simp add: isRateLimited_def Error_def startsWith_def)
  have r3: "isRateLimited (Error ''over quota'')"
    by (simp add: isRateLimited_def Error_def startsWith_def)
  have n0: "(0::nat) < MAX_RETRIES - 1" and n1: "(1::nat) < MAX_RETRIES - 1"
    by (simp_all add: MAX_RETRIES_def)
  have m1: "message \<lparr>status = Some 429, message = ''Please retry in 2 minutes.''\<rparr> =
            ''Please '' @ ''retry in 2 minutes'' @ ''.''"
    by simp
  have m2: "message (Error ''quota: retry in 500ms'') = ''quota: '' @ ''retry in 500ms'' @ []"
    by (simp add: Error_def)
  have m3: "retryMatch (message (Error ''over quota'')) = None"
    using c by (simp add: Error_def)
  have p2: "(1000::int) * 2 ^ 1 = 2000" by simp
  have "onError 0 \<lparr>status = Some 429, message = ''Please retry in 2 minutes.''\<rparr> = Retry 121000"
    using retry_delay_computation[of
            "\<lparr>status = Some 429, message = ''Please retry in 2 minutes.''\<rparr>"
            0 "''Please ''" "''.''"] r1 n0 a m1
    by blast
  moreover have "onError 1 (Error ''quota: retry in 500ms'') = Retry 1500"
    using retry_delay_computation[of "Error ''quota: retry in 500ms''" 1 "''quota: ''" "[]"]
          r2 n1 b m2
    by blast
  moreover have "onError 1 (Error ''over quota'') = Retry 2000"
    using retry_delay_computation[of "Error ''over quota''" 1 "[]" "[]"] r3 n1 m3 p2
    by metis
  ultimately show ?thesis by blast
qed

text \<open>The delay for \<open>retry in 500ms\<close> is not 501 ms.\<close>

theorem retry_delay_500ms_counterexample:
  "onError 0 (Error ''quota: retry in 500ms'') \<noteq> Retry 501"
proof -
  have "retryMatch ''quota: '' = None"
    by (simp add: scan_defs)
  then have "retryMatch (message (Error ''quota: retry in 500ms'')) = Some (''500'', Some ''ms'')"
    using retryMatch_500ms[of "''quota: ''" "[]"] by (simp add: Error_def)
  then have "retryDelay 0 (Error ''quota: retry in 500ms'') = 1500"
    by (rule delay_500ms)
  moreover have "isRateLimited (Error ''quota: retry in 500ms'')"
    by (simp add: isRateLimited_def Error_def startsWith_def)
  ultimately show ?thesis
    by (simp add: onError_def MAX_RETRIES_def)
qed

section \<open>Admin gating at the dispatch boundary\<close>

lemma executeToolInternal_gated:
  "toolName \<in> set adminGated \<Longrightarrow> userRole context \<noteq> Admin \<Longrightarrow>
   executeToolInternal h toolName args context = Inl (Error ''Admin only'')"
  by (auto simp: adminGated_def executeToolInternal_def)

lemma jsonError_Admin_only:
  "jsonError ''Admin only'' =
     ''{'' @ [dq] @ ''error'' @ [dq] @ '':'' @ [dq] @ ''Admin only'' @ [dq] @ ''}''"
  by (simp add: jsonError_def jsonQuote_def jsonEscape_def dq_def)

lemma includes_Admin_only: "str_includes (jsonError ''Admin only'') ''Admin only''"
  by (simp add: jsonError_Admin_only startsWith_def dq_def)

text \<open>
  Claim C6.  \<open>executeTool\<close> called with an admin-gated tool name and a caller whose
  role is not admin returns normally (its result is a \<open>tool_result\<close>, the function
  has no error outcome): the content is the JSON payload \<open>{"error":"Admin only"}\<close>,
  which contains the text \<open>Admin only\<close>, and there is no chart.
\<close>

theorem executeTool_admin_only:
  "toolName \<in> set adminGated \<and> userRole context \<noteq> Admin \<longrightarrow>
     executeTool h now toolName args context =
       \<lparr>tr_toolCallId = ''tool_'' @ showNat now,
        tr_content = jsonError ''Admin only'',
        tr_chart = None\<rparr> \<and>
     str_includes (tr_content (executeTool h now toolName args context)) ''Admin only''"
proof
  assume a: "toolName \<in> set adminGated \<and> userRole context \<noteq> Admin"
  then have "executeToolInternal h toolName args context = Inl (Error ''Admin only'')"
    by (simp add: executeToolInternal_gated)
  then have r: "executeTool h now toolName args context =
       \<lparr>tr_toolCallId = ''tool_'' @ showNat now,
        tr_content = jsonError ''Admin only'',
        tr_chart = None\<rparr>"
    by (simp add: executeTool_def Error_def)
  show "executeTool h now toolName args context =
       \<lparr>tr_toolCallId = ''tool_'' @ showNat now,
        tr_content = jsonError ''Admin only'',
        tr_chart = None\<rparr> \<and>
     str_includes (tr_content (executeTool h now toolName args context)) ''Admin only''"
    by (simp only: r includes_Admin_only tool_result.simps simp_thms)
qed

theorem executeTool_admin_only_witness:
  "tr_content (executeTool stubHandlers 1700 ''get_sales_dashboard'' []
       \<lparr>userId = 7, userRole = Customer, userName = ''User''\<rparr>) =
     ''{'' @ [dq] @ ''error'' @ [dq] @ '':'' @ [dq] @ ''Admin only'' @ [dq] @ ''}'' \<and>
   tr_content (executeTool stubHandlers 1700 ''get_sales_dashboard'' []
       \<lparr>userId = 1, userRole = Admin, userName = ''User''\<rparr>) = ''{}''"
proof -
  have g: "''get_sales_dashboard'' \<in> set adminGated"
    by (simp add: adminGated_def)
  have c: "userRole \<lparr>userId = 7, userRole = Customer, userName = ''User''\<rparr> \<noteq> Admin"
    by simp
  have "tr_content (executeTool stubHandlers 1700 ''get_sales_dashboard'' []
       \<lparr>userId = 7, userRole = Customer, userName = ''User''\<rparr>) = jsonError ''Admin only''"
    using executeTool_admin_only[of "''get_sales_dashboard''"
            "\<lparr>userId = 7, userRole = Customer, userName = ''User''\<rparr>" stubHandlers 1700 "[]"]
          g c
    by simp
  moreover have "tr_content (executeTool stubHandlers 1700 ''get_sales_dashboard'' []
       \<lparr>userId = 1, userRole = Admin, userName = ''User''\<rparr>) = ''{}''"
    by (simp add: executeTool_def executeToolInternal_def stubHandlers_def Let_def)
  ultimately show ?thesis
    by (simp only: jsonError_Admin_only simp_thms)
qed

section \<open>The log of a turn: what each step appends\<close>

lemma trace_called [simp]: "trace (called st) = trace st @ [LLMCall]"
  and messages_called [simp]: "messages (called st) = messages st"
  by (simp_all add: called_def)

lemma trace_yield [simp]: "trace (yield c st) = trace st @ [Yield c]"
  and messages_yield [simp]: "messages (yield c st) = messages st"
  by (simp_all add: yield_def)

lemma trace_push [simp]: "trace (push m st) = trace st @ [Push m]"
  and messages_push [simp]: "messages (push m st) = messages st @ [m]"
  by (simp_all add: push_def)

lemma trace_yieldAll [simp]: "trace (yieldAll cs st) = trace st @ map Yield cs"
  by (induction cs arbitrary: st) simp_all

lemma messages_yieldAll [simp]: "messages (yieldAll cs st) = messages st"
  by (induction cs arbitrary: st) simp_all

lemma trace_dispatchTools [simp]:
  "trace (dispatchTools exec context tcs st) = trace st @ dispatchEvents exec context tcs"
  by (induction tcs arbitrary: st) (simp_all add: Let_def)

lemma trace_dispatchToolsStream [simp]:
  "trace (dispatchToolsStream exec context tcs st) =
     trace st @ dispatchStreamEvents exec context tcs"
  by (induction tcs arbitrary: st) (simp_all add: Let_def split: option.splits)

lemma trace_mcpDispatch [simp]:
  "trace (mcpDispatch exec tcs st) = trace st @ mcpDispatchEvents exec tcs"
  by (induction tcs arbitrary: st) (simp_all add: Let_def)

lemma trace_mcpDispatchStream [simp]:
  "trace (mcpDispatchStream exec tcs st) = trace st @ mcpDispatchStreamEvents exec tcs"
  by (induction tcs arbitrary: st) (simp_all add: Let_def)

lemma llmCallsIn_append [simp]: "llmCallsIn (xs @ ys) = llmCallsIn xs + llmCallsIn ys"
  by (induction xs rule: llmCallsIn.induct) simp_all

lemma llmCallsIn_Yields [simp]: "llmCallsIn (map Yield cs) = 0"
  by (induction cs) simp_all

lemma llmCallsIn_dispatchEvents [simp]: "llmCallsIn (dispatchEvents exec context tcs) = 0"
  by (induction tcs) simp_all

lemma llmCallsIn_dispatchStreamEvents [simp]:
  "llmCallsIn (dispatchStreamEvents exec context tcs) = 0"
  by (induction tcs) (simp_all add: Let_def split: option.splits)

lemma llmCallsIn_mcpDispatchEvents [simp]: "llmCallsIn (mcpDispatchEvents exec tcs) = 0"
  by (induction tcs) simp_all

lemma llmCallsIn_mcpDispatchStreamEvents [simp]:
  "llmCallsIn (mcpDispatchStreamEvents exec tcs) = 0"
  by (induction tcs) simp_all

lemma trace_startTurn [simp]: "trace (startTurn prompt history text) = []"
  by (simp add: startTurn_def)

section \<open>Provider calls per turn\<close>

lemma chatStream_loop_stop:
  "\<not> (h \<and> i < MAX_TOOL_ITERATIONS) \<Longrightarrow>
   chatStream_loop llm exec tools ctx h i st = (Inr (), yield DoneChunk st)"
  by (subst chatStream_loop.simps) auto

lemma chatStream_loop_throw:
  "h \<Longrightarrow> i < MAX_TOOL_ITERATIONS \<Longrightarrow> llm (llmCalls st) (messages st) tools = Inl e \<Longrightarrow>
   chatStream_loop llm exec tools ctx h i st = (Inl e, called st)"
  by (subst chatStream_loop.simps) auto

lemma chatStream_loop_tools:
  "h \<Longrightarrow> i < MAX_TOOL_ITERATIONS \<Longrightarrow>
   llm (llmCalls st) (messages st) tools = Inr (cs, response) \<Longrightarrow> requested response \<noteq> [] \<Longrightarrow>
   chatStream_loop llm exec tools ctx h i st =
     chatStream_loop llm exec tools ctx True (i + 1)
       (dispatchToolsStream exec ctx (requested response)
          (push response (yieldAll (filter isText cs) (called st))))"
  by (subst chatStream_loop.simps) auto

lemma chatStream_loop_answer:
  "h \<Longrightarrow> i < MAX_TOOL_ITERATIONS \<Longrightarrow>
   llm (llmCalls st) (messages st) tools = Inr (cs, response) \<Longrightarrow> requested response = [] \<Longrightarrow>
   chatStream_loop llm exec tools ctx h i st =
     chatStream_loop llm exec tools ctx False (i + 1)
       (yieldAll (filter isText cs) (called st))"
  by (subst chatStream_loop.simps) auto

lemma chatStream_loop_calls:
  "llmCalls (snd (chatStream_loop llm exec tools ctx h i st))
     \<le> llmCalls st + (MAX_TOOL_ITERATIONS - i)"
proof (induction llm exec tools ctx h i st rule: chatStream_loop.induct)
  case (1 llm exec tools ctx h i st)
  show ?case
  proof (cases "h \<and> i < MAX_TOOL_ITERATIONS")
    case False
    then show ?thesis
      by (auto simp: chatStream_loop_stop llmCalls_def)
  next
    case True
    show ?thesis
    proof (cases "llm (llmCalls st) (messages st) tools")
      case (Inl e)
      with True show ?thesis
        by (auto simp: chatStream_loop_throw llmCalls_def)
    next
      case (Inr p)
      obtain cs response where p: "p = (cs, response)" by (cases p)
      show ?thesis
      proof (cases "requested response \<noteq> []")
        case t: True
        have "llmCalls (snd (chatStream_loop llm exec tools ctx True (i + 1)
                 (dispatchToolsStream exec ctx (requested response)
                    (push response (yieldAll (filter isText cs) (called st))))))
              \<le> llmCalls (dispatchToolsStream exec ctx (requested response)
                    (push response (yieldAll (filter isText cs) (called st))))
                  + (MAX_TOOL_ITERATIONS - (i + 1))"
          using "1.IH"(1)[OF True Inr[unfolded p] refl refl t] by simp
        with True Inr p t show ?thesis
          by (auto simp: chatStream_loop_tools llmCalls_def)
      next
        case f: False
        have "llmCalls (snd (chatStream_loop llm exec tools ctx False (i + 1)
                 (yieldAll (filter isText cs) (called st))))
              \<le> llmCalls (yieldAll (filter isText cs) (called st))
                  + (MAX_TOOL_ITERATIONS - (i + 1))"
          using "1.IH"(2)[OF True Inr[unfolded p] refl refl f] by simp
        with True Inr p f show ?thesis
          by (auto simp: chatStream_loop_answer llmCalls_def)
      qed
    qed
  qed
qed

lemma chat_loop_stop:
  "\<not> (requested response \<noteq> [] \<and> i < MAX_TOOL_ITERATIONS) \<Longrightarrow>
   chat_loop llm exec tools ctx response i st = (Inr response, st)"
  by (subst chat_loop.simps) auto

lemma chat_loop_throw:
  "requested response \<noteq> [] \<Longrightarrow> i < MAX_TOOL_ITERATIONS \<Longrightarrow>
   st1 = dispatchTools exec ctx (requested response) (push response st) \<Longrightarrow>
   llm (llmCalls st1) (messages st1) tools = Inl e \<Longrightarrow>
   chat_loop llm exec tools ctx response i st = (Inl e, called st1)"
  by (subst chat_loop.simps) (auto simp: Let_def)

lemma chat_loop_again:
  "requested response \<noteq> [] \<Longrightarrow> i < MAX_TOOL_ITERATIONS \<Longrightarrow>
   st1 = dispatchTools exec ctx (requested response) (push response st) \<Longrightarrow>
   llm (llmCalls st1) (messages st1) tools = Inr response' \<Longrightarrow>
   chat_loop llm exec tools ctx response i st =
     chat_loop llm exec tools ctx response' (i + 1) (called st1)"
  by (subst chat_loop.simps) (auto simp: Let_def)

lemma chat_loop_calls:
  "llmCalls (snd (chat_loop llm exec tools ctx response i st))
     \<le> llmCalls st + (MAX_TOOL_ITERATIONS - i)"
proof (induction llm exec tools ctx response i st rule: chat_loop.induct)
  case (1 llm exec tools ctx response i st)
  define st1 where "st1 = dispatchTools exec ctx (requested response) (push response st)"
  have c1: "llmCalls st1 = llmCalls st"
    by (simp add: st1_def llmCalls_def)
  show ?case
  proof (cases "requested response \<noteq> [] \<and> i < MAX_TOOL_ITERATIONS")
    case False
    then show ?thesis
      by (simp add: chat_loop_stop)
  next
    case True
    show ?thesis
    proof (cases "llm (llmCalls st1) (messages st1) tools")
      case (Inl e)
      with True c1 show ?thesis
        by (auto simp: chat_loop_throw[OF _ _ st1_def] llmCalls_def)
    next
      case (Inr response')
      have "llmCalls (snd (chat_loop llm exec tools ctx response' (i + 1) (called st1)))
              \<le> llmCalls (called st1) + (MAX_TOOL_ITERATIONS - (i + 1))"
        using "1.IH"[OF True st1_def Inr] .
      with True Inr c1 show ?thesis
        by (auto simp: chat_loop_again[OF _ _ st1_def] llmCalls_def)
    qed
  qed
qed

lemma mcp_chat_loop_stop:
  "\<not> i < MAX_TOOL_ITERATIONS \<Longrightarrow> mcp_chat_loop llm exec tools i st = (Inr apology, st)"
  by (subst mcp_chat_loop.simps) auto

lemma mcp_chat_loop_throw:
  "i < MAX_TOOL_ITERATIONS \<Longrightarrow> llm (llmCalls st) (messages st) tools = Inl e \<Longrightarrow>
   mcp_chat_loop llm exec tools i st = (Inl e, called st)"
  by (subst mcp_chat_loop.simps) auto

lemma mcp_chat_loop_answer:
  "i < MAX_TOOL_ITERATIONS \<Longrightarrow> llm (llmCalls st) (messages st) tools = Inr response \<Longrightarrow>
   requested response = [] \<Longrightarrow>
   mcp_chat_loop llm exec tools i st = (Inr response, called st)"
  by (subst mcp_chat_loop.simps) auto

lemma mcp_chat_loop_tools:
  "i < MAX_TOOL_ITERATIONS \<Longrightarrow> llm (llmCalls st) (messages st) tools = Inr response \<Longrightarrow>
   requested response \<noteq> [] \<Longrightarrow>
   mcp_chat_loop llm exec tools i st =
     mcp_chat_loop llm exec tools (i + 1)
       (mcpDispatch exec (requested response) (push response (called st)))"
  by (subst mcp_chat_loop.simps) auto

lemma mcp_chat_loop_calls:
  "llmCalls (snd (mcp_chat_loop llm exec tools i st)) \<le> llmCalls st + (MAX_TOOL_ITERATIONS - i)"
proof (induction llm exec tools i st rule: mcp_chat_loop.induct)
  case (1 llm exec tools i st)
  show ?case
  proof (cases "i < MAX_TOOL_ITERATIONS")
    case False
    then show ?thesis by (simp add: mcp_chat_loop_stop)
  next
    case True
    show ?thesis
    proof (cases "llm (llmCalls st) (messages st) tools")
      case (Inl e)
      with True show ?thesis
        by (auto simp: mcp_chat_loop_throw llmCalls_def)
    next
      case (Inr response)
      show ?thesis
      proof (cases "requested response = []")
        case t: True
        with True Inr show ?thesis
          by (auto simp: mcp_chat_loop_answer llmCalls_def)
      next
        case f: False
        have "llmCalls (snd (mcp_chat_loop llm exec tools (i + 1)
                 (mcpDispatch exec (requested response) (push response (called st)))))
              \<le> llmCalls (mcpDispatch exec (requested response) (push response (called st)))
                  + (MAX_TOOL_ITERATIONS - (i + 1))"
          using "1.IH"[OF True Inr f] .
        with True Inr f show ?thesis
          by (auto simp: mcp_chat_loop_tools llmCalls_def)
      qed
    qed
  qed
qed

lemma mcp_chatStream_loop_stop:
  "\<not> i < MAX_TOOL_ITERATIONS \<Longrightarrow>
   mcp_chatStream_loop llm exec tools i st = (Inr (), yield DoneChunk st)"
  by (subst mcp_chatStream_loop.simps) auto

lemma mcp_chatStream_loop_throw:
  "i < MAX_TOOL_ITERATIONS \<Longrightarrow> llm (llmCalls st) (messages st) tools = Inl e \<Longrightarrow>
   mcp_chatStream_loop llm exec tools i st = (Inl e, called st)"
  by (subst mcp_chatStream_loop.simps) auto

lemma mcp_chatStream_loop_answer:
  "i < MAX_TOOL_ITERATIONS \<Longrightarrow> llm (llmCalls st) (messages st) tools = Inr (cs, response) \<Longrightarrow>
   requested response = [] \<Longrightarrow>
   mcp_chatStream_loop llm exec tools i st = (Inr (), yield DoneChunk (yieldAll cs (called st)))"
  by (subst mcp_chatStream_loop.simps) auto

lemma mcp_chatStream_loop_tools:
  "i < MAX_TOOL_ITERATIONS \<Longrightarrow> llm (llmCalls st) (messages st) tools = Inr (cs, response) \<Longrightarrow>
   requested response \<noteq> [] \<Longrightarrow>
   mcp_chatStream_loop llm exec tools i st =
     mcp_chatStream_loop llm exec tools (i + 1)
       (mcpDispatchStream exec (requested response)
          (push response (yieldAll cs (called st))))"
  by (subst mcp_chatStream_loop.simps) auto

lemma mcp_chatStream_loop_calls:
  "llmCalls (snd (mcp_chatStream_loop llm exec tools i st))
     \<le> llmCalls st + (MAX_TOOL_ITERATIONS - i)"
proof (induction llm exec tools i st rule: mcp_chatStream_loop.induct)
  case (1 llm exec tools i st)
  show ?case
  proof (cases "i < MAX_TOOL_ITERATIONS")
    case False
    then show ?thesis by (simp add: mcp_chatStream_loop_stop llmCalls_def)
  next
    case True
    show ?thesis
    proof (cases "llm (llmCalls st) (messages st) tools")
      case (Inl e)
      with True show ?thesis
        by (auto simp: mcp_chatStream_loop_throw llmCalls_def)
    next
      case (Inr p)
      obtain cs response where p: "p = (cs, response)" by (cases p)
      show ?thesis
      proof (cases "requested response = []")
        case t: True
        with True Inr p show ?thesis
          by (auto simp: mcp_chatStream_loop_answer llmCalls_def)
      next
        case f: False
        have "llmCalls (snd (mcp_chatStream_loop llm exec tools (i + 1)
                 (mcpDispatchStream exec (requested response)
                    (push response (yieldAll cs (called st))))))
              \<le> llmCalls (mcpDispatchStream exec (requested response)
                    (push response (yieldAll cs (called st))))
                  + (MAX_TOOL_ITERATIONS - (i + 1))"
          using "1.IH"[OF True Inr[unfolded p] refl refl f] by simp
        with True Inr p f show ?thesis
          by (auto simp: mcp_chatStream_loop_tools llmCalls_def)
      qed
    qed
  qed
qed

lemma llmCalls_startTurn [simp]: "llmCalls (startTurn prompt history text) = 0"
  by (simp add: startTurn_def llmCalls_def)

lemma llmCalls_noTurn [simp]: "llmCalls noTurn = 0"
  by (simp add: noTurn_def llmCalls_def)

lemma ChatService_chatStream_calls:
  "llmCalls (snd (ChatService_chatStream llm exec prompt text ctx history)) \<le> 5"
  using chatStream_loop_calls[of llm exec "getToolsForRole (userRole ctx)" ctx True 0
          "startTurn prompt history text"]
  by (simp add: ChatService_chatStream_def MAX_TOOL_ITERATIONS_def)

lemma ChatService_chat_calls:
  "llmCalls (snd (ChatService_chat llm exec prompt text ctx history)) \<le> 6"
proof (cases "llm 0 (messages (startTurn prompt history text)) (getToolsForRole (userRole ctx))")
  case (Inl e)
  then show ?thesis
    by (simp add: ChatService_chat_def Let_def llmCalls_def startTurn_def)
next
  case (Inr response)
  then show ?thesis
    using chat_loop_calls[of llm exec "getToolsForRole (userRole ctx)" ctx response 0
            "called (startTurn prompt history text)"]
    by (simp add: ChatService_chat_def Let_def MAX_TOOL_ITERATIONS_def llmCalls_def startTurn_def)
qed

lemma MCPChatService_chat_calls:
  "llmCalls (snd (MCPChatService_chat llm mcp prompt text ctx history)) \<le> 5"
  using mcp_chat_loop_calls[of llm _ _ 0 "startTurn prompt history text"]
  by (auto simp: MCPChatService_chat_def MAX_TOOL_ITERATIONS_def split: sum.splits)

lemma MCPChatService_chatStream_calls:
  "llmCalls (snd (MCPChatService_chatStream llm mcp prompt text ctx history)) \<le> 5"
  using mcp_chatStream_loop_calls[of llm _ _ 0 "startTurn prompt history text"]
  by (auto simp: MCPChatService_chatStream_def MAX_TOOL_ITERATIONS_def split: sum.splits)

text \<open>
  Claim C1, as the code has it.  Whatever the model answers, a turn of
  \<open>ChatService.chatStream\<close>, of \<open>MCPChatService.chatStream\<close> and of
  \<open>MCPChatService.chat\<close> issues at most 5 provider calls; a turn of
  \<open>ChatService.chat\<close> issues at most 6: the call before its loop and one more after
  each of at most 5 rounds of tool calls.
\<close>

theorem provider_calls_per_turn:
  "llmCalls (snd (ChatService_chatStream sllm exec prompt text ctx history)) \<le> 5 \<and>
   llmCalls (snd (MCPChatService_chatStream sllm mcp prompt text ctx history)) \<le> 5 \<and>
   llmCalls (snd (MCPChatService_chat llm mcp prompt text ctx history)) \<le> 5 \<and>
   llmCalls (snd (ChatService_chat llm exec prompt text ctx history)) \<le> 6"
  by (simp only: ChatService_chatStream_calls MCPChatService_chatStream_calls
        MCPChatService_chat_calls ChatService_chat_calls simp_thms)

lemma chat_loop_greedy:
  "\<forall>n ms ts. \<exists>r. llm n ms ts = Inr r \<and> requested r \<noteq> [] \<Longrightarrow> requested response \<noteq> [] \<Longrightarrow>
   llmCalls (snd (chat_loop llm exec tools ctx response i st))
     = llmCalls st + (MAX_TOOL_ITERATIONS - i)"
proof (induction llm exec tools ctx response i st rule: chat_loop.induct)
  case (1 llm exec tools ctx response i st)
  define st1 where "st1 = dispatchTools exec ctx (requested response) (push response st)"
  have c1: "llmCalls st1 = llmCalls st"
    by (simp add: st1_def llmCalls_def)
  show ?case
  proof (cases "i < MAX_TOOL_ITERATIONS")
    case False
    then show ?thesis
      by (simp add: chat_loop_stop)
  next
    case True
    obtain r where r: "llm (llmCalls st1) (messages st1) tools = Inr r" "requested r \<noteq> []"
      using "1.prems"(1) by blast
    have "llmCalls (snd (chat_loop llm exec tools ctx r (i + 1) (called st1)))
              = llmCalls (called st1) + (MAX_TOOL_ITERATIONS - (i + 1))"
      using "1.IH"[OF _ st1_def r(1) "1.prems"(1) r(2)] True "1.prems"(2) by simp
    with True r c1 "1.prems"(2) show ?thesis
      by (auto simp: chat_loop_again[OF _ _ st1_def] llmCalls_def)
  qed
qed

theorem provider_calls_per_turn_witness:
  "llmCalls (snd (ChatService_chatStream greedyStream (executeTool stubHandlers 0) ''prompt''
                    ''find me a laptop'' customer [])) \<le> 5 \<and>
   llmCalls (snd (ChatService_chat greedyChat (executeTool stubHandlers 0) ''prompt''
                    ''find me a laptop'' customer [])) \<le> 6"
  using provider_calls_per_turn[of greedyStream "executeTool stubHandlers 0" "''prompt''"
          "''find me a laptop''" customer "[]" "Inr connectedManager" greedyChat]
  by blast

text \<open>
  \<open>ChatService.chat\<close> does issue a sixth call when the model asks for tools in every
  response.
\<close>

theorem ChatService_chat_six_calls_counterexample:
  "\<not> llmCalls (snd (ChatService_chat greedyChat (executeTool stubHandlers 0) ''prompt''
                       ''find me a laptop'' customer [])) \<le> 5"
proof -
  have g: "\<forall>n ms ts. \<exists>r. greedyChat n ms ts = Inr r \<and> requested r \<noteq> []"
    by (simp add: greedyChat_def greedyReply_def requested_def)
  have "llmCalls (snd (chat_loop greedyChat (executeTool stubHandlers 0)
            (getToolsForRole (userRole customer)) customer (greedyReply 0) 0
            (called (startTurn ''prompt'' [] ''find me a laptop''))))
        = llmCalls (called (startTurn ''prompt'' [] ''find me a laptop'')) + (MAX_TOOL_ITERATIONS - 0)"
    by (rule chat_loop_greedy[OF g]) (simp add: greedyReply_def requested_def)
  then have "llmCalls (snd (ChatService_chat greedyChat (executeTool stubHandlers 0) ''prompt''
                       ''find me a laptop'' customer [])) = 6"
    by (simp add: ChatService_chat_def Let_def greedyChat_def MAX_TOOL_ITERATIONS_def llmCalls_def)
  then show ?thesis by simp
qed

section \<open>The chunks of a turn\<close>

lemma chunksOf_append [simp]: "chunksOf (xs @ ys) = chunksOf xs @ chunksOf ys"
  by (induction xs rule: chunksOf.induct) simp_all

lemma chunksOf_Yields [simp]: "chunksOf (map Yield cs) = cs"
  by (induction cs) simp_all

lemma chunks_called [simp]: "chunks (called st) = chunks st"
  and chunks_yield [simp]: "chunks (yield c st) = chunks st @ [c]"
  and chunks_push [simp]: "chunks (push m st) = chunks st"
  and chunks_yieldAll [simp]: "chunks (yieldAll cs st) = chunks st @ cs"
  by (simp_all add: chunks_def)

lemma chunks_startTurn [simp]: "chunks (startTurn prompt history text) = []"
  by (simp add: chunks_def)

lemma stub_search: "executeTool stubHandlers 0 ''search_products'' [] customer =
    \<lparr>tr_toolCallId = ''tool_0'', tr_content = ''[]'', tr_chart = None\<rparr>"
  by (simp add: executeTool_def executeToolInternal_def stubHandlers_def showNat_def)

lemma greedy_requested [simp]: "requested (greedyReply n) = [greedyCall n]"
  by (simp add: greedyReply_def requested_def)

lemma llmCalls_steps [simp]:
  "llmCalls (called st) = Suc (llmCalls st)"
  "llmCalls (yield c st) = llmCalls st"
  "llmCalls (push m st) = llmCalls st"
  "llmCalls (yieldAll cs st) = llmCalls st"
  "llmCalls (dispatchToolsStream exec ctx tcs st) = llmCalls st"
  "llmCalls (mcpDispatchStream mexec tcs st) = llmCalls st"
  by (simp_all add: llmCalls_def)

declare dispatchTools.simps [simp del] dispatchToolsStream.simps [simp del]
  mcpDispatch.simps [simp del] mcpDispatchStream.simps [simp del] yieldAll.simps [simp del]

lemma no_terminal_text [simp]: "filter (\<lambda>x. isText x \<and> isTerminal x) cs = []"
  by (induction cs) (auto simp: isTerminal_def isText_def split: stream_chunk.splits)

lemma no_terminal_dispatchStream [simp]:
  "filter isTerminal (chunksOf (dispatchStreamEvents exec ctx tcs)) = []"
  by (induction tcs) (simp_all add: Let_def isTerminal_def split: option.splits)

lemma terminal_chunks_dispatchToolsStream [simp]:
  "filter isTerminal (chunks (dispatchToolsStream exec ctx tcs st)) = filter isTerminal (chunks st)"
  by (simp add: chunks_def)

section \<open>The concrete instances evaluated\<close>

lemma connectedManager_eq:
  "connectedManager =
     \<lparr>connections = [(''products'', \<lparr>client = productsClient, config = productsConfig\<rparr>)],
      toolToServer = [(''search_products'', ''products''), (''get_product_details'', ''products'')]\<rparr>"
  by (simp add: connectedManager_def connect_def newManager_def productsClient_def
        productsConfig_def Let_def)

lemma connected_tools: "getAllTools connectedManager isAdmin = Inr [''search_products'', ''get_product_details'']"
  by (simp add: getAllTools_def connectedManager_eq productsConfig_def productsClient_def)

lemma connected_search: "executeToolCall connectedManager (greedyCall n) = ''[]''"
  by (simp add: executeToolCall_def callTool_def connectedManager_eq greedyCall_def
        productsClient_def extractText_def)

lemma direct_turn:
  "ChatService_chatStream directStream (executeTool stubHandlers 0) ''prompt'' ''hello'' customer []
     = (Inr (), yield DoneChunk (yieldAll [TextChunk ''Hello'']
                  (called (startTurn ''prompt'' [] ''hello''))))"
  by (simp add: ChatService_chatStream_def chatStream_loop.simps MAX_TOOL_ITERATIONS_def
        directStream_def requested_def isText_def)

lemma down_turn:
  "ChatService_chatStream downStream (executeTool stubHandlers 0) ''prompt'' ''hello'' customer []
     = (Inl (Error ''fetch failed''), called (startTurn ''prompt'' [] ''hello''))"
  by (simp add: ChatService_chatStream_def chatStream_loop.simps MAX_TOOL_ITERATIONS_def
        downStream_def)

lemma mcp_direct_turn:
  "MCPChatService_chatStream directStream (Inr connectedManager) ''prompt'' ''hello'' customer []
     = (Inr (), yield DoneChunk (yieldAll [TextChunk ''Hello'', DoneChunk]
                  (called (startTurn ''prompt'' [] ''hello''))))"
  by (simp add: MCPChatService_chatStream_def connected_tools mcp_chatStream_loop.simps
        MAX_TOOL_ITERATIONS_def directStream_def requested_def)

section \<open>How a streamed turn ends\<close>

lemma chatStream_loop_terminal:
  "filter isTerminal (chunks (snd (chatStream_loop llm exec tools ctx h i st)))
     = filter isTerminal (chunks st) @
       (if isl (fst (chatStream_loop llm exec tools ctx h i st)) then [] else [DoneChunk]) \<and>
   (\<not> isl (fst (chatStream_loop llm exec tools ctx h i st)) \<longrightarrow>
      last (chunks (snd (chatStream_loop llm exec tools ctx h i st))) = DoneChunk)"
proof (induction llm exec tools ctx h i st rule: chatStream_loop.induct)
  case (1 llm exec tools ctx h i st)
  show ?case
  proof (cases "h \<and> i < MAX_TOOL_ITERATIONS")
    case False
    then show ?thesis
      by (simp add: chatStream_loop_stop isTerminal_def)
  next
    case True
    show ?thesis
    proof (cases "llm (llmCalls st) (messages st) tools")
      case (Inl e)
      with True show ?thesis
        by (simp add: chatStream_loop_throw)
    next
      case (Inr p)
      obtain cs response where p: "p = (cs, response)" by (cases p)
      show ?thesis
      proof (cases "requested response \<noteq> []")
        case t: True
        have step: "chatStream_loop llm exec tools ctx h i st =
              chatStream_loop llm exec tools ctx True (i + 1)
                (dispatchToolsStream exec ctx (requested response)
                   (push response (yieldAll (filter isText cs) (called st))))"
          using True Inr p t by (simp add: chatStream_loop_tools)
        show ?thesis
          using "1.IH"(1)[OF True Inr[unfolded p] refl refl t]
          by (simp add: step)
      next
        case f: False
        have step: "chatStream_loop llm exec tools ctx h i st =
              chatStream_loop llm exec tools ctx False (i + 1)
                (yieldAll (filter isText cs) (called st))"
          using True Inr p f by (simp add: chatStream_loop_answer)
        show ?thesis
          using "1.IH"(2)[OF True Inr[unfolded p] refl refl f]
          by (simp add: step)
      qed
    qed
  qed
qed

lemma mcp_chatStream_loop_last:
  "\<not> isl (fst (mcp_chatStream_loop llm exec tools i st)) \<longrightarrow>
     chunks (snd (mcp_chatStream_loop llm exec tools i st)) \<noteq> [] \<and>
     last (chunks (snd (mcp_chatStream_loop llm exec tools i st))) = DoneChunk"
proof (induction llm exec tools i st rule: mcp_chatStream_loop.induct)
  case (1 llm exec tools i st)
  show ?case
  proof (cases "i < MAX_TOOL_ITERATIONS")
    case False
    then show ?thesis by (simp add: mcp_chatStream_loop_stop)
  next
    case True
    show ?thesis
    proof (cases "llm (llmCalls st) (messages st) tools")
      case (Inl e)
      with True show ?thesis by (simp add: mcp_chatStream_loop_throw)
    next
      case (Inr p)
      obtain cs response where p: "p = (cs, response)" by (cases p)
      show ?thesis
      proof (cases "requested response = []")
        case t: True
        with True Inr p show ?thesis
          by (simp add: mcp_chatStream_loop_answer)
      next
        case f: False
        have step: "mcp_chatStream_loop llm exec tools i st =
              mcp_chatStream_loop llm exec tools (i + 1)
                (mcpDispatchStream exec (requested response)
                   (push response (yieldAll cs (called st))))"
          using True Inr p f by (simp add: mcp_chatStream_loop_tools)
        show ?thesis
          using "1.IH"[OF True Inr[unfolded p] refl refl f]
          by (simp add: step)
      qed
    qed
  qed
qed

lemma oneTerminalLast_Done:
  "filter isTerminal cs = [DoneChunk] \<Longrightarrow> last cs = DoneChunk \<Longrightarrow> oneTerminalLast cs"
proof -
  assume a: "filter isTerminal cs = [DoneChunk]" and b: "last cs = DoneChunk"
  from a have "cs \<noteq> []" by auto
  with a b show ?thesis by (simp add: oneTerminalLast_def isTerminal_def)
qed

lemma ChatService_chatStream_terminal:
  "filter isTerminal (chunks (snd (ChatService_chatStream llm exec prompt msg ctx history)))
     = (if isl (fst (ChatService_chatStream llm exec prompt msg ctx history)) then []
        else [DoneChunk]) \<and>
   (\<not> isl (fst (ChatService_chatStream llm exec prompt msg ctx history)) \<longrightarrow>
      last (chunks (snd (ChatService_chatStream llm exec prompt msg ctx history))) = DoneChunk)"
  using chatStream_loop_terminal[of llm exec "getToolsForRole (userRole ctx)" ctx True 0
          "startTurn prompt history msg"]
  by (simp add: ChatService_chatStream_def)

lemma MCPChatService_chatStream_last:
  "\<not> isl (fst (MCPChatService_chatStream llm mcp prompt msg ctx history)) \<longrightarrow>
     chunks (snd (MCPChatService_chatStream llm mcp prompt msg ctx history)) \<noteq> [] \<and>
     last (chunks (snd (MCPChatService_chatStream llm mcp prompt msg ctx history))) = DoneChunk"
  using mcp_chatStream_loop_last[of llm _ _ 0 "startTurn prompt history msg"]
  by (auto simp: MCPChatService_chatStream_def split: sum.splits)

text \<open>
  Claim C2, as the code has it.  The chunk sequence of a streaming turn is finite (the
  loops terminate).  When a turn of \<open>ChatService.chatStream\<close> returns, its sequence
  holds exactly one terminal chunk, \<open>done\<close>, as its last element; when a provider
  call throws, the generator ends with that error and the chunks yielded so far hold no
  terminal chunk: the orchestrator never yields \<open>error\<close>.  When a turn of
  \<open>MCPChatService.chatStream\<close> returns, its sequence ends with \<open>done\<close>.
\<close>

theorem stream_termination:
  "(case fst (ChatService_chatStream llm exec prompt msg ctx history) of
      Inr u \<Rightarrow> oneTerminalLast (chunks (snd (ChatService_chatStream llm exec prompt msg ctx history))) \<and>
              last (chunks (snd (ChatService_chatStream llm exec prompt msg ctx history))) = DoneChunk
    | Inl e \<Rightarrow> filter isTerminal
                (chunks (snd (ChatService_chatStream llm exec prompt msg ctx history))) = []) \<and>
   (case fst (MCPChatService_chatStream llm mcp prompt msg ctx history) of
      Inr u \<Rightarrow> chunks (snd (MCPChatService_chatStream llm mcp prompt msg ctx history)) \<noteq> [] \<and>
              last (chunks (snd (MCPChatService_chatStream llm mcp prompt msg ctx history))) = DoneChunk
    | Inl e \<Rightarrow> True)"
proof
  show "case fst (ChatService_chatStream llm exec prompt msg ctx history) of
      Inr u \<Rightarrow> oneTerminalLast (chunks (snd (ChatService_chatStream llm exec prompt msg ctx history))) \<and>
              last (chunks (snd (ChatService_chatStream llm exec prompt msg ctx history))) = DoneChunk
    | Inl e \<Rightarrow> filter isTerminal
                (chunks (snd (ChatService_chatStream llm exec prompt msg ctx history))) = []"
    using ChatService_chatStream_terminal[of llm exec prompt msg ctx history]
    by (cases "fst (ChatService_chatStream llm exec prompt msg ctx history)")
       (simp_all add: oneTerminalLast_Done)
next
  show "case fst (MCPChatService_chatStream llm mcp prompt msg ctx history) of
      Inr u \<Rightarrow> chunks (snd (MCPChatService_chatStream llm mcp prompt msg ctx history)) \<noteq> [] \<and>
              last (chunks (snd (MCPChatService_chatStream llm mcp prompt msg ctx history))) = DoneChunk
    | Inl e \<Rightarrow> True"
    using MCPChatService_chatStream_last[of llm mcp prompt msg ctx history]
    by (cases "fst (MCPChatService_chatStream llm mcp prompt msg ctx history)") simp_all
qed

theorem stream_termination_witness:
  "oneTerminalLast (chunks (snd (ChatService_chatStream directStream (executeTool stubHandlers 0)
        ''prompt'' ''hello'' customer []))) \<and>
   filter isTerminal (chunks (snd (ChatService_chatStream downStream (executeTool stubHandlers 0)
        ''prompt'' ''hello'' customer []))) = [] \<and>
   last (chunks (snd (MCPChatService_chatStream directStream (Inr connectedManager)
        ''prompt'' ''hello'' customer []))) = DoneChunk"
proof -
  have a: "fst (ChatService_chatStream directStream (executeTool stubHandlers 0)
        ''prompt'' ''hello'' customer []) = Inr ()"
    by (simp add: direct_turn)
  have b: "fst (ChatService_chatStream downStream (executeTool stubHandlers 0)
        ''prompt'' ''hello'' customer []) = Inl (Error ''fetch failed'')"
    by (simp add: down_turn)
  have c: "fst (MCPChatService_chatStream directStream (Inr connectedManager)
        ''prompt'' ''hello'' customer []) = Inr ()"
    by (simp add: mcp_direct_turn)
  show ?thesis
    using stream_termination[of directStream "executeTool stubHandlers 0" "''prompt''"
            "''hello''" customer "[]" "Inr connectedManager"]
          stream_termination[of downStream "executeTool stubHandlers 0" "''prompt''"
            "''hello''" customer "[]" "Inr connectedManager"]
    by (simp add: a b c)
qed

text \<open>
  A turn whose provider call fails yields no terminal chunk at all: the error leaves
  the generator as an exception.
\<close>

theorem failed_turn_no_terminal_counterexample:
  "\<not> oneTerminalLast (chunks (snd (ChatService_chatStream downStream
         (executeTool stubHandlers 0) ''prompt'' ''hello'' customer [])))"
  by (simp add: down_turn oneTerminalLast_def)

text \<open>
  The forwarded \<open>done\<close> of the provider: a turn of \<open>MCPChatService.chatStream\<close> that
  the model answers at once yields \<open>done\<close> twice.
\<close>

lemma MCPChatService_chatStream_done_twice:
  "chunks (snd (MCPChatService_chatStream directStream (Inr connectedManager) ''prompt''
                  ''hello'' customer [])) = [TextChunk ''Hello'', DoneChunk, DoneChunk]"
  by (simp add: MCPChatService_chatStream_def connected_tools mcp_chatStream_loop.simps
        MAX_TOOL_ITERATIONS_def directStream_def requested_def)

lemma streamOnce_ends_with_done:
  "snd (streamOnce now outcome sink) = Inr r \<Longrightarrow> last (fst (streamOnce now outcome sink)) = DoneChunk"
  by (auto simp: streamOnce_def split: prod.splits sum.splits option.splits)

section \<open>Turns that exhaust the iteration cap\<close>

lemma chunks_dispatch_greedy [simp]:
  "chunks (dispatchToolsStream (executeTool stubHandlers 0) customer [greedyCall n] st) =
     chunks st @ [ToolCallChunk (greedyCall n)]"
  by (simp add: chunks_def Let_def greedyCall_def stub_search)

lemma greedy_step:
  "i < 5 \<Longrightarrow>
   chatStream_loop greedyStream (executeTool stubHandlers 0) tools customer True i st =
   chatStream_loop greedyStream (executeTool stubHandlers 0) tools customer True (i + 1)
     (dispatchToolsStream (executeTool stubHandlers 0) customer [greedyCall (llmCalls st)]
        (push (greedyReply (llmCalls st)) (called st)))"
  by (subst chatStream_loop.simps)
     (simp add: MAX_TOOL_ITERATIONS_def greedyStream_def isText_def yieldAll.simps)

lemma map_upt_Suc_shift: "map f [0..<Suc n] = f 0 # map (\<lambda>k. f (Suc k)) [0..<n]"
  by (simp add: upt_conv_Cons map_Suc_upt[symmetric] del: upt_Suc)

lemma greedy_chunks:
  "n = 5 - i \<Longrightarrow> i \<le> 5 \<Longrightarrow>
   chunks (snd (chatStream_loop greedyStream (executeTool stubHandlers 0) tools customer True i st))
     = chunks st @ map (\<lambda>k. ToolCallChunk (greedyCall (llmCalls st + k))) [0..<n] @ [DoneChunk]"
proof (induction n arbitrary: i st)
  case 0
  then have "\<not> (True \<and> i < MAX_TOOL_ITERATIONS)"
    by (simp add: MAX_TOOL_ITERATIONS_def)
  then show ?case
    by (simp add: chatStream_loop_stop)
next
  case (Suc n)
  then have i: "i < 5" and n: "n = 5 - (i + 1)" and le: "i + 1 \<le> 5"
    by simp_all
  let ?st = "dispatchToolsStream (executeTool stubHandlers 0) customer [greedyCall (llmCalls st)]
        (push (greedyReply (llmCalls st)) (called st))"
  show ?case
    using Suc.IH[OF n le, of ?st]
    by (simp add: greedy_step[OF i] map_upt_Suc_shift del: upt_Suc)
qed

lemma mcp_greedy_step:
  "i < 5 \<Longrightarrow>
   mcp_chatStream_loop greedyStream exec tools i st =
   mcp_chatStream_loop greedyStream exec tools (i + 1)
     (mcpDispatchStream exec [greedyCall (llmCalls st)]
        (push (greedyReply (llmCalls st))
           (yieldAll [ToolCallChunk (greedyCall (llmCalls st)), DoneChunk] (called st))))"
  by (subst mcp_chatStream_loop.simps)
     (simp add: MAX_TOOL_ITERATIONS_def greedyStream_def)

lemma mcp_greedy_chunks:
  "n = 5 - i \<Longrightarrow> i \<le> 5 \<Longrightarrow>
   chunks (snd (mcp_chatStream_loop greedyStream exec tools i st))
     = chunks st @
       concat (map (\<lambda>k. [ToolCallChunk (greedyCall (llmCalls st + k)), DoneChunk,
                          ToolResultChunk (greedyCall (llmCalls st + k))
                            (exec (greedyCall (llmCalls st + k)))]) [0..<n]) @
       [DoneChunk]"
proof (induction n arbitrary: i st)
  case 0
  then have "\<not> i < MAX_TOOL_ITERATIONS"
    by (simp add: MAX_TOOL_ITERATIONS_def)
  then show ?case
    by (simp add: mcp_chatStream_loop_stop)
next
  case (Suc n)
  then have i: "i < 5" and n: "n = 5 - (i + 1)" and le: "i + 1 \<le> 5"
    by simp_all
  let ?st = "mcpDispatchStream exec [greedyCall (llmCalls st)]
        (push (greedyReply (llmCalls st))
           (yieldAll [ToolCallChunk (greedyCall (llmCalls st)), DoneChunk] (called st)))"
  have c: "chunks ?st = chunks st @ [ToolCallChunk (greedyCall (llmCalls st)), DoneChunk,
             ToolResultChunk (greedyCall (llmCalls st)) (exec (greedyCall (llmCalls st)))]"
    by (simp add: chunks_def)
  have l: "llmCalls ?st = Suc (llmCalls st)"
    by simp
  show ?case
    using Suc.IH[OF n le, of ?st]
    by (simp add: mcp_greedy_step[OF i] map_upt_Suc_shift c l del: upt_Suc)
qed

text \<open>
  Claim C3 fails on the code.  When the model asks for a tool call in each of its five
  responses, the streamed turn of either service ends with a bare \<open>done\<close>: the
  sequence holds the chunks of the five rounds and no apology text.
\<close>

theorem cap_reached_bare_done:
  "chunks (snd (ChatService_chatStream greedyStream (executeTool stubHandlers 0) ''prompt''
                  ''find me a laptop'' customer [])) =
     [ToolCallChunk (greedyCall 0), ToolCallChunk (greedyCall 1), ToolCallChunk (greedyCall 2),
      ToolCallChunk (greedyCall 3), ToolCallChunk (greedyCall 4), DoneChunk] \<and>
   chunks (snd (MCPChatService_chatStream greedyStream (Inr connectedManager) ''prompt''
                  ''find me a laptop'' customer [])) =
     concat (map (\<lambda>k. [ToolCallChunk (greedyCall k), DoneChunk,
                        ToolResultChunk (greedyCall k) ''[]'']) [0, 1, 2, 3, 4]) @
     [DoneChunk]"
proof -
  have u: "[0..<5] = [0, 1, 2, 3, 4::nat]"
    by (simp add: upt_rec)
  have a: "chunks (snd (ChatService_chatStream greedyStream (executeTool stubHandlers 0) ''prompt''
                  ''find me a laptop'' customer [])) =
     [ToolCallChunk (greedyCall 0), ToolCallChunk (greedyCall 1), ToolCallChunk (greedyCall 2),
      ToolCallChunk (greedyCall 3), ToolCallChunk (greedyCall 4), DoneChunk]"
    using greedy_chunks[of 5 0 "getToolsForRole (userRole customer)"
            "startTurn ''prompt'' [] ''find me a laptop''"] u
    by (simp add: ChatService_chatStream_def)
  have b: "chunks (snd (MCPChatService_chatStream greedyStream (Inr connectedManager) ''prompt''
                  ''find me a laptop'' customer [])) =
     concat (map (\<lambda>k. [ToolCallChunk (greedyCall k), DoneChunk,
                        ToolResultChunk (greedyCall k) ''[]'']) [0, 1, 2, 3, 4]) @
     [DoneChunk]"
    using mcp_greedy_chunks[of 5 0 "executeToolCall connectedManager"
            "[''search_products'', ''get_product_details'']"
            "startTurn ''prompt'' [] ''find me a laptop''"] u
    by (simp add: MCPChatService_chatStream_def connected_tools connected_search)
  from a b show ?thesis by blast
qed

text \<open>The non-streaming \<open>MCPChatService.chat\<close> is the one path that apologises.\<close>

lemma mcp_chat_greedy:
  "n = 5 - i \<Longrightarrow> i \<le> 5 \<Longrightarrow> fst (mcp_chat_loop greedyChat exec tools i st) = Inr apology"
proof (induction n arbitrary: i st)
  case 0
  then have "\<not> i < MAX_TOOL_ITERATIONS"
    by (simp add: MAX_TOOL_ITERATIONS_def)
  then show ?case
    by (simp add: mcp_chat_loop_stop)
next
  case (Suc n)
  then have i: "i < MAX_TOOL_ITERATIONS" and n: "n = 5 - (i + 1)" and le: "i + 1 \<le> 5"
    by (simp_all add: MAX_TOOL_ITERATIONS_def)
  have "mcp_chat_loop greedyChat exec tools i st =
        mcp_chat_loop greedyChat exec tools (i + 1)
          (mcpDispatch exec (requested (greedyReply (llmCalls st)))
             (push (greedyReply (llmCalls st)) (called st)))"
    by (rule mcp_chat_loop_tools[OF i]) (simp_all add: greedyChat_def)
  then show ?case
    using Suc.IH[OF n le] by simp
qed

lemma MCPChatService_chat_apologises:
  "fst (MCPChatService_chat greedyChat (Inr connectedManager) ''prompt'' ''find me a laptop''
          customer []) = Inr apology"
  by (simp add: MCPChatService_chat_def connected_tools mcp_chat_greedy)

section \<open>Every announced tool call is answered\<close>

lemma pendingAfter_append:
  "pendingAfter p (xs @ ys) =
     (case pendingAfter p xs of None \<Rightarrow> None | Some q \<Rightarrow> pendingAfter q ys)"
  by (induction p xs rule: pendingAfter.induct)
     (simp_all split: stream_chunk.splits option.splits)

lemma pendingAfter_Yields:
  "pendingAfter p (map Yield cs) = Some (p + mset (map tc_id (toolCallChunks cs)))"
  by (induction cs arbitrary: p rule: toolCallChunks.induct) simp_all

lemma toolCallChunks_text [simp]: "toolCallChunks (filter isText cs) = []"
  by (induction cs rule: toolCallChunks.induct) (simp_all add: isText_def)

lemma pendingAfter_dispatchStreamEvents:
  "pendingAfter p (dispatchStreamEvents exec ctx tcs) = Some p"
  by (induction tcs arbitrary: p)
     (simp_all add: Let_def toolMessage_def split: option.splits)

lemma pendingAfter_mcpDispatchStreamEvents:
  "pendingAfter (p + mset (map tc_id tcs)) (mcpDispatchStreamEvents exec tcs) = Some p"
  by (induction tcs arbitrary: p) (simp_all add: toolMessage_def)

lemma pendingAfter_step:
  "pendingAfter {#} t = Some {#} \<Longrightarrow> role response = Assistant \<Longrightarrow>
   pendingAfter {#} (t @ [LLMCall] @ map Yield (filter isText cs) @ [Push response] @
                     dispatchStreamEvents exec ctx tcs) = Some {#}"
  by (simp add: pendingAfter_append pendingAfter_Yields pendingAfter_dispatchStreamEvents)

lemma chatStream_loop_discipline:
  "assistantReplies llm \<Longrightarrow> pendingAfter {#} (trace st) = Some {#} \<Longrightarrow>
   pendingAfter {#} (trace (snd (chatStream_loop llm exec tools ctx h i st))) = Some {#}"
proof (induction llm exec tools ctx h i st rule: chatStream_loop.induct)
  case (1 llm exec tools ctx h i st)
  show ?case
  proof (cases "h \<and> i < MAX_TOOL_ITERATIONS")
    case False
    then show ?thesis
      using "1.prems"(2) by (simp add: chatStream_loop_stop pendingAfter_append)
  next
    case True
    show ?thesis
    proof (cases "llm (llmCalls st) (messages st) tools")
      case (Inl e)
      with True show ?thesis
        using "1.prems"(2) by (simp add: chatStream_loop_throw pendingAfter_append)
    next
      case (Inr p)
      obtain cs response where p: "p = (cs, response)" by (cases p)
      have r: "role response = Assistant"
        using "1.prems"(1) Inr p by (auto simp: assistantReplies_def)
      show ?thesis
      proof (cases "requested response \<noteq> []")
        case t: True
        have step: "chatStream_loop llm exec tools ctx h i st =
              chatStream_loop llm exec tools ctx True (i + 1)
                (dispatchToolsStream exec ctx (requested response)
                   (push response (yieldAll (filter isText cs) (called st))))"
          using True Inr p t by (simp add: chatStream_loop_tools)
        have "pendingAfter {#} (trace (dispatchToolsStream exec ctx (requested response)
                   (push response (yieldAll (filter isText cs) (called st))))) = Some {#}"
          using pendingAfter_step[OF "1.prems"(2) r] by simp
        then show ?thesis
          using "1.IH"(1)[OF True Inr[unfolded p] refl refl t "1.prems"(1)]
          by (simp add: step)
      next
        case f: False
        have step: "chatStream_loop llm exec tools ctx h i st =
              chatStream_loop llm exec tools ctx False (i + 1)
                (yieldAll (filter isText cs) (called st))"
          using True Inr p f by (simp add: chatStream_loop_answer)
        have "pendingAfter {#} (trace (yieldAll (filter isText cs) (called st))) = Some {#}"
          using "1.prems"(2) by (simp add: pendingAfter_append pendingAfter_Yields)
        then show ?thesis
          using "1.IH"(2)[OF True Inr[unfolded p] refl refl f "1.prems"(1)]
          by (simp add: step)
      qed
    qed
  qed
qed

lemma mcp_chatStream_loop_discipline:
  "assistantReplies llm \<Longrightarrow> announcesCalls llm \<Longrightarrow> pendingAfter {#} (trace st) = Some {#} \<Longrightarrow>
   pendingAfter {#} (trace (snd (mcp_chatStream_loop llm exec tools i st))) = Some {#}"
proof (induction llm exec tools i st rule: mcp_chatStream_loop.induct)
  case (1 llm exec tools i st)
  show ?case
  proof (cases "i < MAX_TOOL_ITERATIONS")
    case False
    then show ?thesis
      using "1.prems"(3) by (simp add: mcp_chatStream_loop_stop pendingAfter_append)
  next
    case True
    show ?thesis
    proof (cases "llm (llmCalls st) (messages st) tools")
      case (Inl e)
      with True show ?thesis
        using "1.prems"(3) by (simp add: mcp_chatStream_loop_throw pendingAfter_append)
    next
      case (Inr p)
      obtain cs response where p: "p = (cs, response)" by (cases p)
      have r: "role response = Assistant"
        using "1.prems"(1) Inr p by (auto simp: assistantReplies_def)
      have a: "toolCallChunks cs = requested response"
        using "1.prems"(2) Inr p by (auto simp: announcesCalls_def)
      show ?thesis
      proof (cases "requested response = []")
        case t: True
        with True Inr p a r show ?thesis
          using "1.prems"(3)
          by (simp add: mcp_chatStream_loop_answer pendingAfter_append pendingAfter_Yields)
      next
        case f: False
        have step: "mcp_chatStream_loop llm exec tools i st =
              mcp_chatStream_loop llm exec tools (i + 1)
                (mcpDispatchStream exec (requested response)
                   (push response (yieldAll cs (called st))))"
          using True Inr p f by (simp add: mcp_chatStream_loop_tools)
        have "pendingAfter {#} (trace (mcpDispatchStream exec (requested response)
                   (push response (yieldAll cs (called st))))) = Some {#}"
          using "1.prems"(3) r a
                pendingAfter_mcpDispatchStreamEvents[of "{#}" "requested response" exec]
          by (simp add: pendingAfter_append pendingAfter_Yields)
        then show ?thesis
          using "1.IH"[OF True Inr[unfolded p] refl refl f "1.prems"(1,2)]
          by (simp add: step)
      qed
    qed
  qed
qed


lemma pushedIn_append [simp]: "pushedIn (xs @ ys) = pushedIn xs @ pushedIn ys"
  by (induction xs rule: pushedIn.induct) simp_all

lemma pushedIn_Yields [simp]: "pushedIn (map Yield cs) = []"
  by (induction cs) simp_all

lemma messages_dispatchToolsStream:
  "messages (dispatchToolsStream exec ctx tcs st) =
     messages st @ pushedIn (dispatchStreamEvents exec ctx tcs)"
  by (induction tcs arbitrary: st)
     (simp_all add: dispatchToolsStream.simps Let_def split: option.splits)

lemma messages_mcpDispatchStream:
  "messages (mcpDispatchStream exec tcs st) =
     messages st @ pushedIn (mcpDispatchStreamEvents exec tcs)"
  by (induction tcs arbitrary: st) (simp_all add: mcpDispatchStream.simps Let_def)

lemma chatStream_loop_transcript:
  "messages st = base @ pushedIn (trace st) \<Longrightarrow>
   messages (snd (chatStream_loop llm exec tools ctx h i st))
     = base @ pushedIn (trace (snd (chatStream_loop llm exec tools ctx h i st)))"
proof (induction llm exec tools ctx h i st rule: chatStream_loop.induct)
  case (1 llm exec tools ctx h i st)
  show ?case
  proof (cases "h \<and> i < MAX_TOOL_ITERATIONS")
    case False
    then show ?thesis
      using "1.prems" by (simp add: chatStream_loop_stop)
  next
    case True
    show ?thesis
    proof (cases "llm (llmCalls st) (messages st) tools")
      case (Inl e)
      with True show ?thesis
        using "1.prems" by (simp add: chatStream_loop_throw)
    next
      case (Inr p)
      obtain cs response where p: "p = (cs, response)" by (cases p)
      show ?thesis
      proof (cases "requested response \<noteq> []")
        case t: True
        have step: "chatStream_loop llm exec tools ctx h i st =
              chatStream_loop llm exec tools ctx True (i + 1)
                (dispatchToolsStream exec ctx (requested response)
                   (push response (yieldAll (filter isText cs) (called st))))"
          using True Inr p t by (simp add: chatStream_loop_tools)
        show ?thesis
          using "1.IH"(1)[OF True Inr[unfolded p] refl refl t] "1.prems"
          by (simp add: step messages_dispatchToolsStream)
      next
        case f: False
        have step: "chatStream_loop llm exec tools ctx h i st =
              chatStream_loop llm exec tools ctx False (i + 1)
                (yieldAll (filter isText cs) (called st))"
          using True Inr p f by (simp add: chatStream_loop_answer)
        show ?thesis
          using "1.IH"(2)[OF True Inr[unfolded p] refl refl f] "1.prems"
          by (simp add: step)
      qed
    qed
  qed
qed

lemma mcp_chatStream_loop_transcript:
  "messages st = base @ pushedIn (trace st) \<Longrightarrow>
   messages (snd (mcp_chatStream_loop llm exec tools i st))
     = base @ pushedIn (trace (snd (mcp_chatStream_loop llm exec tools i st)))"
proof (induction llm exec tools i st rule: mcp_chatStream_loop.induct)
  case (1 llm exec tools i st)
  show ?case
  proof (cases "i < MAX_TOOL_ITERATIONS")
    case False
    then show ?thesis
      using "1.prems" by (simp add: mcp_chatStream_loop_stop)
  next
    case True
    show ?thesis
    proof (cases "llm (llmCalls st) (messages st) tools")
      case (Inl e)
      with True show ?thesis
        using "1.prems" by (simp add: mcp_chatStream_loop_throw)
    next
      case (Inr p)
      obtain cs response where p: "p = (cs, response)" by (cases p)
      show ?thesis
      proof (cases "requested response = []")
        case t: True
        with True Inr p show ?thesis
          using "1.prems" by (simp add: mcp_chatStream_loop_answer)
      next
        case f: False
        have step: "mcp_chatStream_loop llm exec tools i st =
              mcp_chatStream_loop llm exec tools (i + 1)
                (mcpDispatchStream exec (requested response)
                   (push response (yieldAll cs (called st))))"
          using True Inr p f by (simp add: mcp_chatStream_loop_tools)
        show ?thesis
          using "1.IH"[OF True Inr[unfolded p] refl refl f] "1.prems"
          by (simp add: step messages_mcpDispatchStream)
      qed
    qed
  qed
qed

lemma ChatService_chatStream_transcript:
  "messages (snd (ChatService_chatStream llm exec prompt msg ctx history)) =
     messages (startTurn prompt history msg) @
     pushedIn (trace (snd (ChatService_chatStream llm exec prompt msg ctx history)))"
  unfolding ChatService_chatStream_def
  by (rule chatStream_loop_transcript) simp

lemma MCPChatService_chatStream_transcript:
  "trace (snd (MCPChatService_chatStream llm mcp prompt msg ctx history)) = [] \<or>
   messages (snd (MCPChatService_chatStream llm mcp prompt msg ctx history)) =
     messages (startTurn prompt history msg) @
     pushedIn (trace (snd (MCPChatService_chatStream llm mcp prompt msg ctx history)))"
proof (cases mcp)
  case (Inl e)
  then show ?thesis by (simp add: MCPChatService_chatStream_def noTurn_def)
next
  case (Inr m)
  show ?thesis
  proof (cases "getAllTools m (userRole ctx = Admin)")
    case (Inl e)
    with Inr show ?thesis by (simp add: MCPChatService_chatStream_def noTurn_def)
  next
    case tools: (Inr tools)
    have "messages (snd (mcp_chatStream_loop llm (executeToolCall m) tools 0
                      (startTurn prompt history msg))) =
          messages (startTurn prompt history msg) @
          pushedIn (trace (snd (mcp_chatStream_loop llm (executeToolCall m) tools 0
                      (startTurn prompt history msg))))"
      by (rule mcp_chatStream_loop_transcript) simp
    with Inr tools show ?thesis by (simp add: MCPChatService_chatStream_def)
  qed
qed

text \<open>The loops of the Gemini adapter: the calls built are the calls announced.\<close>

lemma addCalls_announces:
  "toolCallChunks emitted = calls \<Longrightarrow>
   toolCallChunks (snd (addCalls now fcs (calls, emitted))) = fst (addCalls now fcs (calls, emitted))"
proof (induction fcs arbitrary: calls emitted)
  case Nil
  then show ?case by simp
next
  case (Cons fc fcs)
  obtain fc_name fc_args where fc: "fc = (fc_name, fc_args)" by (cases fc)
  have t: "toolCallChunks (xs @ [ToolCallChunk c]) = toolCallChunks xs @ [c]" for xs c
    by (induction xs rule: toolCallChunks.induct) simp_all
  show ?case
    unfolding fc using Cons.prems
    by (simp add: Let_def Cons.IH t)
qed

lemma toolCallChunks_snoc_text [simp]:
  "toolCallChunks (xs @ [TextChunk t]) = toolCallChunks xs"
  "toolCallChunks (xs @ [DoneChunk]) = toolCallChunks xs"
  by (induction xs rule: toolCallChunks.induct) simp_all

lemma consume_announces:
  "toolCallChunks emitted = calls \<Longrightarrow>
   toolCallChunks (snd (snd (consume now stream (fullContent, calls, emitted)))) =
     fst (snd (consume now stream (fullContent, calls, emitted)))"
proof (induction stream arbitrary: fullContent calls emitted)
  case Nil
  then show ?case by simp
next
  case (Cons chunk stream)
  define f1 where "f1 = (if chunk_text chunk \<noteq> [] then fullContent @ chunk_text chunk
                         else fullContent)"
  define e1 where "e1 = (if chunk_text chunk \<noteq> [] then emitted @ [TextChunk (chunk_text chunk)]
                         else emitted)"
  define ce where "ce = (case chunk_functionCalls chunk of
                           None \<Rightarrow> (calls, e1)
                         | Some fcs \<Rightarrow> addCalls now fcs (calls, e1))"
  have e1: "toolCallChunks e1 = calls"
    using Cons.prems by (simp add: e1_def)
  have ce: "toolCallChunks (snd ce) = fst ce"
  proof (cases "chunk_functionCalls chunk")
    case None
    then show ?thesis by (simp add: ce_def e1)
  next
    case (Some fcs)
    then show ?thesis
      using addCalls_announces[OF e1, of now fcs] by (simp add: ce_def)
  qed
  have step: "consume now (chunk # stream) (fullContent, calls, emitted) =
              consume now stream (f1, fst ce, snd ce)"
    by (cases "chunk_text chunk = []")
       (simp_all add: Let_def f1_def e1_def ce_def split: prod.splits option.splits)
  show ?case
    unfolding step by (rule Cons.IH[OF ce])
qed

lemma streamOnce_wellformed:
  "streamOnce now outcome [] = (cs, Inr r) \<Longrightarrow>
   role r = Assistant \<and> toolCallChunks cs = requested r"
proof -
  assume h: "streamOnce now outcome [] = (cs, Inr r)"
  then obtain stream where o: "outcome = Inr stream"
    by (cases outcome) (simp_all add: streamOnce_def)
  show ?thesis
    using h consume_announces[of "[]" "[]" now "delivered stream" "[]"]
    by (auto simp: o streamOnce_def requested_def split: prod.splits if_splits option.splits)
qed

lemma streamOnce_role:
  "snd (streamOnce now outcome sink) = Inr r \<Longrightarrow> role r = Assistant"
  by (auto simp: streamOnce_def split: prod.splits sum.splits option.splits)

lemma streamOnce_failure:
  "streamOnce now outcome sink = (s1, Inl e) \<Longrightarrow>
   (\<forall>stream. outcome = Inr stream \<longrightarrow> failure stream = None) \<Longrightarrow> s1 = sink"
  by (auto simp: streamOnce_def split: prod.splits sum.splits option.splits)

text \<open>What \<open>withRetry\<close> returns is what one of its attempts returned.\<close>

lemma withRetry_loop_success:
  "withRetry_loop operation attempt lastError slept s = (sl, s2, Inr v) \<Longrightarrow>
   \<exists>k s1. operation k s1 = (s2, Inr v) \<and>
           ((\<forall>j t t1 e. operation j t = (t1, Inl e) \<longrightarrow> t1 = t) \<longrightarrow> s1 = s)"
proof (induction operation attempt lastError slept s rule: withRetry_loop.induct)
  case (1 operation attempt lastError slept s)
  show ?case
  proof (cases "attempt < MAX_RETRIES")
    case False
    with "1.prems" show ?thesis
      by (subst (asm) withRetry_loop.simps) simp
  next
    case True
    obtain s1 res where op: "operation attempt s = (s1, res)"
      by (cases "operation attempt s")
    show ?thesis
    proof (cases res)
      case (Inr w)
      with True op "1.prems" have "operation attempt s = (s2, Inr v)"
        by (subst (asm) withRetry_loop.simps) simp
      then show ?thesis by blast
    next
      case (Inl error)
      show ?thesis
      proof (cases "onError attempt error")
        case (Retry ms)
        have "withRetry_loop operation (attempt + 1) (Some error) (slept @ [ms]) s1 =
                (sl, s2, Inr v)"
          using "1.prems" True op Inl Retry by (subst (asm) withRetry_loop.simps) simp
        from "1.IH"[OF True op[symmetric] Inl Retry this]
        obtain k t where k: "operation k t = (s2, Inr v)"
          "(\<forall>j t t1 e. operation j t = (t1, Inl e) \<longrightarrow> t1 = t) \<longrightarrow> t = s1"
          by blast
        have "(\<forall>j t t1 e. operation j t = (t1, Inl e) \<longrightarrow> t1 = t) \<longrightarrow> t = s"
          using k(2) op Inl by blast
        with k(1) show ?thesis by blast
      next
        case (Rethrow e)
        with True op Inl "1.prems" show ?thesis
          by (subst (asm) withRetry_loop.simps) simp
      qed
    qed
  qed
qed

text \<open>
  The Gemini adapter always returns an assistant message.  The \<open>tool_call\<close> chunks
  that \<open>onChunk\<close> received are the calls of that message as long as no stream of the
  backend breaks off: then a failed attempt has handed over nothing.
\<close>

lemma geminiStream_assistantReplies: "assistantReplies (geminiStream now backend)"
proof -
  have "role r = Assistant"
    if "geminiStream now backend n ms ts = Inr (cs, r)" for n ms ts cs r
  proof -
    from that obtain sl where
      "withRetry_loop (\<lambda>attempt. streamOnce (now attempt) (backend n ms ts attempt)) 0 None [] []
         = (sl, cs, Inr r)"
      unfolding geminiStream_def GeminiProvider_chatStream_def withRetry_def
      by (auto split: prod.splits sum.splits)
    from withRetry_loop_success[OF this]
    obtain k s1 where "streamOnce (now k) (backend n ms ts k) s1 = (cs, Inr r)"
      by blast
    then show ?thesis
      using streamOnce_role[of "now k" "backend n ms ts k" s1 r] by simp
  qed
  then show ?thesis
    unfolding assistantReplies_def by blast
qed

lemma geminiStream_wellformed:
  assumes "\<forall>n ms ts k stream. backend n ms ts k = Inr stream \<longrightarrow> failure stream = None"
  shows "announcesCalls (geminiStream now backend)"
proof -
  have "toolCallChunks cs = requested r"
    if "geminiStream now backend n ms ts = Inr (cs, r)" for n ms ts cs r
  proof -
    let ?op = "\<lambda>attempt. streamOnce (now attempt) (backend n ms ts attempt)"
    from that obtain sl where "withRetry_loop ?op 0 None [] [] = (sl, cs, Inr r)"
      unfolding geminiStream_def GeminiProvider_chatStream_def withRetry_def
      by (auto split: prod.splits sum.splits)
    from withRetry_loop_success[OF this]
    obtain k s1 where k: "?op k s1 = (cs, Inr r)"
      "(\<forall>j t t1 e. ?op j t = (t1, Inl e) \<longrightarrow> t1 = t) \<longrightarrow> s1 = []"
      by blast
    have "\<forall>j t t1 e. ?op j t = (t1, Inl e) \<longrightarrow> t1 = t"
      using assms streamOnce_failure by blast
    with k have "streamOnce (now k) (backend n ms ts k) [] = (cs, Inr r)"
      by simp
    then show ?thesis
      using streamOnce_wellformed by blast
  qed
  then show ?thesis
    unfolding announcesCalls_def by blast
qed

text \<open>The OpenAI adapter keeps both promises.\<close>

lemma toolCallChunks_snoc_call:
  "toolCallChunks (xs @ [ToolCallChunk c]) = toolCallChunks xs @ [c]"
  by (induction xs rule: toolCallChunks.induct) simp_all

lemma consumeDeltas_no_calls:
  "toolCallChunks emitted = [] \<Longrightarrow>
   toolCallChunks (fst (snd (consumeDeltas stream (fullContent, emitted, buffers)))) = []"
proof (induction stream arbitrary: fullContent emitted buffers)
  case Nil
  then show ?case by simp
next
  case (Cons chunk stream)
  show ?case
  proof (cases "delta_content chunk = []")
    case True
    then show ?thesis
      using Cons.IH[OF Cons.prems] by (simp add: Let_def)
  next
    case False
    have "toolCallChunks (emitted @ [TextChunk (delta_content chunk)]) = []"
      using Cons.prems by simp
    then show ?thesis
      using False Cons.IH by (simp add: Let_def)
  qed
qed

lemma finishCalls_announces:
  "finishCalls parseArgs bs (calls, emitted) = Inr (calls', emitted') \<Longrightarrow>
   toolCallChunks emitted = tcs @ calls \<Longrightarrow> toolCallChunks emitted' = tcs @ calls'"
proof (induction bs arbitrary: calls emitted)
  case Nil
  then show ?case by simp
next
  case (Cons b bs)
  show ?case
  proof (cases "buf_id b \<noteq> [] \<and> buf_name b \<noteq> []")
    case False
    then show ?thesis
      using Cons.prems Cons.IH[of calls emitted] by auto
  next
    case True
    then obtain a where
      a: "(if buf_arguments b \<noteq> [] then parseArgs (buf_arguments b) else Inr []) = Inr a"
      using Cons.prems(1) by (cases "if buf_arguments b \<noteq> [] then parseArgs (buf_arguments b) else Inr []") auto
    let ?tc = "\<lparr>tc_id = buf_id b, tc_name = buf_name b, tc_arguments = a\<rparr>"
    have "finishCalls parseArgs bs (calls @ [?tc], emitted @ [ToolCallChunk ?tc]) = Inr (calls', emitted')"
      using Cons.prems(1) True a by (simp add: Let_def)
    moreover have "toolCallChunks (emitted @ [ToolCallChunk ?tc]) = tcs @ (calls @ [?tc])"
      using Cons.prems(2) by (simp add: toolCallChunks_snoc_call)
    ultimately show ?thesis
      by (rule Cons.IH)
  qed
qed

lemma openaiStream_wellformed:
  "assistantReplies (openaiStream parseArgs backend) \<and>
   announcesCalls (openaiStream parseArgs backend)"
proof -
  have "role r = Assistant \<and> toolCallChunks cs = requested r"
    if h: "openaiStream parseArgs backend n ms ts = Inr (cs, r)" for n ms ts cs r
  proof -
    from h obtain stream where s: "backend n ms ts = Inr stream"
      by (cases "backend n ms ts") (auto simp: openaiStream_def OpenAIProvider_chatStream_def)
    obtain fullContent emitted buffers where
      c: "consumeDeltas stream ([], [], []) = (fullContent, emitted, buffers)"
      by (cases "consumeDeltas stream ([], [], [])")
    have e: "toolCallChunks emitted = []"
      using consumeDeltas_no_calls[of "[]" stream "[]" "[]"] c by simp
    from h s c obtain calls emitted1 where
      f: "finishCalls parseArgs (map snd buffers) ([], emitted) = Inr (calls, emitted1)"
      and cs: "cs = emitted1 @ [DoneChunk]"
      and r: "r = \<lparr>role = Assistant, content = fullContent, toolCallId = None,
                  toolCalls = (if calls \<noteq> [] then Some calls else None)\<rparr>"
      by (auto simp: openaiStream_def OpenAIProvider_chatStream_def split: sum.splits)
    have "toolCallChunks emitted1 = calls"
      using finishCalls_announces[OF f, of "[]"] e by simp
    then show ?thesis
      by (simp add: cs r requested_def)
  qed
  then show ?thesis
    unfolding assistantReplies_def announcesCalls_def by blast
qed


lemma greedyStream_wellformed: "assistantReplies greedyStream \<and> announcesCalls greedyStream"
  by (simp add: assistantReplies_def announcesCalls_def greedyStream_def greedyReply_def
        requested_def)

lemma discipline_counts:
  "pendingAfter p t = Some q \<Longrightarrow> p + mset (announcedIds t) = q + mset (answeredIds t)"
proof (induction p t arbitrary: q rule: pendingAfter.induct)
  case (1 p)
  then show ?case by simp
next
  case (2 p es)
  then show ?case by (simp split: if_splits)
next
  case (3 p c es)
  then show ?case by (cases c) simp_all
next
  case (4 p m es)
  show ?case
  proof (cases "role m = Tool")
    case False
    with 4 show ?thesis by simp
  next
    case True
    with "4.prems" obtain i where i: "toolCallId m = Some i" "i \<in># p"
      by (auto split: option.splits if_splits)
    with True "4.prems" have "pendingAfter (p - {#i#}) es = Some q" by simp
    from "4.IH"(1)[OF True i(1) i(2) this]
    have "p - {#i#} + mset (announcedIds es) = q + mset (answeredIds es)" .
    then have "add_mset i (p - {#i#}) + mset (announcedIds es) = add_mset i (q + mset (answeredIds es))"
      by simp
    with i True show ?thesis
      by simp
  qed
qed


text \<open>
  What holds of the two streaming services.  The log of a turn keeps the tool-call
  discipline and ends with nothing pending, the ids announced and the ids answered are
  the same multiset, and the messages the log shows as appended are the ones the
  transcript grew by: for \<open>ChatService.chatStream\<close>, which emits the \<open>tool_call\<close>
  chunks itself, with every provider that returns assistant messages; for
  \<open>MCPChatService.chatStream\<close>, which forwards the chunks that \<open>onChunk\<close> received,
  with every provider whose \<open>tool_call\<close> chunks are the calls of the message it
  returns.
\<close>

lemma tool_call_discipline:
  "(assistantReplies llm \<longrightarrow>
      pendingAfter {#} (trace (snd (ChatService_chatStream llm exec prompt msg ctx history)))
        = Some {#} \<and>
      mset (announcedIds (trace (snd (ChatService_chatStream llm exec prompt msg ctx history)))) =
        mset (answeredIds (trace (snd (ChatService_chatStream llm exec prompt msg ctx history)))) \<and>
      messages (snd (ChatService_chatStream llm exec prompt msg ctx history)) =
        messages (startTurn prompt history msg) @
        pushedIn (trace (snd (ChatService_chatStream llm exec prompt msg ctx history)))) \<and>
   (assistantReplies llm \<and> announcesCalls llm \<longrightarrow>
      pendingAfter {#} (trace (snd (MCPChatService_chatStream llm mcp prompt msg ctx history)))
        = Some {#} \<and>
      mset (announcedIds (trace (snd (MCPChatService_chatStream llm mcp prompt msg ctx history)))) =
        mset (answeredIds (trace (snd (MCPChatService_chatStream llm mcp prompt msg ctx history)))) \<and>
      (trace (snd (MCPChatService_chatStream llm mcp prompt msg ctx history)) = [] \<or>
       messages (snd (MCPChatService_chatStream llm mcp prompt msg ctx history)) =
         messages (startTurn prompt history msg) @
         pushedIn (trace (snd (MCPChatService_chatStream llm mcp prompt msg ctx history)))))"
proof (intro conjI impI)
  assume "assistantReplies llm"
  then show a: "pendingAfter {#}
        (trace (snd (ChatService_chatStream llm exec prompt msg ctx history))) = Some {#}"
    by (simp add: ChatService_chatStream_def chatStream_loop_discipline)
  show "mset (announcedIds (trace (snd (ChatService_chatStream llm exec prompt msg ctx history)))) =
        mset (answeredIds (trace (snd (ChatService_chatStream llm exec prompt msg ctx history))))"
    using discipline_counts[OF a] by simp
next
  show "messages (snd (ChatService_chatStream llm exec prompt msg ctx history)) =
        messages (startTurn prompt history msg) @
        pushedIn (trace (snd (ChatService_chatStream llm exec prompt msg ctx history)))"
    by (rule ChatService_chatStream_transcript)
next
  assume "assistantReplies llm \<and> announcesCalls llm"
  then show b: "pendingAfter {#}
        (trace (snd (MCPChatService_chatStream llm mcp prompt msg ctx history))) = Some {#}"
    by (auto simp: MCPChatService_chatStream_def mcp_chatStream_loop_discipline noTurn_def
             split: sum.splits)
  show "mset (announcedIds (trace (snd (MCPChatService_chatStream llm mcp prompt msg ctx history)))) =
        mset (answeredIds (trace (snd (MCPChatService_chatStream llm mcp prompt msg ctx history))))"
    using discipline_counts[OF b] by simp
next
  show "trace (snd (MCPChatService_chatStream llm mcp prompt msg ctx history)) = [] \<or>
       messages (snd (MCPChatService_chatStream llm mcp prompt msg ctx history)) =
         messages (startTurn prompt history msg) @
         pushedIn (trace (snd (MCPChatService_chatStream llm mcp prompt msg ctx history)))"
    by (rule MCPChatService_chatStream_transcript)
qed

lemma tool_call_discipline_greedy:
  "pendingAfter {#} (trace (snd (ChatService_chatStream greedyStream (executeTool stubHandlers 0)
       ''prompt'' ''find me a laptop'' customer []))) = Some {#} \<and>
   pendingAfter {#} (trace (snd (MCPChatService_chatStream greedyStream (Inr connectedManager)
       ''prompt'' ''find me a laptop'' customer []))) = Some {#}"
  using tool_call_discipline[of greedyStream "executeTool stubHandlers 0" "''prompt''"
          "''find me a laptop''" customer "[]" "Inr connectedManager"]
        greedyStream_wellformed
  by blast

section \<open>A stream that is retried leaves a tool call without an answer\<close>

lemma showDigits_unfold:
  "showDigits fuel n =
     (if fuel = 0 then []
      else if n < 10 then [''0123456789'' ! n]
      else showDigits (fuel - 1) (n div 10) @ [''0123456789'' ! (n mod 10)])"
  by (cases fuel) simp_all

lemma showNat_clock: "showNat 1000 = ''1000''" "showNat 2500 = ''2500''" "showNat 0 = ''0''"
  by (simp_all add: showNat_def showDigits_unfold)

text \<open>
  The first attempt hands its \<open>tool_call\<close> chunk to \<open>onChunk\<close> and fails; the error is
  a rate limit, so \<open>withRetry\<close> sleeps and runs the operation again; the second
  attempt adds its chunks to the ones received before.
\<close>

lemma attempt_0:
  "streamOnce (risingClock 0) (retriedBackend 0 ms ts 0) [] =
     ([ToolCallChunk staleCall], Inl rateLimited)"
  by (simp add: streamOnce_def retriedBackend_def searchChunk_def risingClock_def staleCall_def
        showNat_clock Let_def)

lemma attempt_1:
  "streamOnce (risingClock (Suc 0)) (retriedBackend 0 ms ts (Suc 0)) [ToolCallChunk staleCall] =
     ([ToolCallChunk staleCall, ToolCallChunk freshCall, DoneChunk],
      Inr \<lparr>role = Assistant, content = [], toolCallId = None, toolCalls = Some [freshCall]\<rparr>)"
  by (simp add: streamOnce_def retriedBackend_def searchChunk_def risingClock_def freshCall_def
        showNat_clock Let_def)

lemma retry_rateLimited: "onError 0 rateLimited = Retry 1000"
proof -
  have "retryMatch ''Too Many Requests'' = None"
    by (simp add: matchHere_def ciStartsWith_def toLowerCase_def toLowerChar_def)
  then show ?thesis
    by (simp add: onError_def isRateLimited_def rateLimited_def MAX_RETRIES_def retryDelay_def
          INITIAL_RETRY_DELAY_MS_def)
qed

lemma first_call:
  "geminiStream risingClock retriedBackend 0 ms ts =
     Inr ([ToolCallChunk staleCall, ToolCallChunk freshCall, DoneChunk],
          \<lparr>role = Assistant, content = [], toolCallId = None, toolCalls = Some [freshCall]\<rparr>)"
  by (simp add: geminiStream_def GeminiProvider_chatStream_def withRetry_def
        withRetry_loop.simps[of _ 0] withRetry_loop.simps[of _ "Suc 0"] MAX_RETRIES_def
        attempt_0 attempt_1 retry_rateLimited)

lemma second_call:
  "geminiStream risingClock retriedBackend (Suc 0) ms ts =
     Inr ([TextChunk ''Nothing found'', DoneChunk],
          \<lparr>role = Assistant, content = ''Nothing found'', toolCallId = None, toolCalls = None\<rparr>)"
  by (simp add: geminiStream_def GeminiProvider_chatStream_def withRetry_def
        withRetry_loop.simps[of _ 0] MAX_RETRIES_def streamOnce_def retriedBackend_def
        answerChunk_def Let_def)

lemma fresh_search: "executeToolCall connectedManager freshCall = ''[]''"
  by (simp add: executeToolCall_def callTool_def connectedManager_eq freshCall_def
        productsClient_def extractText_def)

lemma retried_trace:
  "trace retriedTurn =
     [LLMCall,
      Yield (ToolCallChunk staleCall), Yield (ToolCallChunk freshCall), Yield DoneChunk,
      Push \<lparr>role = Assistant, content = [], toolCallId = None, toolCalls = Some [freshCall]\<rparr>,
      Yield (ToolResultChunk freshCall ''[]''),
      Push (toolMessage ''[]'' (tc_id freshCall)),
      LLMCall,
      Yield (TextChunk ''Nothing found''), Yield DoneChunk, Yield DoneChunk]"
  by (simp add: retriedTurn_def MCPChatService_chatStream_def connected_tools
        mcp_chatStream_loop.simps[of _ _ _ 0] mcp_chatStream_loop.simps[of _ _ _ "Suc 0"]
        MAX_TOOL_ITERATIONS_def first_call second_call requested_def fresh_search
        startTurn_def called_def yield_def push_def llmCalls_def
        yieldAll.simps mcpDispatchStream.simps Let_def)

text \<open>
  Claim C5 fails on the code.  In the streamed turn of \<open>MCPChatService\<close> over a Gemini
  stream that broke off and was retried, two \<open>tool_call\<close> chunks are emitted, the one
  of the abandoned attempt and the one of the attempt that succeeded, and the single
  tool-role message appended to the transcript carries the id of the second.  The first
  \<open>tool_call\<close> chunk has no tool-role message when the next provider call is issued,
  nor later: the log breaks the tool-call discipline.
\<close>

theorem stale_tool_call_unanswered:
  "chunks retriedTurn =
     [ToolCallChunk staleCall, ToolCallChunk freshCall, DoneChunk,
      ToolResultChunk freshCall ''[]'', TextChunk ''Nothing found'', DoneChunk, DoneChunk] \<and>
   filter (\<lambda>m. role m = Tool) (pushedIn (trace retriedTurn)) =
     [toolMessage ''[]'' (tc_id freshCall)] \<and>
   tc_id staleCall \<noteq> tc_id freshCall \<and>
   pendingAfter {#} (trace retriedTurn) = None"
  by (simp add: chunks_def retried_trace toolMessage_def staleCall_def freshCall_def)

text \<open>
  \<open>ChatService.chatStream\<close> passes on the text chunks only and emits a \<open>tool_call\<close>
  chunk for each call of the message returned, so over the same backend its log keeps
  the discipline.
\<close>

lemma retried_ChatService:
  "pendingAfter {#} (trace (snd (ChatService_chatStream (geminiStream risingClock retriedBackend)
       (executeTool stubHandlers 0) ''prompt'' ''find me a lamp'' customer []))) = Some {#}"
  using geminiStream_assistantReplies
  by (simp add: ChatService_chatStream_def chatStream_loop_discipline)

section \<open>Calling a tool after the gateway was disconnected\<close>

text \<open>
  Claim C7, as the code has it.  \<open>disconnectAll\<close> clears the connections and the
  tool index alike, so a later \<open>callTool\<close>, whatever the tool name, fails with
  \<open>Unknown tool: <name>\<close>; it never succeeds against stale state, and through
  \<open>executeToolCall\<close> the orchestrator receives that failure as a JSON error payload.
\<close>

theorem callTool_after_disconnectAll:
  "callTool (snd (disconnectAll m)) toolName args = Inl (Error (''Unknown tool: '' @ toolName)) \<and>
   executeToolCall (snd (disconnectAll m)) toolCall = jsonError (''Unknown tool: '' @ tc_name toolCall) \<and>
   connections (snd (disconnectAll m)) = [] \<and> toolToServer (snd (disconnectAll m)) = []"
  by (simp add: disconnectAll_def callTool_def executeToolCall_def Error_def)

lemma connected_call:
  "callTool connectedManager ''search_products'' [] = Inr ''[]''"
  by (simp add: callTool_def connectedManager_eq productsClient_def extractText_def)

theorem callTool_after_disconnectAll_witness:
  "callTool connectedManager ''search_products'' [] = Inr ''[]'' \<and>
   callTool (snd (disconnectAll connectedManager)) ''search_products'' [] =
     Inl (Error ''Unknown tool: search_products'')"
  using callTool_after_disconnectAll[of connectedManager "''search_products''" "[]"]
        connected_call
  by simp

text \<open>
  The tool was served before the disconnect, and the failure afterwards is not
  \<open>Server not connected\<close>.
\<close>

theorem disconnected_not_server_not_connected_counterexample:
  "map_of (toolToServer connectedManager) ''search_products'' = Some ''products'' \<and>
   \<not> serverNotConnected (callTool (snd (disconnectAll connectedManager)) ''search_products'' [])"
  by (simp add: connectedManager_eq disconnectAll_def callTool_def serverNotConnected_def
        Error_def startsWith_def)

section \<open>The minimum score of the retrieval engine\<close>

lemma buildContext_empty:
  "buildContext entry query [] = ''No relevant products found for: '' @ [dq] @ query @ [dq]"
  by (simp add: buildContext_def)

lemma js_lt_not_ge: "js_lt a b \<Longrightarrow> \<not> js_ge a b"
  by (cases a; cases b) simp_all

text \<open>
  Claim C8.  When the query can be embedded, \<open>RAGQueryEngine.search\<close> returns a
  result whose \<open>results\<close> all score at least the minimum; and when every row that the
  vector store's search returned scores below the minimum, \<open>results\<close> is empty and the
  context is the sentence \<open>No relevant products found for: "<query>"\<close>.
\<close>

theorem rag_minimum_score:
  "embedQuery query = Inr queryEmbedding \<longrightarrow>
     (\<exists>out. RAGQueryEngine_search embedQuery entry table minScore query topK flt = Inr out \<and>
        (\<forall>r \<in> set (rag_results out). js_ge (sr_score r) minScore) \<and>
        ((\<forall>r \<in> set (VectorStore_search table queryEmbedding topK flt).
             js_lt (sr_score r) minScore) \<longrightarrow>
           rag_results out = [] \<and>
           rag_context out = ''No relevant products found for: '' @ [dq] @ query @ [dq]))"
proof
  assume e: "embedQuery query = Inr queryEmbedding"
  let ?raw = "VectorStore_search table queryEmbedding topK flt"
  let ?out = "\<lparr>rag_query = query, rag_results = filter (\<lambda>r. js_ge (sr_score r) minScore) ?raw,
               rag_context =
                 buildContext entry query (filter (\<lambda>r. js_ge (sr_score r) minScore) ?raw)\<rparr>"
  have s: "RAGQueryEngine_search embedQuery entry table minScore query topK flt = Inr ?out"
    by (simp add: RAGQueryEngine_search_def e Let_def)
  have a: "\<forall>r \<in> set (rag_results ?out). js_ge (sr_score r) minScore"
    by simp
  have b: "rag_results ?out = [] \<and>
           rag_context ?out = ''No relevant products found for: '' @ [dq] @ query @ [dq]"
    if "\<forall>r \<in> set ?raw. js_lt (sr_score r) minScore"
  proof -
    from that have "filter (\<lambda>r. js_ge (sr_score r) minScore) ?raw = []"
      by (auto simp: filter_empty_conv js_lt_not_ge)
    then show ?thesis
      by (simp add: buildContext_empty)
  qed
  from s a b show "\<exists>out. RAGQueryEngine_search embedQuery entry table minScore query topK flt = Inr out \<and>
        (\<forall>r \<in> set (rag_results out). js_ge (sr_score r) minScore) \<and>
        ((\<forall>r \<in> set ?raw. js_lt (sr_score r) minScore) \<longrightarrow>
           rag_results out = [] \<and>
           rag_context out = ''No relevant products found for: '' @ [dq] @ query @ [dq])"
    by blast
qed

lemma sqrt_169: "sqrt 169 = 13"
  by (simp add: real_sqrt_unique)

lemma score_lamp: "VectorStore_cosineSimilarity [Fin 1, Fin 0] [Fin 0, Fin 1] = Fin 0"
  by (simp add: VectorStore_cosineSimilarity_def sumLoop.simps double_eval)

lemma score_hose:
  "VectorStore_cosineSimilarity [Fin 1, Fin 0] [Fin 5, Fin 12] = Fin (6928614811339225 / 2 ^ 54)"
  by (simp add: VectorStore_cosineSimilarity_def sumLoop.simps sqrt_169 double_eval)

lemma small_search:
  "VectorStore_search smallTable [Fin 1, Fin 0] 5 None =
     [\<lparr>sr_id = ''product-2'', sr_content = ''Name: Garden hose'',
       sr_metadata = [(''category'', ''Garden'')], sr_score = Fin (6928614811339225 / 2 ^ 54)\<rparr>,
      \<lparr>sr_id = ''product-1'', sr_content = ''Name: Desk lamp'',
       sr_metadata = [(''category'', ''Home'')], sr_score = Fin 0\<rparr>]"
  by (simp add: VectorStore_search_def smallTable_def score_lamp score_hose Array_sort_def
        js_sub_def double_eval)

theorem rag_minimum_score_witness:
  "length (VectorStore_search smallTable [Fin 1, Fin 0] 5 None) = 2 \<and>
   RAGQueryEngine_search laptopEmbedding plainEntry smallTable defaultMinScore ''laptop'' 5 None =
     Inr \<lparr>rag_query = ''laptop'', rag_results = [],
          rag_context = ''No relevant products found for: '' @ [dq] @ ''laptop'' @ [dq]\<rparr>"
proof -
  have e: "laptopEmbedding ''laptop'' = Inr [Fin 1, Fin 0]"
    by (simp add: laptopEmbedding_def)
  have low: "\<forall>r \<in> set (VectorStore_search smallTable [Fin 1, Fin 0] 5 None).
               js_lt (sr_score r) defaultMinScore"
    by (simp add: small_search defaultMinScore_def)
  from rag_minimum_score[of laptopEmbedding "''laptop''" "[Fin 1, Fin 0]" plainEntry smallTable
         defaultMinScore 5 None] e low
  obtain out where
    o: "RAGQueryEngine_search laptopEmbedding plainEntry smallTable defaultMinScore ''laptop'' 5 None
          = Inr out"
       "rag_results out = []"
       "rag_context out = ''No relevant products found for: '' @ [dq] @ ''laptop'' @ [dq]"
    by blast
  have "rag_query out = ''laptop''"
    using o(1) by (auto simp: RAGQueryEngine_search_def e Let_def)
  with o have "out = \<lparr>rag_query = ''laptop'', rag_results = [],
          rag_context = ''No relevant products found for: '' @ [dq] @ ''laptop'' @ [dq]\<rparr>"
    by (cases out) simp
  with o(1) show ?thesis
    by (simp add: small_search)
qed

end
